(* ===== verification/Prelude.thy ===== *)
theory Prelude
  imports Main "HOL-Library.Word"
begin

text \<open>
  Shared vocabulary of the development: machine-word synonyms, exceptions as values, the
  unordered containers of the code as association lists, and the lemma collections that the
  component theories extend (\<open>um_simps\<close> for the containers).

  \<open>boost::unordered_map\<close> and \<open>std::map\<close> are lists of key/value pairs with distinct keys: the
  lookup is \<open>map_of\<close>, and \<open>insert\<close>, \<open>erase\<close> and the assignment through an iterator are the
  three functions below. \<open>boost::unordered_set\<close> and \<open>std::set\<close> are lists without duplicates.
  The iteration order of an unordered container is unspecified in the code; where a loop
  visits one, the model fixes the insertion order and the theorems do not depend on it.
\<close>

unbundle bit_operations_syntax

named_theorems um_simps

type_synonym byte = "8 word"
type_synonym u16 = "16 word"
type_synonym u32 = "32 word"
type_synonym u64 = "64 word"
type_synonym uuid = "128 word"
type_synonym addr = nat

abbreviation nil_uuid :: uuid where
  "nil_uuid \<equiv> 0"

section \<open>Exceptions as values\<close>

text \<open>
  A \<open>std::runtime_error\<close> keeps its text; \<open>lib_error\<close> is an exception thrown by a library
  call (a malformed uuid, address or number). Handlers only log the exception they catch.
\<close>

datatype exn = runtime_error string | lib_error

definition throw_none :: "'a option \<Rightarrow> exn + 'a" where
  "throw_none x = (case x of None \<Rightarrow> Inl lib_error | Some v \<Rightarrow> Inr v)"

lemma throw_none_simps [simp]:
  "throw_none None = Inl lib_error"
  "throw_none (Some v) = Inr v"
  by (simp_all add: throw_none_def)

text \<open>
  How a handler ends: it returns with a state, it never returns (a loop that makes no
  progress), or it dereferences a null pointer.
\<close>

datatype 's run = Done 's | Hang | Crash

fun bind_run :: "'s run \<Rightarrow> ('s \<Rightarrow> 't run) \<Rightarrow> 't run" where
  "bind_run (Done s) f = f s"
| "bind_run Hang f = Hang"
| "bind_run Crash f = Crash"

lemma bind_run_Done [simp]:
  "bind_run r f = Done t \<longleftrightarrow> (\<exists>s. r = Done s \<and> f s = Done t)"
  by (cases r) auto

lemma bind_run_assoc: "bind_run (bind_run r f) g = bind_run r (\<lambda>s. bind_run (f s) g)"
  by (cases r) simp_all

section \<open>Associative containers\<close>

type_synonym ('k, 'v) um = "('k \<times> 'v) list"

definition um_keys :: "('k, 'v) um \<Rightarrow> 'k set" where
  "um_keys m = fst ` set m"

definition um_ok :: "('k, 'v) um \<Rightarrow> bool" where
  "um_ok m \<longleftrightarrow> distinct (map fst m)"

text \<open>\<open>insert\<close> keeps the old entry of a key that is present and says so by its flag.\<close>

definition um_insert :: "'k \<Rightarrow> 'v \<Rightarrow> ('k, 'v) um \<Rightarrow> ('k, 'v) um \<times> bool" where
  "um_insert k v m = (case map_of m k of None \<Rightarrow> (m @ [(k, v)], True) | Some _ \<Rightarrow> (m, False))"

definition um_erase :: "'k \<Rightarrow> ('k, 'v) um \<Rightarrow> ('k, 'v) um" where
  "um_erase k m = filter (\<lambda>e. fst e \<noteq> k) m"

definition um_assign :: "'k \<Rightarrow> 'v \<Rightarrow> ('k, 'v) um \<Rightarrow> ('k, 'v) um" where
  "um_assign k v m = map (\<lambda>e. if fst e = k then (k, v) else e) m"

text \<open>A set insertion, and its flag.\<close>

definition us_insert :: "'a \<Rightarrow> 'a list \<Rightarrow> 'a list" where
  "us_insert x xs = (if x \<in> set xs then xs else xs @ [x])"

lemma map_of_um_insert [um_simps]:
  "map_of (fst (um_insert k v m)) =
     (case map_of m k of None \<Rightarrow> (map_of m)(k \<mapsto> v) | Some _ \<Rightarrow> map_of m)"
  by (auto simp: um_insert_def fun_eq_iff map_add_def split: option.splits)

lemma snd_um_insert [um_simps]: "snd (um_insert k v m) \<longleftrightarrow> map_of m k = None"
  by (auto simp: um_insert_def split: option.splits)

lemma map_of_um_erase [um_simps]: "map_of (um_erase k m) = (map_of m)(k := None)"
  by (induction m) (auto simp: um_erase_def fun_eq_iff)

lemma map_of_um_assign [um_simps]:
  "map_of (um_assign k v m) =
     (case map_of m k of None \<Rightarrow> map_of m | Some _ \<Rightarrow> (map_of m)(k \<mapsto> v))"
  by (induction m) (auto simp: um_assign_def fun_eq_iff split: option.splits)

lemma um_keys_dom: "um_keys m = dom (map_of m)"
  by (simp add: um_keys_def dom_map_of_conv_image_fst)

lemma um_ok_Nil [simp]: "um_ok []"
  by (simp add: um_ok_def)

lemma um_ok_insert [um_simps]: "um_ok m \<Longrightarrow> um_ok (fst (um_insert k v m))"
  by (auto simp: um_ok_def um_insert_def map_of_eq_None_iff split: option.splits)

lemma um_ok_erase [um_simps]: "um_ok m \<Longrightarrow> um_ok (um_erase k m)"
  unfolding um_ok_def um_erase_def by (induction m) auto

lemma map_fst_um_assign [um_simps]: "map fst (um_assign k v m) = map fst m"
  by (induction m) (auto simp: um_assign_def)

lemma um_ok_assign [um_simps]: "um_ok m \<Longrightarrow> um_ok (um_assign k v m)"
  by (simp add: um_ok_def map_fst_um_assign)

lemma um_ok_map_of: "um_ok m \<Longrightarrow> map_of m k = Some v \<longleftrightarrow> (k, v) \<in> set m"
  by (simp add: um_ok_def map_of_eq_Some_iff)

lemma set_us_insert [um_simps]: "set (us_insert x xs) = insert x (set xs)"
  by (auto simp: us_insert_def)

lemma distinct_us_insert [um_simps]: "distinct xs \<Longrightarrow> distinct (us_insert x xs)"
  by (simp add: us_insert_def)

section \<open>Lists\<close>

definition remove_at :: "nat \<Rightarrow> 'a list \<Rightarrow> 'a list" where
  "remove_at i xs = take i xs @ drop (Suc i) xs"

lemma mset_remove_at: "i < length xs \<Longrightarrow> set (remove_at i xs) \<subseteq> set xs"
  by (auto simp: remove_at_def dest: in_set_takeD in_set_dropD)

lemma filter_remove_at:
  "i < length xs \<Longrightarrow>
   length (filter P (remove_at i xs)) = length (filter P xs) - (if P (xs ! i) then 1 else 0)"
proof -
  assume i: "i < length xs"
  then have "filter P xs = filter P (take i xs) @ filter P [xs ! i] @ filter P (drop (Suc i) xs)"
    by (metis append_Cons append_Nil filter_append id_take_nth_drop)
  then show ?thesis
    by (simp add: remove_at_def)
qed

lemma split_nth: "i < length xs \<Longrightarrow> xs = take i xs @ xs ! i # drop (Suc i) xs"
  by (rule id_take_nth_drop)

lemma concat_map_remove_at:
  assumes i: "i < length xs" and e: "f (xs ! i) = []"
  shows "concat (map f (remove_at i xs)) = concat (map f xs)"
proof -
  have "concat (map f xs) = concat (map f (take i xs @ xs ! i # drop (Suc i) xs))"
    using split_nth [OF i] by simp
  then show ?thesis
    by (simp add: remove_at_def e)
qed

lemma concat_map_drop_one:
  assumes "i < length xs" and "f (xs ! i) = [m]" and "concat (map f xs) @ ys = [k]"
  shows "concat (map f (remove_at i xs)) @ ys = []"
proof -
  have "concat (map f xs) = concat (map f (take i xs)) @ [m] @ concat (map f (drop (Suc i) xs))"
    using arg_cong [OF split_nth [OF assms(1)], of "\<lambda>l. concat (map f l)"] assms(2) by simp
  with assms(3) have "concat (map f (take i xs)) = []" "concat (map f (drop (Suc i) xs)) = []" "ys = []"
    by (auto simp: append_eq_Cons_conv)
  then show ?thesis by (simp add: remove_at_def)
qed

lemma concat_filter_Nil [simp]: "concat (map f (filter (\<lambda>x. f x = []) xs)) = []"
  by (induction xs) auto

section \<open>Decimal text\<close>

text \<open>\<open>std::to_string\<close> of a non-negative integer, and reading it back.\<close>

fun to_string :: "nat \<Rightarrow> string" where
  "to_string n = (if n < 10 then [char_of (48 + n)] else to_string (n div 10) @ [char_of (48 + n mod 10)])"

declare to_string.simps [simp del]

definition digits_value :: "string \<Rightarrow> nat" where
  "digits_value s = foldl (\<lambda>v c. 10 * v + (of_char c - 48)) 0 s"

definition is_digit :: "char \<Rightarrow> bool" where
  "is_digit c \<longleftrightarrow> of_char c \<in> {48..(57::nat)}"

lemma of_char_digit: "d < 10 \<Longrightarrow> of_char (char_of (48 + d) :: char) = (48 + d :: nat)"
  by simp

lemma digits_value_to_string [simp]: "digits_value (to_string n) = n"
proof (induction n rule: to_string.induct)
  case (1 n)
  show ?case
  proof (cases "n < 10")
    case True
    then show ?thesis by (simp add: to_string.simps [of n] digits_value_def)
  next
    case False
    have "n mod 10 < 10" by simp
    then have "of_char (char_of (48 + n mod 10) :: char) = 48 + n mod 10" by (rule of_char_digit)
    moreover have "digits_value (to_string (n div 10)) = n div 10" using 1 False by simp
    ultimately show ?thesis
      using False by (subst to_string.simps) (simp add: digits_value_def)
  qed
qed

lemma to_string_digits: "list_all is_digit (to_string n) \<and> to_string n \<noteq> []"
proof (induction n rule: to_string.induct)
  case (1 n)
  have d: "is_digit (char_of (48 + d))" if "d < 10" for d :: nat
    using that by (auto simp: is_digit_def of_char_digit)
  show ?case
  proof (cases "n < 10")
    case True
    then show ?thesis using d [of n] by (simp add: to_string.simps [of n])
  next
    case False
    then show ?thesis using 1 d [of "n mod 10"] by (subst (1 2) to_string.simps) simp
  qed
qed

end
