(* ===== verification/Asio.thy ===== *)
theory Asio
  imports Prelude
begin

text \<open>
  What the programs use of Boost.Asio: error codes, endpoints, deadline timers and the
  delimiter search of \<open>async_read_until\<close> over a \<open>streambuf\<close>. A \<open>streambuf\<close> is the list of the
  bytes that were read and not yet consumed.

  The last section is the message framing that both proxies rest on: a sender appends the
  delimiter to each payload and the receiver cuts the byte stream at the first delimiter.
  It is stated for any delimiter in the locale \<open>framing\<close> and interpreted on the two
  delimiters of the code where these are defined.
\<close>

section \<open>Error codes and endpoints\<close>

datatype error_code = ec_ok | operation_aborted | ec_other nat

definition failed :: "error_code \<Rightarrow> bool" where
  "failed ec \<longleftrightarrow> ec \<noteq> ec_ok"

lemma failed_simps [simp]:
  "\<not> failed ec_ok" "failed operation_aborted" "failed (ec_other n)"
  by (simp_all add: failed_def)

datatype ip_address = V4 u32 | V6 "128 word"

record endpoint =
  ep_address :: ip_address
  ep_port :: u16

definition default_endpoint :: endpoint where
  "default_endpoint = \<lparr>ep_address = V4 0, ep_port = 0\<rparr>"

section \<open>Deadline timers\<close>

text \<open>
  A timer has an expiry and the handlers waiting on it. Setting the expiry or cancelling
  aborts the handlers that wait: they still run, with \<open>operation_aborted\<close>. Time is counted
  in seconds. A default-constructed expiry compares as not after any time.
\<close>

datatype time_point = not_a_date_time | At nat | pos_infin

definition reached :: "nat \<Rightarrow> time_point \<Rightarrow> bool" where
  "reached now t = (case t of not_a_date_time \<Rightarrow> True | At n \<Rightarrow> n \<le> now | pos_infin \<Rightarrow> False)"

lemma reached_simps [simp]:
  "reached now not_a_date_time" "reached now (At n) \<longleftrightarrow> n \<le> now" "\<not> reached now pos_infin"
  by (simp_all add: reached_def)

record 'h timer =
  expires_at :: time_point
  waits :: "('h \<times> bool) list"

definition timer_new :: "'h timer" where
  "timer_new = \<lparr>expires_at = not_a_date_time, waits = []\<rparr>"

definition timer_cancel :: "'h timer \<Rightarrow> 'h timer" where
  "timer_cancel t = t\<lparr>waits := map (\<lambda>w. (fst w, True)) (waits t)\<rparr>"

definition timer_set :: "time_point \<Rightarrow> 'h timer \<Rightarrow> 'h timer" where
  "timer_set e t = (timer_cancel t)\<lparr>expires_at := e\<rparr>"

definition timer_wait :: "'h \<Rightarrow> 'h timer \<Rightarrow> 'h timer" where
  "timer_wait h t = t\<lparr>waits := waits t @ [(h, False)]\<rparr>"

text \<open>The \<open>i\<close>-th wait can complete when it was aborted or the expiry is reached.\<close>

definition timer_ready :: "nat \<Rightarrow> nat \<Rightarrow> 'h timer \<Rightarrow> bool" where
  "timer_ready now i t \<longleftrightarrow>
     i < length (waits t) \<and> (snd (waits t ! i) \<or> reached now (expires_at t))"

definition timer_take :: "nat \<Rightarrow> 'h timer \<Rightarrow> 'h \<times> error_code \<times> 'h timer" where
  "timer_take i t = (fst (waits t ! i), if snd (waits t ! i) then operation_aborted else ec_ok,
     t\<lparr>waits := remove_at i (waits t)\<rparr>)"

lemma timer_sel [simp]:
  "expires_at (timer_cancel t) = expires_at t"
  "expires_at (timer_set e t) = e"
  "expires_at (timer_wait h t) = expires_at t"
  "waits (timer_wait h t) = waits t @ [(h, False)]"
  "waits (timer_set e t) = map (\<lambda>w. (fst w, True)) (waits t)"
  "waits (timer_cancel t) = map (\<lambda>w. (fst w, True)) (waits t)"
  by (simp_all add: timer_cancel_def timer_set_def timer_wait_def)

section \<open>Reading up to a delimiter\<close>

text \<open>
  \<open>read_until d s\<close> is the number of bytes up to and including the first occurrence of \<open>d\<close> in
  \<open>s\<close>: the value \<open>async_read_until\<close> hands to its handler once \<open>s\<close> contains \<open>d\<close>.
\<close>

definition starts_with :: "'a list \<Rightarrow> 'a list \<Rightarrow> bool" where
  "starts_with d s \<longleftrightarrow> take (length d) s = d"

fun read_until :: "'a list \<Rightarrow> 'a list \<Rightarrow> nat option" where
  "read_until d [] = (if d = [] then Some 0 else None)"
| "read_until d (x # xs) =
     (if starts_with d (x # xs) then Some (length d)
      else map_option Suc (read_until d xs))"

lemma starts_with_length: "starts_with d s \<Longrightarrow> length d \<le> length s"
  unfolding starts_with_def by (metis length_take min.absorb_iff1 min.commute)

lemma starts_with_append: "length d \<le> length s \<Longrightarrow> starts_with d (s @ t) = starts_with d s"
  by (simp add: starts_with_def)

lemma starts_with_self [simp]: "starts_with d (d @ t)"
  by (simp add: starts_with_def)

lemma read_until_self: "d \<noteq> [] \<Longrightarrow> read_until d (d @ t) = Some (length d)"
  using starts_with_self [of d t] by (cases d) simp_all

lemma starts_with_iff: "starts_with d s \<longleftrightarrow> (\<exists>t. s = d @ t)"
  unfolding starts_with_def by (metis append_eq_conv_conj)

lemma read_until_Cons:
  "read_until d (x # xs) = Some n \<longleftrightarrow>
     (starts_with d (x # xs) \<and> n = length d) \<or>
     (\<not> starts_with d (x # xs) \<and> (\<exists>m. n = Suc m \<and> read_until d xs = Some m))"
  by auto

lemma read_until_bounds:
  "read_until d s = Some n \<Longrightarrow> length d \<le> n \<and> n \<le> length s"
proof (induction s arbitrary: n)
  case Nil
  then show ?case by (simp split: if_splits)
next
  case (Cons x xs)
  then show ?case
    unfolding read_until_Cons using starts_with_length [of d "x # xs"] by fastforce
qed

lemma read_until_ends:
  "read_until d s = Some n \<Longrightarrow> drop (n - length d) (take n s) = d"
proof (induction s arbitrary: n)
  case Nil
  then show ?case by (simp split: if_splits)
next
  case (Cons x xs)
  from Cons.prems consider
    "starts_with d (x # xs)" "n = length d" |
    m where "n = Suc m" "read_until d xs = Some m"
    unfolding read_until_Cons by blast
  then show ?case
  proof cases
    case 1
    then show ?thesis by (simp add: starts_with_def)
  next
    case 2
    with Cons.IH have "drop (m - length d) (take m xs) = d" by blast
    moreover from 2 have "length d \<le> m" using read_until_bounds by blast
    ultimately show ?thesis using 2 by (simp add: Suc_diff_le)
  qed
qed

text \<open>More input behind the delimiter does not change where the first one ends.\<close>

lemma read_until_append:
  "read_until d s = Some n \<Longrightarrow> read_until d (s @ t) = Some n"
proof (induction s arbitrary: n)
  case Nil
  then show ?case by (cases t) (auto simp: starts_with_def split: if_splits)
next
  case (Cons x xs)
  then have len: "length d \<le> length (x # xs)"
    using read_until_bounds by fastforce
  show ?case
    using Cons starts_with_append [OF len, of t] unfolding append_Cons read_until_Cons by blast
qed

text \<open>Without the delimiter in front, the search passes a byte at a time.\<close>

lemma read_until_skip:
  "(\<And>i. i < length p \<Longrightarrow> \<not> starts_with d (drop i (p @ s))) \<Longrightarrow>
   read_until d (p @ s) = map_option (\<lambda>n. length p + n) (read_until d s)"
proof (induction p)
  case Nil
  show ?case by (simp add: option.map_ident)
next
  case (Cons x p)
  have "\<not> starts_with d (x # p @ s)"
    using Cons.prems [of 0] by simp
  moreover have "read_until d (p @ s) = map_option (\<lambda>n. length p + n) (read_until d s)"
    by (rule Cons.IH) (use Cons.prems [of "Suc i" for i] in auto)
  ultimately show ?case
    by (cases "read_until d s") simp_all
qed

section \<open>Framing\<close>

text \<open>
  \<open>deframe d s\<close> cuts \<open>s\<close> at the delimiters: the payloads that are complete, and the bytes
  left in the buffer. It is what a receiver does that reads up to the delimiter, drops the
  delimiter, hands the payload on, consumes and reads again.
\<close>

function deframe :: "'a list \<Rightarrow> 'a list \<Rightarrow> 'a list list \<times> 'a list" where
  "deframe d s =
     (case read_until d s of
        None \<Rightarrow> ([], s)
      | Some n \<Rightarrow>
          if d = [] then ([], s)
          else (let r = deframe d (drop n s) in (take (n - length d) s # fst r, snd r)))"
  by pat_completeness auto
termination
proof (relation "measure (\<lambda>(d, s). length s)")
  fix d s :: "'a list" and n
  assume "read_until d s = Some n" "d \<noteq> []"
  then show "((d, drop n s), (d, s)) \<in> measure (\<lambda>(d, s). length s)"
    using read_until_bounds [of d s n] by (cases d) auto
qed simp

declare deframe.simps [simp del]

text \<open>A receiver that is fed a sequence of chunks.\<close>

fun feed :: "'a list \<Rightarrow> 'a list \<Rightarrow> 'a list list \<Rightarrow> 'a list list \<times> 'a list" where
  "feed d buf [] = ([], buf)"
| "feed d buf (c # cs) =
     (let r = deframe d (buf @ c); r' = feed d (snd r) cs in (fst r @ fst r', snd r'))"

lemma read_until_None_iff:
  assumes "d \<noteq> []"
  shows "read_until d s = None \<longleftrightarrow> (\<forall>i. \<not> starts_with d (drop i s))"
proof (induction s)
  case Nil
  with assms show ?case by (simp add: starts_with_def)
next
  case (Cons x xs)
  have "(\<forall>i. \<not> starts_with d (drop i (x # xs))) \<longleftrightarrow>
      \<not> starts_with d (x # xs) \<and> (\<forall>i. \<not> starts_with d (drop i xs))"
    by (metis drop0 drop_Cons' drop_Suc_Cons)
  with Cons show ?case by simp
qed

lemma deframe_None [simp]: "read_until d s = None \<Longrightarrow> deframe d s = ([], s)"
  by (simp add: deframe.simps)

lemma deframe_Some:
  "read_until d s = Some n \<Longrightarrow> d \<noteq> [] \<Longrightarrow>
   deframe d s = (let r = deframe d (drop n s) in (take (n - length d) s # fst r, snd r))"
  by (simp add: deframe.simps [of d s])

text \<open>A frame that is complete is cut the same way whatever arrives behind it.\<close>

lemma deframe_append:
  assumes "d \<noteq> []"
  shows "deframe d (s @ t) =
    (fst (deframe d s) @ fst (deframe d (snd (deframe d s) @ t)),
     snd (deframe d (snd (deframe d s) @ t)))"
  using assms
proof (induction d s rule: deframe.induct)
  case (1 d s)
  show ?case
  proof (cases "read_until d s")
    case None
    then show ?thesis by simp
  next
    case (Some n)
    then have n: "n \<le> length s" "length d \<le> n" using read_until_bounds by blast+
    have IH: "deframe d (drop n s @ t) =
      (fst (deframe d (drop n s)) @ fst (deframe d (snd (deframe d (drop n s)) @ t)),
       snd (deframe d (snd (deframe d (drop n s)) @ t)))"
      using "1.IH" [OF Some "1.prems"] "1.prems" by blast
    have "deframe d (s @ t) =
        (let r = deframe d (drop n s @ t) in (take (n - length d) s # fst r, snd r))"
      using deframe_Some [OF read_until_append [OF Some] "1.prems"] n by simp
    with IH deframe_Some [OF Some "1.prems"] show ?thesis by (simp add: Let_def)
  qed
qed

lemma feed_concat:
  assumes "d \<noteq> []" and "read_until d buf = None"
  shows "feed d buf cs = deframe d (buf @ concat cs)"
proof -
  have "feed d (snd (deframe d s)) cs =
      (fst (deframe d (snd (deframe d s) @ concat cs)),
       snd (deframe d (snd (deframe d s) @ concat cs)))" for s
  proof (induction cs arbitrary: s)
    case Nil
    have "deframe d (snd (deframe d s) @ []) = ([], snd (deframe d s))"
      using deframe_append [OF assms(1), of s "[]"] by (simp add: prod_eq_iff)
    then show ?case by simp
  next
    case (Cons c cs)
    let ?b = "snd (deframe d s)"
    have "snd (deframe d (?b @ c)) @ concat cs = snd (deframe d (?b @ c)) @ concat cs" ..
    with Cons.IH [of "?b @ c"] deframe_append [OF assms(1), of "?b @ c" "concat cs"]
    show ?case by (simp add: Let_def)
  qed
  from this [of buf] assms(2) show ?thesis by simp
qed

text \<open>
  The interface of the two protocols: a delimiter whose first byte does not occur again in
  it. Then a payload without the delimiter inside is delivered as it was sent.
\<close>

locale framing =
  fixes delim :: "'a list"
  assumes delim_nonempty: "delim \<noteq> []"
    and delim_head: "hd delim \<notin> set (tl delim)"
begin

lemma delim_unbordered:
  assumes "0 < k" "k < length delim"
  shows "take k delim \<noteq> drop (length delim - k) delim"
proof
  assume eq: "take k delim = drop (length delim - k) delim"
  have "hd (take k delim) = hd delim"
    using assms delim_nonempty by (cases delim; cases k) auto
  moreover have "drop (length delim - k) delim = drop (length delim - k - 1) (tl delim)"
    using assms by (metis Suc_diff_1 drop_Suc zero_less_diff)
  moreover have "drop (length delim - k) delim \<noteq> []" using assms by simp
  ultimately have "hd delim \<in> set (tl delim)"
    using eq by (metis hd_in_set in_set_dropD)
  with delim_head show False by contradiction
qed

lemma read_until_frame:
  assumes clean: "read_until delim p = None"
  shows "read_until delim (p @ delim @ rest) = Some (length p + length delim)"
proof -
  have "\<not> starts_with delim (drop i (p @ delim @ rest))" if i: "i < length p" for i
  proof
    let ?q = "drop i p"
    assume "starts_with delim (drop i (p @ delim @ rest))"
    then obtain t where t: "?q @ delim @ rest = delim @ t"
      using i by (auto simp: starts_with_iff)
    have no: "\<not> starts_with delim ?q"
      using clean read_until_None_iff [OF delim_nonempty] by blast
    show False
    proof (cases "length delim \<le> length ?q")
      case True
      with t have "take (length delim) ?q = delim"
        by (metis append_eq_append_conv_if append_eq_conv_conj)
      with no show False by (simp add: starts_with_def)
    next
      case False
      let ?k = "length delim - length ?q"
      have k: "0 < ?k" "?k < length delim" using False i by auto
      from t False have "take (length ?q) delim = ?q"
        by (metis append_eq_append_conv_if append_eq_conv_conj linorder_le_cases take_all)
      moreover from t have "take (length delim) (?q @ delim @ rest) = delim" by simp
      ultimately have "take ?k (delim @ rest) = drop (length ?q) delim"
        using False by (metis append_eq_conv_conj append_take_drop_id nle_le take_all take_append)
      then have "take ?k delim = drop (length delim - ?k) delim"
        using False k by simp
      with delim_unbordered [OF k] show False by contradiction
    qed
  qed
  then have "read_until delim (p @ delim @ rest) =
      map_option (\<lambda>n. length p + n) (read_until delim (delim @ rest))"
    by (rule read_until_skip)
  moreover have "read_until delim (delim @ rest) = Some (length delim)"
    by (rule read_until_self [OF delim_nonempty])
  ultimately show ?thesis by simp
qed

lemma deframe_frames:
  assumes "\<forall>p \<in> set ps. read_until delim p = None" and "read_until delim rest = None"
  shows "deframe delim (concat (map (\<lambda>p. p @ delim) ps) @ rest) = (ps, rest)"
  using assms(1)
proof (induction ps)
  case Nil
  with assms(2) show ?case by simp
next
  case (Cons p ps)
  let ?tail = "concat (map (\<lambda>p. p @ delim) ps) @ rest"
  from Cons.prems have "read_until delim (p @ delim @ ?tail) = Some (length p + length delim)"
    by (simp add: read_until_frame)
  with Cons show ?case by (simp add: deframe_Some [OF _ delim_nonempty])
qed

lemma feed_frames:
  assumes "\<forall>p \<in> set ps. read_until delim p = None"
    and "concat cs = concat (map (\<lambda>p. p @ delim) ps)"
  shows "feed delim [] cs = (ps, [])"
proof -
  have none: "read_until delim [] = None" using delim_nonempty by simp
  from feed_concat [OF delim_nonempty none, of cs] assms(2)
    deframe_frames [OF assms(1) none]
  show ?thesis by simp
qed

end

end
