(* ===== verification/Nat_Utils.thy ===== *)
theory Nat_Utils
  imports Asio
begin

text \<open>
  \<open>opennat/src/Utils.cpp\<close> and the message delimiter of \<open>opennat/protofiles/Command.proto\<close>:
  packing a 64-bit header into eight bytes, most significant first, unpacking it again, and
  copying a message out of the stream buffer. The lemmas show that packing and unpacking are
  inverse to each other and that the delimiter is an instance of the framing interface.
\<close>

section \<open>The delimiter\<close>

text \<open>The default of \<open>Protocol.delimiter\<close> in UTF-8: the second letter is Cyrillic.\<close>

definition delimiter :: "byte list" where
  "delimiter = [0x40, 0xD1, 0x81, 0x68, 0x75, 0x6E, 0x6B]"

lemma length_delimiter [simp]: "length delimiter = 7"
  by (simp add: delimiter_def)

interpretation nat_frame: framing delimiter
  by unfold_locales (simp_all add: delimiter_def)

section \<open>Copying from the stream\<close>

text \<open>
  Appends the message in front of the delimiter to \<open>buff\<close>; \<open>offset\<close> counts the delimiter.
\<close>

definition StreamToBuff :: "byte list \<Rightarrow> byte list \<Rightarrow> nat \<Rightarrow> byte list" where
  "StreamToBuff stream buff offset = buff @ take (offset - length delimiter) stream"

lemma StreamToBuff_frame:
  assumes "read_until delimiter p = None"
  shows "\<exists>n. read_until delimiter (p @ delimiter @ rest) = Some n \<and>
    StreamToBuff (p @ delimiter @ rest) buff n = buff @ p \<and>
    drop n (p @ delimiter @ rest) = rest"
  using nat_frame.read_until_frame [OF assms, of rest] by (simp add: StreamToBuff_def)

section \<open>The eight-byte header\<close>

text \<open>
  \<open>Pack\<close> fills the array \<open>bytes\<close>, whose initial contents \<open>raw\<close> are indeterminate, in the order
  of rising \<open>offset\<close> and reverses it.
\<close>

function Pack_loop :: "u64 \<Rightarrow> nat \<Rightarrow> byte list \<Rightarrow> byte list" where
  "Pack_loop data offset bytes =
     (if offset < 64
      then Pack_loop data (offset + 8)
             (bytes[offset div 8 := ucast (drop_bit offset data AND 0xFF)])
      else bytes)"
  by pat_completeness auto
termination
  by (relation "measure (\<lambda>(data, offset, bytes). 64 - offset)") auto

declare Pack_loop.simps [simp del]

definition Pack :: "byte list \<Rightarrow> u64 \<Rightarrow> byte list" where
  "Pack raw data = rev (Pack_loop data 0 raw)"

function Unpack_loop :: "byte list \<Rightarrow> nat \<Rightarrow> int \<Rightarrow> u64 \<Rightarrow> u64" where
  "Unpack_loop bytes i offset header =
     (if offset \<ge> 0
      then Unpack_loop bytes (i + 1) (offset - 8)
             (header OR push_bit (nat offset) (ucast (bytes ! i)))
      else header)"
  by pat_completeness auto
termination
  by (relation "measure (\<lambda>(bytes, i, offset, header). nat (offset + 8))") auto

declare Unpack_loop.simps [simp del]

definition Unpack :: "byte list \<Rightarrow> u64" where
  "Unpack bytes = Unpack_loop bytes 0 ((8 - 1) * 8) 0"

lemma Unpack_eq:
  "Unpack [b0, b1, b2, b3, b4, b5, b6, b7] =
     push_bit 56 (ucast b0) OR push_bit 48 (ucast b1) OR push_bit 40 (ucast b2) OR
     push_bit 32 (ucast b3) OR push_bit 24 (ucast b4) OR push_bit 16 (ucast b5) OR
     push_bit 8 (ucast b6) OR ucast b7"
  by (simp add: Unpack_def Unpack_loop.simps or.assoc)

lemma Pack_eq:
  assumes "length raw = 8"
  shows "Pack raw data = map (\<lambda>k. ucast (drop_bit k data AND 0xFF)) [56, 48, 40, 32, 24, 16, 8, 0]"
proof -
  from assms obtain a b c d e f g h where "raw = [a, b, c, d, e, f, g, h]"
    by (auto simp: numeral_eq_Suc length_Suc_conv)
  then show ?thesis by (simp add: Pack_def Pack_loop.simps)
qed

text \<open>The arithmetic of eight octets in a 64-bit word.\<close>

lemma ucast_low_byte [simp]: "(ucast (x AND 255 :: u64) :: byte) = ucast x"
proof -
  have "(ucast (x AND mask 8 :: u64) :: byte) = ucast x"
    by (intro bit_word_eqI) (simp add: bit_simps)
  then show ?thesis by (simp add: mask_eq_exp_minus_1)
qed

lemma octet_ranges:
  "n < 64 \<Longrightarrow> n < 8 \<or> (8 \<le> n \<and> n < 16) \<or> (16 \<le> n \<and> n < 24) \<or> (24 \<le> n \<and> n < 32) \<or>
    (32 \<le> n \<and> n < 40) \<or> (40 \<le> n \<and> n < 48) \<or> (48 \<le> n \<and> n < 56) \<or> (56 \<le> n \<and> n < (64::nat))"
  by linarith

lemma eight_octets:
  "length xs = 8 \<Longrightarrow> \<exists>a b c d e f g h. xs = [a, b, c, d, e, f, g, h]"
  by (auto simp: numeral_eq_Suc length_Suc_conv)

lemma Unpack_Pack_inverse:
  assumes "length raw = 8"
  shows "Unpack (Pack raw data) = data"
proof (rule bit_word_eqI)
  fix n
  assume "n < LENGTH(64)"
  then have "n < 64" by simp
  then show "bit (Unpack (Pack raw data)) n \<longleftrightarrow> bit data n"
    by (simp add: Pack_eq [OF assms] Unpack_eq bit_simps)
      (drule octet_ranges, elim disjE conjE, auto)
qed

lemma Pack_Unpack_inverse:
  assumes raw: "length raw = 8" and b: "length b = 8"
  shows "Pack raw (Unpack b) = b"
proof -
  obtain b0 b1 b2 b3 b4 b5 b6 b7 where e: "b = [b0, b1, b2, b3, b4, b5, b6, b7]"
    using eight_octets [OF b] by auto
  show ?thesis
    unfolding Pack_eq [OF raw] e Unpack_eq
    by (simp, intro conjI; rule bit_word_eqI)
      (auto simp: bit_simps dest: bit_imp_le_length)
qed

lemma length_Pack: "length raw = 8 \<Longrightarrow> length (Pack raw data) = 8"
  by (simp add: Pack_eq)

end
