(* ===== verification/Nat_Types.thy ===== *)
theory Nat_Types
  imports Nat_Utils
begin

text \<open>
  The data of \<open>opennat\<close>: the protocol messages of \<open>protofiles/Command.proto\<close>, the types of
  \<open>include/nat/Types.h\<close> and the library functions the code calls on them.

  A message is a record of its fields. An optional field whose presence the code inspects
  (\<open>has_x\<close>, or \<open>mutable_x\<close> on a sub-message) is an \<open>option\<close>; a field of which the code only
  reads the value is the value, the field's default when it is absent.
\<close>

section \<open>Protocol messages\<close>

datatype Command_Protocol =
    Command_Protocol_Connect | Command_Protocol_P2P | Command_Protocol_Heartbeat
  | Command_Protocol_Subscribe | Command_Protocol_Data

datatype Connect_Protocol = Connect_Protocol_Request | Connect_Protocol_Reply

datatype Connect_Type =
    Connect_Type_Direct | Connect_Type_Proxyup | Connect_Type_Proxydown | Connect_Type_Stun

datatype P2P_Protocol =
    P2P_Protocol_Error | P2P_Protocol_MakeDirect | P2P_Protocol_MakeProxy | P2P_Protocol_Data

datatype Error_Protocol = Error_Protocol_Unreachable

datatype Subscribe_Protocol = Subscribe_Protocol_Request | Subscribe_Protocol_Reply

record Endpoint =
  address :: string
  port :: string
  network :: string

record Connect =
  connect_protocol :: Connect_Protocol
  connect_type :: Connect_Type
  connect_client_id :: string
  connect_initialized :: bool
  connect_ready :: bool
  connect_external :: "Endpoint option"

record Error =
  error_protocol :: Error_Protocol
  error_msg :: string

record MakeDirect =
  direct_error :: "Error option"
  direct_session_id :: string
  direct_external :: "Endpoint option"
  direct_internal :: "Endpoint option"

record MakeProxy =
  proxy_session_id :: string

record P2P =
  p2p_protocol :: P2P_Protocol
  p2p_error :: "Error option"
  p2p_from :: string
  p2p_to :: string
  p2p_make_direct :: "MakeDirect option"
  p2p_make_proxy :: "MakeProxy option"
  p2p_data :: "byte list option"

record Heartbeat =
  ping :: bool
  pong :: bool

record Subscribe =
  subscribe_protocol :: Subscribe_Protocol
  subscribe_client_id :: "string option"
  subscribe_online :: bool

record Command =
  protocol :: Command_Protocol
  connect :: "Connect option"
  p2p :: "P2P option"
  heartbeat :: "Heartbeat option"
  subscribe :: "Subscribe option"
  data :: "byte list option"

text \<open>Freshly constructed messages: no optional field, the first enumerator of a required one.\<close>

definition Command_new :: Command where
  "Command_new = \<lparr>protocol = Command_Protocol_Connect, connect = None, p2p = None,
     heartbeat = None, subscribe = None, data = None\<rparr>"

definition Connect_new :: Connect where
  "Connect_new = \<lparr>connect_protocol = Connect_Protocol_Request, connect_type = Connect_Type_Direct,
     connect_client_id = [], connect_initialized = False, connect_ready = False,
     connect_external = None\<rparr>"

definition P2P_new :: P2P where
  "P2P_new = \<lparr>p2p_protocol = P2P_Protocol_Error, p2p_error = None, p2p_from = [], p2p_to = [],
     p2p_make_direct = None, p2p_make_proxy = None, p2p_data = None\<rparr>"

definition MakeDirect_new :: MakeDirect where
  "MakeDirect_new = \<lparr>direct_error = None, direct_session_id = [], direct_external = None,
     direct_internal = None\<rparr>"

definition Error_new :: Error where
  "Error_new = \<lparr>error_protocol = Error_Protocol_Unreachable, error_msg = []\<rparr>"

definition Heartbeat_new :: Heartbeat where
  "Heartbeat_new = \<lparr>ping = False, pong = False\<rparr>"

definition Endpoint_new :: Endpoint where
  "Endpoint_new = \<lparr>address = [], port = [], network = []\<rparr>"

text \<open>\<open>mutable_x\<close> of a sub-message that is absent gives a fresh one.\<close>

definition or_new :: "'a \<Rightarrow> 'a option \<Rightarrow> 'a" where
  "or_new d x = (case x of None \<Rightarrow> d | Some v \<Rightarrow> v)"

lemma or_new_simps [simp]: "or_new d None = d" "or_new d (Some v) = v"
  by (simp_all add: or_new_def)

section \<open>Messages that both ends build\<close>

definition heartbeat_ping :: Command where
  "heartbeat_ping =
     Command_new\<lparr>protocol := Command_Protocol_Heartbeat, heartbeat := Some (Heartbeat_new\<lparr>ping := True\<rparr>)\<rparr>"

definition heartbeat_pong :: Command where
  "heartbeat_pong =
     Command_new\<lparr>protocol := Command_Protocol_Heartbeat, heartbeat := Some (Heartbeat_new\<lparr>pong := True\<rparr>)\<rparr>"

definition connect_reply :: "Connect_Type \<Rightarrow> Connect" where
  "connect_reply t =
     Connect_new\<lparr>connect_protocol := Connect_Protocol_Reply, connect_type := t\<rparr>"

definition connect_command :: "Connect \<Rightarrow> Command" where
  "connect_command c = Command_new\<lparr>protocol := Command_Protocol_Connect, connect := Some c\<rparr>"

section \<open>Session types, configurations\<close>

datatype SessionType = PROXYUP | PROXYDOWN | DIRECT | STUN | UNKNOWN

record ClientCfg =
  extEp :: endpoint
  bindEp :: endpoint
  inEp :: endpoint
  netmask :: u32
  cfg_network :: u32
  serverEp :: endpoint
  isConnected :: bool

definition ClientCfg_new :: ClientCfg where
  "ClientCfg_new = \<lparr>extEp = default_endpoint, bindEp = default_endpoint, inEp = default_endpoint,
     netmask = 0, cfg_network = 0, serverEp = default_endpoint, isConnected = False\<rparr>"

record SessionConfig =
  sc_clientId :: uuid
  sc_epList :: "endpoint list"
  sc_sessionId :: uuid
  sc_sessionType :: SessionType
  sc_serverEp :: endpoint

record SessionPair =
  down_session :: "addr option"
  up_session :: "addr option"

text \<open>\<open>Errors::unreachable_\<close>.\<close>

definition unreachable :: string where
  "unreachable = ''Destination host unreachable''"

section \<open>Library functions\<close>

text \<open>
  The functions of Protocol Buffers and Boost that the code calls; \<open>None\<close> is a thrown
  exception (for \<open>parse\<close>: a failed parse). \<open>class_mask\<close> is \<open>address_v4::netmask\<close>.
\<close>

record lib =
  serialize :: "Command \<Rightarrow> byte list"
  parse :: "byte list \<Rightarrow> Command option"
  uuid_to_string :: "uuid \<Rightarrow> string"
  uuid_of_string :: "string \<Rightarrow> uuid option"
  addr_to_string :: "ip_address \<Rightarrow> string"
  addr_of_string :: "string \<Rightarrow> ip_address option"
  port_to_string :: "u16 \<Rightarrow> string"
  port_of_string :: "string \<Rightarrow> u16 option"
  v4_of_string :: "string \<Rightarrow> u32 option"
  v4_to_string :: "u32 \<Rightarrow> string"
  class_mask :: "u32 \<Rightarrow> u32"

text \<open>Reading back what was printed: documented for uuids, addresses and decimal ports.\<close>

definition uuid_text :: "lib \<Rightarrow> bool" where
  "uuid_text L \<longleftrightarrow> (\<forall>u. uuid_of_string L (uuid_to_string L u) = Some u)"

definition endpoint_text :: "lib \<Rightarrow> bool" where
  "endpoint_text L \<longleftrightarrow>
     (\<forall>a. addr_of_string L (addr_to_string L a) = Some a) \<and>
     (\<forall>p. port_of_string L (port_to_string L p) = Some p)"

text \<open>
  A concrete library for the witnesses: a number is printed in unary, and a message is
  parsed to a given one. Its text functions satisfy both hypotheses.
\<close>

definition unary :: "'a::len word \<Rightarrow> string" where
  "unary w = replicate (unat w) CHR ''1''"

definition unary_of :: "string \<Rightarrow> 'a::len word option" where
  "unary_of s = (if set s \<subseteq> {CHR ''1''} then Some (of_nat (length s)) else None)"

lemma unary_of_unary [simp]: "unary_of (unary w) = Some w"
  by (auto simp: unary_of_def unary_def)

definition print_addr :: "ip_address \<Rightarrow> string" where
  "print_addr a = (case a of V4 w \<Rightarrow> CHR ''4'' # unary w | V6 w \<Rightarrow> CHR ''6'' # unary w)"

definition read_addr :: "string \<Rightarrow> ip_address option" where
  "read_addr s = (case s of [] \<Rightarrow> None
     | c # r \<Rightarrow> if c = CHR ''4'' then map_option V4 (unary_of r) else map_option V6 (unary_of r))"

lemma read_print_addr [simp]: "read_addr (print_addr a) = Some a"
  by (cases a) (simp_all add: read_addr_def print_addr_def)

definition sample_lib :: "Command \<Rightarrow> lib" where
  "sample_lib c = \<lparr>serialize = (\<lambda>_. [1, 2, 3]), parse = (\<lambda>_. Some c),
     uuid_to_string = unary, uuid_of_string = unary_of,
     addr_to_string = print_addr, addr_of_string = read_addr,
     port_to_string = unary, port_of_string = unary_of,
     v4_of_string = unary_of, v4_to_string = unary, class_mask = (\<lambda>_. 0xFFFFFF00)\<rparr>"

lemma sample_lib_text [simp]: "uuid_text (sample_lib c)" "endpoint_text (sample_lib c)"
  by (simp_all add: uuid_text_def endpoint_text_def sample_lib_def)

end
