(* ===== verification/Registries.thy ===== *)
theory Registries
  imports Asio
begin

text \<open>
  The contracts of the session managers. Both \<open>opennat\<close> and \<open>openproxy\<close> keep a registry of
  sessions by id (\<open>SessionMgr\<close>, \<open>ClientMgr\<close>) and a registry of session pairs by id (the two
  \<open>ProxyMgr\<close>). A registry owns sockets: removing an entry closes the sessions it held.

  Each contract is an abstract specification (\<open>reg_spec\<close>, \<open>pair_spec\<close>) and a locale that
  names the operations and their laws; inside the locale a sequence of operations is shown
  to refine the specification. The component theories interpret the locales on the model.
\<close>

section \<open>One session per id\<close>

datatype reg_op = RAdd addr | RRemove uuid | RStop

text \<open>The specification works on the map from ids to sessions and on the set of open sockets.\<close>

type_synonym reg_state = "(uuid \<rightharpoonup> addr) \<times> addr set"

fun reg_spec :: "(addr \<Rightarrow> uuid) \<Rightarrow> reg_op \<Rightarrow> reg_state \<Rightarrow> reg_state" where
  "reg_spec key (RAdd a) (m, opn) =
     (if m (key a) = None then (m(key a \<mapsto> a), opn) else (m, opn))"
| "reg_spec key (RRemove i) (m, opn) =
     (m(i := None), case m i of None \<Rightarrow> opn | Some a \<Rightarrow> opn - {a})"
| "reg_spec key RStop (m, opn) = (Map.empty, opn - ran m)"

fun reg_specs :: "(addr \<Rightarrow> uuid) \<Rightarrow> reg_op list \<Rightarrow> reg_state \<Rightarrow> reg_state" where
  "reg_specs key [] s = s"
| "reg_specs key (x # xs) s = reg_specs key xs (reg_spec key x s)"

text \<open>What the specification promises: ids are right, and registered sessions stay open.\<close>

definition reg_wf :: "(addr \<Rightarrow> uuid) \<Rightarrow> reg_state \<Rightarrow> bool" where
  "reg_wf key s \<longleftrightarrow> (\<forall>i a. fst s i = Some a \<longrightarrow> key a = i \<and> a \<in> snd s)"

lemma reg_spec_wf:
  assumes "reg_wf key s" and "\<And>a. x = RAdd a \<Longrightarrow> a \<in> snd s"
  shows "reg_wf key (reg_spec key x s)"
proof (cases s)
  case (Pair m opn)
  with assms show ?thesis
    by (cases x) (auto simp: reg_wf_def split: option.splits)
qed

locale session_registry =
  fixes find :: "'s \<Rightarrow> uuid \<Rightarrow> addr option"
    and add :: "addr \<Rightarrow> 's \<Rightarrow> 's option"
    and remove :: "uuid \<Rightarrow> 's \<Rightarrow> 's"
    and stop :: "'s \<Rightarrow> 's"
    and key :: "'s \<Rightarrow> addr \<Rightarrow> uuid"
    and open_set :: "'s \<Rightarrow> addr set"
    and ok :: "'s \<Rightarrow> bool"
  assumes add_None: "ok s \<Longrightarrow> add a s = None \<longleftrightarrow> find s (key s a) \<noteq> None"
    and add_Some: "ok s \<Longrightarrow> add a s = Some t \<Longrightarrow>
      find t = (find s)(key s a \<mapsto> a) \<and> key t = key s \<and> open_set t = open_set s \<and> ok t"
    and remove: "ok s \<Longrightarrow>
      find (remove i s) = (find s)(i := None) \<and> key (remove i s) = key s \<and> ok (remove i s) \<and>
      open_set (remove i s) = (case find s i of None \<Rightarrow> open_set s | Some a \<Rightarrow> open_set s - {a})"
    and stop: "ok s \<Longrightarrow>
      find (stop s) = Map.empty \<and> key (stop s) = key s \<and> ok (stop s) \<and>
      open_set (stop s) = open_set s - ran (find s)"
begin

fun do_op :: "reg_op \<Rightarrow> 's \<Rightarrow> 's" where
  "do_op (RAdd a) s = (case add a s of None \<Rightarrow> s | Some t \<Rightarrow> t)"
| "do_op (RRemove i) s = remove i s"
| "do_op RStop s = stop s"

definition abs :: "'s \<Rightarrow> reg_state" where
  "abs s = (find s, open_set s)"

lemma do_op_refines:
  assumes "ok s"
  shows "abs (do_op x s) = reg_spec (key s) x (abs s) \<and> key (do_op x s) = key s \<and> ok (do_op x s)"
proof (cases x)
  case (RAdd a)
  show ?thesis
  proof (cases "add a s")
    case None
    then have "find s (key s a) \<noteq> None" using add_None [OF assms, of a] by simp
    with None RAdd assms show ?thesis by (auto simp: abs_def)
  next
    case (Some t)
    then have "find s (key s a) = None" using add_None [OF assms, of a] by auto
    with Some RAdd add_Some [OF assms Some] show ?thesis by (simp add: abs_def)
  qed
next
  case (RRemove i)
  then show ?thesis using remove [OF assms, of i] by (simp add: abs_def)
next
  case RStop
  then show ?thesis using stop [OF assms] by (simp add: abs_def)
qed

lemma run_refines:
  assumes "ok s"
  shows "abs (fold do_op xs s) = reg_specs (key s) xs (abs s)"
  using assms
proof (induction xs arbitrary: s)
  case Nil
  show ?case by simp
next
  case (Cons x xs)
  have ok: "ok (do_op x s)" and key: "key (do_op x s) = key s"
    and abs: "abs (do_op x s) = reg_spec (key s) x (abs s)"
    using do_op_refines [OF Cons.prems] by blast+
  have "abs (fold do_op xs (do_op x s)) = reg_specs (key s) xs (abs (do_op x s))"
    using Cons.IH [OF ok] key by simp
  then show ?case by (simp add: abs)
qed

end

section \<open>A downstream and an upstream session per id\<close>

datatype side = Down | Up

datatype pair_op = PAdd addr | PRemove uuid

type_synonym pair_state = "(uuid \<rightharpoonup> addr option \<times> addr option) \<times> addr set"

text \<open>An empty slot takes a session of its side; a taken slot is never overwritten.\<close>

fun put_side :: "side option \<Rightarrow> addr \<Rightarrow> addr option \<times> addr option
    \<Rightarrow> (addr option \<times> addr option) option" where
  "put_side (Some Down) a (None, u) = Some (Some a, u)"
| "put_side (Some Up) a (d, None) = Some (d, Some a)"
| "put_side _ a _ = None"

definition slot_of :: "('i \<rightharpoonup> addr option \<times> addr option) \<Rightarrow> 'i \<Rightarrow> addr option \<times> addr option" where
  "slot_of m i = (case m i of None \<Rightarrow> (None, None) | Some p \<Rightarrow> p)"

fun members :: "addr option \<times> addr option \<Rightarrow> addr set" where
  "members (d, u) = set_option d \<union> set_option u"

fun pair_spec :: "(addr \<Rightarrow> uuid) \<Rightarrow> (addr \<Rightarrow> side option) \<Rightarrow> pair_op \<Rightarrow> pair_state \<Rightarrow> pair_state" where
  "pair_spec key side_of (PAdd a) (m, opn) =
     (case put_side (side_of a) a (slot_of m (key a)) of
        None \<Rightarrow> (m, opn) | Some p \<Rightarrow> (m(key a \<mapsto> p), opn))"
| "pair_spec key side_of (PRemove i) (m, opn) =
     (m(i := None), case m i of None \<Rightarrow> opn | Some p \<Rightarrow> opn - members p)"

fun pair_specs :: "(addr \<Rightarrow> uuid) \<Rightarrow> (addr \<Rightarrow> side option) \<Rightarrow> pair_op list \<Rightarrow> pair_state \<Rightarrow> pair_state" where
  "pair_specs key side_of [] s = s"
| "pair_specs key side_of (x # xs) s = pair_specs key side_of xs (pair_spec key side_of x s)"

locale pair_registry =
  fixes pair :: "'s \<Rightarrow> uuid \<Rightarrow> (addr option \<times> addr option) option"
    and add :: "addr \<Rightarrow> 's \<Rightarrow> 's option"
    and remove :: "uuid \<Rightarrow> 's \<Rightarrow> 's"
    and key :: "'s \<Rightarrow> addr \<Rightarrow> uuid"
    and side_of :: "'s \<Rightarrow> addr \<Rightarrow> side option"
    and open_set :: "'s \<Rightarrow> addr set"
    and ok :: "'s \<Rightarrow> bool"
  assumes add_None: "ok s \<Longrightarrow>
      add a s = None \<longleftrightarrow> put_side (side_of s a) a (slot_of (pair s) (key s a)) = None"
    and add_Some: "ok s \<Longrightarrow> add a s = Some t \<Longrightarrow>
      pair t = (pair s)(key s a := put_side (side_of s a) a (slot_of (pair s) (key s a))) \<and>
      key t = key s \<and> side_of t = side_of s \<and> open_set t = open_set s \<and> ok t"
    and remove: "ok s \<Longrightarrow>
      pair (remove i s) = (pair s)(i := None) \<and> key (remove i s) = key s \<and>
      side_of (remove i s) = side_of s \<and> ok (remove i s) \<and>
      open_set (remove i s) =
        (case pair s i of None \<Rightarrow> open_set s | Some p \<Rightarrow> open_set s - members p)"
begin

fun do_op :: "pair_op \<Rightarrow> 's \<Rightarrow> 's" where
  "do_op (PAdd a) s = (case add a s of None \<Rightarrow> s | Some t \<Rightarrow> t)"
| "do_op (PRemove i) s = remove i s"

definition abs :: "'s \<Rightarrow> pair_state" where
  "abs s = (pair s, open_set s)"

lemma do_op_refines:
  assumes "ok s"
  shows "abs (do_op x s) = pair_spec (key s) (side_of s) x (abs s) \<and>
    key (do_op x s) = key s \<and> side_of (do_op x s) = side_of s \<and> ok (do_op x s)"
proof (cases x)
  case (PAdd a)
  let ?p = "put_side (side_of s a) a (slot_of (pair s) (key s a))"
  show ?thesis
  proof (cases "add a s")
    case None
    then have "?p = None" using add_None [OF assms, of a] by simp
    with None PAdd assms show ?thesis by (simp add: abs_def)
  next
    case (Some t)
    with add_None [OF assms, of a] obtain p where "?p = Some p" by auto
    with Some PAdd add_Some [OF assms Some] show ?thesis by (simp add: abs_def)
  qed
next
  case (PRemove i)
  then show ?thesis using remove [OF assms, of i] by (simp add: abs_def)
qed

lemma run_refines:
  assumes "ok s"
  shows "abs (fold do_op xs s) = pair_specs (key s) (side_of s) xs (abs s)"
  using assms
proof (induction xs arbitrary: s)
  case Nil
  show ?case by simp
next
  case (Cons x xs)
  have ok: "ok (do_op x s)" and key: "key (do_op x s) = key s"
    and side: "side_of (do_op x s) = side_of s"
    and abs: "abs (do_op x s) = pair_spec (key s) (side_of s) x (abs s)"
    using do_op_refines [OF Cons.prems] by blast+
  have "abs (fold do_op xs (do_op x s)) = pair_specs (key s) (side_of s) xs (abs (do_op x s))"
    using Cons.IH [OF ok] key side by simp
  then show ?case by (simp add: abs)
qed

end

end
