(* ===== verification/Nat_Session.thy ===== *)
theory Nat_Session
  imports Nat_Types Registries
begin

text \<open>
  Sessions and their managers in \<open>opennat\<close>: \<open>Session.cpp\<close>, \<open>SessionMgr.cpp\<close>, \<open>ProxyMgr.cpp\<close>
  and \<open>SubscribeMgr.cpp\<close>. Sessions are shared objects, so they live in a heap and the managers
  hold their addresses. The two registries are interpreted in the contracts of
  \<open>Registries\<close>; the lemmas about each operation are collected in \<open>mgr_simps\<close>.
\<close>

named_theorems mgr_simps

section \<open>Session\<close>

text \<open>
  The socket is represented by whether it is open and by what its endpoint queries answer
  (\<open>None\<close>: the query fails). \<open>bytes_\<close> is not initialised by the constructor: its first
  value \<open>raw\<close> is whatever the memory held.
\<close>

record Session =
  s_buffer :: "byte list"
  s_bytes :: nat
  s_deadline :: "unit timer"
  s_id :: uuid
  s_remoteId :: uuid
  s_isReady :: bool
  s_open :: bool
  s_remote_ep :: "endpoint option"
  s_local_ep :: "endpoint option"
  s_type :: SessionType
  s_timer :: "uuid timer"
  s_timeout :: u32

type_synonym sheap = "addr \<Rightarrow> Session"

definition MAXTIMEOUT :: u32 where "MAXTIMEOUT = 3"
definition DEADLINE :: nat where "DEADLINE = 5"

definition Session_Construct :: "nat \<Rightarrow> Session" where
  "Session_Construct raw = \<lparr>s_buffer = [], s_bytes = raw, s_deadline = timer_new,
     s_id = nil_uuid, s_remoteId = nil_uuid, s_isReady = False, s_open = False,
     s_remote_ep = None, s_local_ep = None, s_type = UNKNOWN, s_timer = timer_new,
     s_timeout = 0\<rparr>"

definition Session_SetId :: "uuid \<Rightarrow> Session \<Rightarrow> Session" where
  [simp]: "Session_SetId i s = s\<lparr>s_id := i\<rparr>"

definition Session_SetRemoteId :: "uuid \<Rightarrow> Session \<Rightarrow> Session" where
  [simp]: "Session_SetRemoteId i s = s\<lparr>s_remoteId := i\<rparr>"

definition Session_SetReady :: "bool \<Rightarrow> Session \<Rightarrow> Session" where
  [simp]: "Session_SetReady b s = s\<lparr>s_isReady := b\<rparr>"

definition Session_SetType :: "SessionType \<Rightarrow> Session \<Rightarrow> Session" where
  [simp]: "Session_SetType t s = s\<lparr>s_type := t\<rparr>"

definition Session_SetBytesTransferred :: "nat \<Rightarrow> Session \<Rightarrow> Session" where
  [simp]: "Session_SetBytesTransferred n s = s\<lparr>s_bytes := n\<rparr>"

definition Session_Stop :: "Session \<Rightarrow> Session" where
  "Session_Stop s =
     (if s_open s
      then s\<lparr>s_open := False, s_deadline := timer_cancel (s_deadline s),
             s_timer := timer_cancel (s_timer s)\<rparr>
      else s)"

lemma Session_Stop_sel [simp]:
  "\<not> s_open (Session_Stop s)"
  "s_id (Session_Stop s) = s_id s"
  "s_type (Session_Stop s) = s_type s"
  "s_buffer (Session_Stop s) = s_buffer s"
  "s_timeout (Session_Stop s) = s_timeout s"
  "expires_at (s_timer (Session_Stop s)) = expires_at (s_timer s)"
  by (simp_all add: Session_Stop_def)

lemma Session_Stop_idem [simp]: "Session_Stop (Session_Stop s) = Session_Stop s"
  by (simp add: Session_Stop_def)

section \<open>SessionMgr\<close>

record SessionMgr =
  sessionMap :: "(uuid, addr) um"
  bannedList :: "uuid list"

definition SessionMgr_new :: SessionMgr where
  "SessionMgr_new = \<lparr>sessionMap = [], bannedList = []\<rparr>"

definition SessionMgr_AddSession :: "sheap \<Rightarrow> addr \<Rightarrow> SessionMgr \<Rightarrow> SessionMgr \<times> bool" where
  "SessionMgr_AddSession h a m =
     (let r = um_insert (s_id (h a)) a (sessionMap m) in (m\<lparr>sessionMap := fst r\<rparr>, snd r))"

definition SessionMgr_AddBan :: "uuid \<Rightarrow> SessionMgr \<Rightarrow> SessionMgr \<times> bool" where
  "SessionMgr_AddBan i m =
     (m\<lparr>bannedList := us_insert i (bannedList m)\<rparr>, i \<notin> set (bannedList m))"

definition SessionMgr_Count :: "uuid \<Rightarrow> SessionMgr \<Rightarrow> nat" where
  "SessionMgr_Count i m = (case map_of (sessionMap m) i of None \<Rightarrow> 0 | Some _ \<Rightarrow> 1)"

definition SessionMgr_Find :: "uuid \<Rightarrow> SessionMgr \<Rightarrow> exn + addr" where
  "SessionMgr_Find i m =
     (case map_of (sessionMap m) i of
        None \<Rightarrow> Inl (runtime_error ''Unable to find session with given id'')
      | Some a \<Rightarrow> Inr a)"

definition SessionMgr_IsBanned :: "uuid \<Rightarrow> SessionMgr \<Rightarrow> bool" where
  "SessionMgr_IsBanned i m \<longleftrightarrow> i \<in> set (bannedList m)"

definition SessionMgr_RemoveBan :: "uuid \<Rightarrow> SessionMgr \<Rightarrow> SessionMgr \<times> bool" where
  "SessionMgr_RemoveBan i m =
     (m\<lparr>bannedList := filter (\<lambda>j. j \<noteq> i) (bannedList m)\<rparr>, i \<in> set (bannedList m))"

definition SessionMgr_RemoveSession :: "uuid \<Rightarrow> sheap \<times> SessionMgr \<Rightarrow> sheap \<times> SessionMgr" where
  "SessionMgr_RemoveSession i = (\<lambda>(h, m).
     (case map_of (sessionMap m) i of
        None \<Rightarrow> (h, m)
      | Some a \<Rightarrow> (h(a := Session_Stop (h a)), m\<lparr>sessionMap := um_erase i (sessionMap m)\<rparr>)))"

definition SessionMgr_Stop :: "sheap \<times> SessionMgr \<Rightarrow> sheap \<times> SessionMgr" where
  "SessionMgr_Stop = (\<lambda>(h, m).
     (fold (\<lambda>e h. h(snd e := Session_Stop (h (snd e)))) (sessionMap m) h, m\<lparr>sessionMap := []\<rparr>))"

lemma SessionMgr_Find_iff [mgr_simps]:
  "SessionMgr_Find i m = Inr a \<longleftrightarrow> map_of (sessionMap m) i = Some a"
  by (simp add: SessionMgr_Find_def split: option.splits)

lemma SessionMgr_AddSession_snd [mgr_simps]:
  "snd (SessionMgr_AddSession h a m) \<longleftrightarrow> map_of (sessionMap m) (s_id (h a)) = None"
  by (simp add: SessionMgr_AddSession_def Let_def um_simps)

lemma SessionMgr_AddSession_map [mgr_simps]:
  "map_of (sessionMap (fst (SessionMgr_AddSession h a m))) =
     (case map_of (sessionMap m) (s_id (h a)) of
        None \<Rightarrow> (map_of (sessionMap m))(s_id (h a) \<mapsto> a) | Some _ \<Rightarrow> map_of (sessionMap m))"
  by (simp add: SessionMgr_AddSession_def Let_def um_simps)

lemma stop_all_apply:
  "fold (\<lambda>e h. h(snd e := Session_Stop (h (snd e)))) es h a =
     (if a \<in> snd ` set es then Session_Stop (h a) else h a)"
  by (induction es arbitrary: h) auto

text \<open>A ban lasts from \<open>AddBan\<close> to \<open>RemoveBan\<close>, and concerns its id only.\<close>

lemma SessionMgr_ban [mgr_simps]:
  "SessionMgr_IsBanned j (fst (SessionMgr_AddBan i m)) \<longleftrightarrow> j = i \<or> SessionMgr_IsBanned j m"
  "SessionMgr_IsBanned j (fst (SessionMgr_RemoveBan i m)) \<longleftrightarrow> j \<noteq> i \<and> SessionMgr_IsBanned j m"
  by (auto simp: SessionMgr_IsBanned_def SessionMgr_AddBan_def SessionMgr_RemoveBan_def um_simps)

lemma SessionMgr_RemoveSession_id [simp]:
  "s_id (fst (SessionMgr_RemoveSession i (h, m)) a) = s_id (h a)"
  by (simp add: SessionMgr_RemoveSession_def split: option.splits)

section \<open>SessionMgr meets the registry contract\<close>

type_synonym smgr = "sheap \<times> SessionMgr"

definition smgr_find :: "smgr \<Rightarrow> uuid \<Rightarrow> addr option" where
  "smgr_find s = map_of (sessionMap (snd s))"

definition smgr_add :: "addr \<Rightarrow> smgr \<Rightarrow> smgr option" where
  "smgr_add a s =
     (let r = SessionMgr_AddSession (fst s) a (snd s)
      in if snd r then Some (fst s, fst r) else None)"

definition smgr_key :: "smgr \<Rightarrow> addr \<Rightarrow> uuid" where
  "smgr_key s a = s_id (fst s a)"

definition smgr_open :: "smgr \<Rightarrow> addr set" where
  "smgr_open s = {a. s_open (fst s a)}"

definition smgr_ok :: "smgr \<Rightarrow> bool" where
  "smgr_ok s \<longleftrightarrow> um_ok (sessionMap (snd s))"

lemmas smgr_defs = smgr_find_def smgr_add_def smgr_key_def smgr_open_def smgr_ok_def

interpretation smgr: session_registry smgr_find smgr_add SessionMgr_RemoveSession
  SessionMgr_Stop smgr_key smgr_open smgr_ok
proof (unfold_locales, goal_cases)
  case (1 s a)
  show ?case by (simp add: smgr_defs Let_def mgr_simps)
next
  case (2 s a t)
  then have none: "map_of (sessionMap (snd s)) (s_id (fst s a)) = None"
    and t: "t = (fst s, fst (SessionMgr_AddSession (fst s) a (snd s)))"
    by (auto simp: smgr_add_def Let_def mgr_simps split: if_splits)
  from 2(1) have "um_ok (sessionMap (fst (SessionMgr_AddSession (fst s) a (snd s))))"
    by (simp add: smgr_ok_def SessionMgr_AddSession_def Let_def um_simps)
  with none t show ?case
    by (simp add: smgr_find_def smgr_key_def smgr_open_def smgr_ok_def mgr_simps fun_eq_iff)
next
  case (3 s i)
  then show ?case
    by (cases s)
      (auto simp: smgr_defs SessionMgr_RemoveSession_def um_simps fun_eq_iff split: option.splits)
next
  case (4 s)
  have "ran (map_of (sessionMap (snd s))) = snd ` set (sessionMap (snd s))"
    using 4 by (simp add: smgr_ok_def um_ok_def ran_distinct)
  then show ?case
    by (cases s) (auto simp: smgr_defs SessionMgr_Stop_def stop_all_apply fun_eq_iff split: if_splits)
qed

section \<open>ProxyMgr\<close>

type_synonym ProxyMgr = "(uuid, SessionPair) um"

definition SessionPair_new :: "addr option \<Rightarrow> addr option \<Rightarrow> SessionPair" where
  "SessionPair_new d u = \<lparr>down_session = d, up_session = u\<rparr>"

definition ProxyMgr_AddSession :: "sheap \<Rightarrow> addr \<Rightarrow> ProxyMgr \<Rightarrow> ProxyMgr \<times> bool" where
  "ProxyMgr_AddSession h a m =
     (case map_of m (s_id (h a)) of
        None \<Rightarrow>
          (if s_type (h a) = PROXYDOWN
           then (fst (um_insert (s_id (h a)) (SessionPair_new (Some a) None) m), True)
           else if s_type (h a) = PROXYUP
           then (fst (um_insert (s_id (h a)) (SessionPair_new None (Some a)) m), True)
           else (m, False))
      | Some p \<Rightarrow>
          (if s_type (h a) = PROXYDOWN
           then (if down_session p \<noteq> None then (m, False)
                 else (um_assign (s_id (h a)) (p\<lparr>down_session := Some a\<rparr>) m, True))
           else if s_type (h a) = PROXYUP
           then (if up_session p \<noteq> None then (m, False)
                 else (um_assign (s_id (h a)) (p\<lparr>up_session := Some a\<rparr>) m, True))
           else (m, False)))"

definition ProxyMgr_FindPair :: "uuid \<Rightarrow> ProxyMgr \<Rightarrow> exn + SessionPair" where
  "ProxyMgr_FindPair i m =
     (case map_of m i of
        None \<Rightarrow> Inl (runtime_error ''Unable to find session pair with given id'')
      | Some p \<Rightarrow> Inr p)"

definition stop_opt :: "addr option \<Rightarrow> sheap \<Rightarrow> sheap" where
  "stop_opt x h = (case x of None \<Rightarrow> h | Some a \<Rightarrow> h(a := Session_Stop (h a)))"

definition ProxyMgr_RemoveSession :: "uuid \<Rightarrow> sheap \<times> ProxyMgr \<Rightarrow> sheap \<times> ProxyMgr" where
  "ProxyMgr_RemoveSession i = (\<lambda>(h, m).
     (case map_of m i of
        None \<Rightarrow> (h, m)
      | Some p \<Rightarrow> (stop_opt (up_session p) (stop_opt (down_session p) h), um_erase i m)))"

lemma ProxyMgr_FindPair_iff [mgr_simps]:
  "ProxyMgr_FindPair i m = Inr p \<longleftrightarrow> map_of m i = Some p"
  by (simp add: ProxyMgr_FindPair_def split: option.splits)

lemma stop_opt_sel [simp]:
  "s_id (stop_opt x h a) = s_id (h a)"
  "s_type (stop_opt x h a) = s_type (h a)"
  "s_open (stop_opt x h a) \<longleftrightarrow> s_open (h a) \<and> x \<noteq> Some a"
  by (auto simp: stop_opt_def split: option.splits)

section \<open>ProxyMgr meets the pair contract\<close>

type_synonym pmgr = "sheap \<times> ProxyMgr"

definition pair_view :: "SessionPair \<Rightarrow> addr option \<times> addr option" where
  "pair_view p = (down_session p, up_session p)"

definition pmgr_pair :: "pmgr \<Rightarrow> uuid \<Rightarrow> (addr option \<times> addr option) option" where
  "pmgr_pair s i = map_option pair_view (map_of (snd s) i)"

definition pmgr_add :: "addr \<Rightarrow> pmgr \<Rightarrow> pmgr option" where
  "pmgr_add a s =
     (let r = ProxyMgr_AddSession (fst s) a (snd s)
      in if snd r then Some (fst s, fst r) else None)"

definition pmgr_key :: "pmgr \<Rightarrow> addr \<Rightarrow> uuid" where
  "pmgr_key s a = s_id (fst s a)"

definition side_of_type :: "SessionType \<Rightarrow> side option" where
  "side_of_type t = (case t of PROXYDOWN \<Rightarrow> Some Down | PROXYUP \<Rightarrow> Some Up | _ \<Rightarrow> None)"

definition pmgr_side :: "pmgr \<Rightarrow> addr \<Rightarrow> side option" where
  "pmgr_side s a = side_of_type (s_type (fst s a))"

definition pmgr_open :: "pmgr \<Rightarrow> addr set" where
  "pmgr_open s = {a. s_open (fst s a)}"

definition pmgr_ok :: "pmgr \<Rightarrow> bool" where
  "pmgr_ok s \<longleftrightarrow> um_ok (snd s)"

lemmas pmgr_defs = pmgr_pair_def pmgr_add_def pmgr_key_def pmgr_side_def pmgr_open_def pmgr_ok_def

text \<open>One line for the branches of \<open>AddSession\<close>.\<close>

lemma ProxyMgr_AddSession_spec:
  "(case put_side (side_of_type (s_type (h a))) a (slot_of (pmgr_pair (h, m)) (s_id (h a))) of
      None \<Rightarrow> ProxyMgr_AddSession h a m = (m, False)
    | Some p \<Rightarrow> snd (ProxyMgr_AddSession h a m) \<and>
        pmgr_pair (h, fst (ProxyMgr_AddSession h a m)) = (pmgr_pair (h, m))(s_id (h a) \<mapsto> p) \<and>
        (um_ok m \<longrightarrow> um_ok (fst (ProxyMgr_AddSession h a m))))"
proof (cases "map_of m (s_id (h a))")
  case None
  then show ?thesis
    by (cases "s_type (h a)")
      (auto simp: ProxyMgr_AddSession_def side_of_type_def slot_of_def pmgr_pair_def pair_view_def
        SessionPair_new_def um_simps fun_eq_iff)
next
  case (Some p)
  then show ?thesis
    by (cases "s_type (h a)"; cases "down_session p"; cases "up_session p")
      (auto simp: ProxyMgr_AddSession_def side_of_type_def slot_of_def pmgr_pair_def pair_view_def
        um_simps fun_eq_iff)
qed

interpretation pmgr: pair_registry pmgr_pair pmgr_add ProxyMgr_RemoveSession
  pmgr_key pmgr_side pmgr_open pmgr_ok
proof (unfold_locales, goal_cases)
  case (1 s a)
  then show ?case
    using ProxyMgr_AddSession_spec [of "fst s" a "snd s"]
    by (auto simp: pmgr_add_def pmgr_key_def pmgr_side_def Let_def split: option.splits)
next
  case (2 s a t)
  then show ?case
    using ProxyMgr_AddSession_spec [of "fst s" a "snd s"]
    by (auto simp: pmgr_add_def pmgr_key_def pmgr_side_def pmgr_open_def pmgr_ok_def Let_def
      fun_eq_iff split: option.splits if_splits)
next
  case (3 s i)
  then show ?case
    by (cases s)
      (auto simp: pmgr_defs pair_view_def ProxyMgr_RemoveSession_def um_simps fun_eq_iff
        split: option.splits)
qed

section \<open>SubscribeMgr\<close>

text \<open>
  Who wants to hear of whom. The manager signals through \<open>onNotify_\<close>, to which the server
  connects its \<open>Send\<close>: a notification is a session id, a session type and a command, and
  the operations return the notifications in the order they are signalled.
\<close>

type_synonym SubscribeMgr = "(uuid, uuid list) um"

type_synonym notification = "uuid \<times> SessionType \<times> Command"

definition subscription_reply :: "lib \<Rightarrow> uuid \<Rightarrow> bool \<Rightarrow> Command" where
  "subscription_reply L subscription online =
     Command_new\<lparr>protocol := Command_Protocol_Subscribe,
       subscribe := Some \<lparr>subscribe_protocol = Subscribe_Protocol_Reply,
         subscribe_client_id = Some (uuid_to_string L subscription),
         subscribe_online = online\<rparr>\<rparr>"

definition SubscribeMgr_Subscribe ::
  "lib \<Rightarrow> uuid \<Rightarrow> uuid \<Rightarrow> bool \<Rightarrow> SubscribeMgr \<Rightarrow> SubscribeMgr \<times> notification list" where
  "SubscribeMgr_Subscribe L subscription subscriber isOnline m =
     (case map_of m subscription of
        None \<Rightarrow> fst (um_insert subscription [subscriber] m)
      | Some l \<Rightarrow> um_assign subscription (us_insert subscriber l) m,
      [(subscriber, STUN, subscription_reply L subscription isOnline)])"

definition SubscribeMgr_Notify ::
  "lib \<Rightarrow> uuid \<Rightarrow> bool \<Rightarrow> SubscribeMgr \<Rightarrow> notification list" where
  "SubscribeMgr_Notify L subscription isOnline m =
     (case map_of m subscription of
        None \<Rightarrow> []
      | Some l \<Rightarrow> map (\<lambda>v. (v, STUN, subscription_reply L subscription isOnline)) l)"

definition subscribers :: "uuid \<Rightarrow> SubscribeMgr \<Rightarrow> uuid list" where
  "subscribers i m = (case map_of m i of None \<Rightarrow> [] | Some l \<Rightarrow> l)"

definition subs_ok :: "SubscribeMgr \<Rightarrow> bool" where
  "subs_ok m \<longleftrightarrow> um_ok m \<and> (\<forall>i. distinct (subscribers i m))"

lemma subscribers_Subscribe [mgr_simps]:
  "subscribers j (fst (SubscribeMgr_Subscribe L i who on m)) =
     (if j = i then us_insert who (subscribers i m) else subscribers j m)"
  by (auto simp: SubscribeMgr_Subscribe_def subscribers_def um_simps us_insert_def
      split: option.splits)

lemma Notify_subscribers [mgr_simps]:
  "SubscribeMgr_Notify L i on m =
     map (\<lambda>v. (v, STUN, subscription_reply L i on)) (subscribers i m)"
  by (simp add: SubscribeMgr_Notify_def subscribers_def split: option.splits)

lemma subs_ok_Subscribe:
  "subs_ok m \<Longrightarrow> subs_ok (fst (SubscribeMgr_Subscribe L i who on m))"
  by (auto simp: subs_ok_def mgr_simps um_simps)
    (auto simp: SubscribeMgr_Subscribe_def um_simps split: option.splits)

end
