(* ===== verification/Nat_Core.thy ===== *)
theory Nat_Core
  imports Asio
begin

text \<open>
  \<open>opennat/src/Core.cpp\<close>: the owner of the \<open>io_service\<close> and its worker threads. The
  \<open>io_service\<close> is represented by whether work keeps it alive and whether it was stopped; a
  worker runs handlers as long as the service is not stopped.
\<close>

record Core =
  ioWork :: bool
  ioStopped :: bool
  isRunning :: bool
  workers :: u32
  threads :: nat

definition Core_Construct :: "u32 \<Rightarrow> Core" where
  "Core_Construct n = \<lparr>ioWork = True, ioStopped = False, isRunning = False, workers = n, threads = 0\<rparr>"

text \<open>The loop \<open>for (i = 0; i != workers_; ++i)\<close>, which starts a thread per round.\<close>

function Core_spawn :: "u32 \<Rightarrow> u32 \<Rightarrow> nat \<Rightarrow> nat" where
  "Core_spawn i n k = (if i \<noteq> n then Core_spawn (i + 1) n (Suc k) else k)"
  by pat_completeness auto
termination
proof (relation "measure (\<lambda>(i, n, k). unat (n - i))")
  fix i n :: u32 and k :: nat
  assume "i \<noteq> n"
  then have "n - i \<noteq> 0" by simp
  then have "unat (n - i - 1) < unat (n - i)"
    by (simp add: unat_minus_one unat_gt_0)
  then show "((i + 1, n, Suc k), (i, n, k)) \<in> measure (\<lambda>(i, n, k). unat (n - i))"
    by (simp add: diff_diff_eq)
qed simp

declare Core_spawn.simps [simp del]

definition Core_Run :: "Core \<Rightarrow> Core" where
  "Core_Run c =
     (if \<not> isRunning c
      then c\<lparr>threads := Core_spawn 0 (workers c) (threads c), isRunning := True\<rparr>
      else c)"

definition Core_Stop :: "Core \<Rightarrow> Core" where
  "Core_Stop c =
     (if isRunning c
      then c\<lparr>isRunning := False, ioWork := False, ioStopped := True, threads := 0\<rparr>
      else c)"

text \<open>Whether handlers that are posted will run.\<close>

definition Core_serves :: "Core \<Rightarrow> bool" where
  "Core_serves c \<longleftrightarrow> 0 < threads c \<and> \<not> ioStopped c"

lemma Core_spawn_eq: "Core_spawn i n k = k + unat (n - i)"
proof (induction i n k rule: Core_spawn.induct)
  case (1 i n k)
  show ?case
  proof (cases "i = n")
    case True
    then show ?thesis by (simp add: Core_spawn.simps [of n n k])
  next
    case False
    then have "n - i \<noteq> 0" by simp
    then have "unat (n - i) = Suc (unat (n - i - 1))"
      by (simp add: unat_minus_one unat_gt_0)
    with 1 False show ?thesis
      by (simp add: Core_spawn.simps [of i n k] diff_diff_eq)
  qed
qed

end
