(* ===== verification/Nat_Base_Claims.thy ===== *)
theory Nat_Base_Claims
  imports Nat_Session Nat_Core
begin

text \<open>
  The properties of the parts of \<open>opennat\<close> that the client and the server share: the header,
  the framing, the session managers and the core.
\<close>

text \<open>Packing a 64-bit value into the eight-byte header and unpacking it gives the value
  back, and unpacking any eight bytes and packing the value gives the bytes back, whatever the
  header array held before.\<close>

theorem Pack_Unpack_roundtrip:
  assumes "length raw = 8" and "length bytes = 8"
  shows "Unpack (Pack raw v) = v \<and> Pack raw (Unpack bytes) = bytes"
  using Unpack_Pack_inverse [OF assms(1)] Pack_Unpack_inverse [OF assms] by simp

theorem Pack_Unpack_roundtrip_witness:
  "Pack (replicate 8 7) 0x0102030405060708 = [1, 2, 3, 4, 5, 6, 7, 8] \<and>
   Unpack [1, 2, 3, 4, 5, 6, 7, 8] = 0x0102030405060708"
proof -
  have e: "Unpack [1, 2, 3, 4, 5, 6, 7, 8] = 0x0102030405060708" by code_simp
  have "Unpack (Pack (replicate 8 7) 0) = 0 \<and>
      Pack (replicate 8 7) (Unpack [1, 2, 3, 4, 5, 6, 7, 8]) = [1, 2, 3, 4, 5, 6, 7, 8]"
    by (rule Pack_Unpack_roundtrip) simp_all
  with e show ?thesis by simp
qed



text \<open>C31: any sequence of additions, removals and stops of the session manager does what the
  specification does on the map from ids to sessions and on the set of open sockets: an id is
  taken by the first session that asks for it, and what is removed is closed.\<close>

theorem SessionMgr_refines:
  assumes "um_ok (sessionMap m)"
  shows "smgr.abs (fold smgr.do_op xs (h, m)) =
    reg_specs (\<lambda>a. s_id (h a)) xs (map_of (sessionMap m), {a. s_open (h a)})"
  using smgr.run_refines [of "(h, m)" xs] assms
  by (simp add: smgr_ok_def smgr.abs_def smgr_find_def smgr_open_def smgr_key_def [abs_def])

theorem SessionMgr_refines_witness:
  "smgr.abs (fold smgr.do_op [RAdd 1, RAdd 2, RRemove 0]
      ((\<lambda>_. (Session_Construct 0)\<lparr>s_open := True\<rparr>), SessionMgr_new)) = (Map.empty, - {1})"
  using SessionMgr_refines [of SessionMgr_new "[RAdd 1, RAdd 2, RRemove 0]"
      "\<lambda>_. (Session_Construct 0)\<lparr>s_open := True\<rparr>"]
  by (auto simp: SessionMgr_new_def Session_Construct_def fun_eq_iff)

text \<open>Any sequence of additions and removals of the proxy manager does what the
  specification does on pairs: a session only enters the empty slot of its own side, a taken
  slot is never overwritten, and removing a pair closes both its members.\<close>

theorem ProxyMgr_refines:
  assumes "um_ok m"
  shows "pmgr.abs (fold pmgr.do_op xs (h, m)) =
    pair_specs (\<lambda>a. s_id (h a)) (\<lambda>a. side_of_type (s_type (h a))) xs
      (map_option pair_view \<circ> map_of m, {a. s_open (h a)})"
proof -
  have "pmgr.abs (h, m) = (map_option pair_view \<circ> map_of m, {a. s_open (h a)})"
    by (simp add: pmgr.abs_def pmgr_pair_def pmgr_open_def fun_eq_iff)
  with pmgr.run_refines [of "(h, m)" xs] assms show ?thesis
    by (simp add: pmgr_ok_def pmgr_key_def [abs_def] pmgr_side_def [abs_def])
qed

theorem ProxyMgr_refines_witness:
  "pmgr.abs (fold pmgr.do_op [PAdd 1, PAdd 2, PAdd 3]
      ((\<lambda>a. (Session_Construct 0)\<lparr>s_type := if a = 3 then PROXYUP else PROXYDOWN\<rparr>), [])) =
    ([0 \<mapsto> (Some 1, Some 3)], {})"
  using ProxyMgr_refines [of "[]" "[PAdd 1, PAdd 2, PAdd 3]"
      "\<lambda>a. (Session_Construct 0)\<lparr>s_type := if a = 3 then PROXYUP else PROXYDOWN\<rparr>"]
  by (simp add: Session_Construct_def side_of_type_def slot_of_def comp_def)

text \<open>Running a new core starts exactly the configured number of workers, and running it
  again starts none; after a stop, running it starts the threads on a service that stays
  stopped, so no handler is served any more.\<close>

theorem Core_lifecycle:
  "threads (Core_Run (Core_Construct n)) = unat n \<and>
   Core_Run (Core_Run (Core_Construct n)) = Core_Run (Core_Construct n) \<and>
   (Core_serves (Core_Run (Core_Construct n)) \<longleftrightarrow> n \<noteq> 0) \<and>
   threads (Core_Run (Core_Stop (Core_Run (Core_Construct n)))) = unat n \<and>
   \<not> Core_serves (Core_Run (Core_Stop (Core_Run (Core_Construct n))))"
  by (simp add: Core_Run_def Core_Stop_def Core_Construct_def Core_serves_def Core_spawn_eq unat_gt_0)

end
