(* ===== verification/Nat_Server.thy ===== *)
theory Nat_Server
  imports Nat_Session Nat_Core
begin

text \<open>
  \<open>opennat/src/Server.cpp\<close>, handler by handler. The server keeps the sessions, the three
  managers, the send queue, and what it has handed to the \<open>io_service\<close>: \<open>sv_posted\<close> are the
  handlers posted to the strand, \<open>sv_pending\<close> the asynchronous operations that have not
  completed. Every function of the class is a function of the state; the lambda passed to an
  asynchronous operation is the \<open>Handle\<close> function of its name and runs when the operation
  completes. \<open>srv_step\<close> is the machine: it runs a posted handler or completes a pending
  operation with a result chosen by the environment.
\<close>

section \<open>State\<close>

datatype srv_task =
    T_Receive addr
  | T_ReceiveProxy addr
  | T_DoSend addr "byte list"

datatype srv_op =
    O_Accept addr
  | O_Read addr
  | O_ReadProxy addr
  | O_Write addr "byte list"
  | O_WriteP2P addr addr "byte list"
  | O_WriteProxy addr addr "byte list"

datatype srv_signal =
    OnReceive uuid "byte list"
  | OnDisconnected uuid

type_synonym srv_entry = "uuid \<times> SessionType \<times> byte list"

record Server =
  sv_heap :: sheap
  sv_fresh :: addr
  sv_stun :: SessionMgr
  sv_proxy :: ProxyMgr
  sv_subs :: SubscribeMgr
  sv_queue :: "srv_entry list"
  sv_posted :: "srv_task list"
  sv_pending :: "srv_op list"
  sv_signals :: "srv_signal list"
  sv_wire :: "(addr \<times> byte list) list"
  sv_clock :: nat
  sv_core :: Core

definition Server_Construct :: Server where
  "Server_Construct = \<lparr>sv_heap = (\<lambda>_. Session_Construct 0), sv_fresh = 0,
     sv_stun = SessionMgr_new, sv_proxy = [], sv_subs = [], sv_queue = [], sv_posted = [],
     sv_pending = [], sv_signals = [], sv_wire = [], sv_clock = 0,
     sv_core = Core_Run (Core_Construct 30)\<rparr>"

definition on_session :: "addr \<Rightarrow> (Session \<Rightarrow> Session) \<Rightarrow> Server \<Rightarrow> Server" where
  "on_session a f st = st\<lparr>sv_heap := (sv_heap st)(a := f (sv_heap st a))\<rparr>"

definition srv_post :: "srv_task \<Rightarrow> Server \<Rightarrow> Server" where
  "srv_post t st = st\<lparr>sv_posted := sv_posted st @ [t]\<rparr>"

definition srv_start :: "srv_op \<Rightarrow> Server \<Rightarrow> Server" where
  "srv_start t st = st\<lparr>sv_pending := sv_pending st @ [t]\<rparr>"

definition srv_signal :: "srv_signal \<Rightarrow> Server \<Rightarrow> Server" where
  "srv_signal t st = st\<lparr>sv_signals := sv_signals st @ [t]\<rparr>"

section \<open>Accepting\<close>

text \<open>\<open>raw\<close> is the indeterminate first value of \<open>bytes_\<close> of the new session.\<close>

definition Server_Accept :: "nat \<Rightarrow> Server \<Rightarrow> Server" where
  "Server_Accept raw st =
     srv_start (O_Accept (sv_fresh st))
       (st\<lparr>sv_heap := (sv_heap st)(sv_fresh st := Session_Construct raw),
           sv_fresh := Suc (sv_fresh st)\<rparr>)"

text \<open>Failing socket options and endpoint queries are logged only.\<close>

definition Server_HandleAccept ::
  "addr \<Rightarrow> error_code \<Rightarrow> endpoint option \<Rightarrow> nat \<Rightarrow> Server \<Rightarrow> Server" where
  "Server_HandleAccept a ec remote raw st =
     Server_Accept raw
       (if failed ec then st
        else srv_post (T_Receive a)
          (on_session a (\<lambda>s. s\<lparr>s_open := True, s_remote_ep := remote\<rparr>) st))"

definition Server_Start :: "bool \<Rightarrow> nat \<Rightarrow> Server \<Rightarrow> Server" where
  "Server_Start listening raw st = (if listening then Server_Accept raw st else st)"

section \<open>The send queue\<close>

text \<open>
  The session a queue entry is for. A pair may lack the side that is asked for: then the
  pointer is null.
\<close>

definition Server_lookup :: "Server \<Rightarrow> uuid \<Rightarrow> SessionType \<Rightarrow> exn + addr option" where
  "Server_lookup st i t =
     (case t of
        STUN \<Rightarrow> (case SessionMgr_Find i (sv_stun st) of Inl e \<Rightarrow> Inl e | Inr a \<Rightarrow> Inr (Some a))
      | PROXYUP \<Rightarrow>
          (case ProxyMgr_FindPair i (sv_proxy st) of Inl e \<Rightarrow> Inl e | Inr p \<Rightarrow> Inr (up_session p))
      | PROXYDOWN \<Rightarrow>
          (case ProxyMgr_FindPair i (sv_proxy st) of Inl e \<Rightarrow> Inl e | Inr p \<Rightarrow> Inr (down_session p))
      | _ \<Rightarrow> Inl (runtime_error ''Unknown session type''))"

definition Server_Send :: "lib \<Rightarrow> uuid \<Rightarrow> SessionType \<Rightarrow> Command \<Rightarrow> Server \<Rightarrow> Server" where
  "Server_Send L i t cmd st =
     (case Server_lookup st i t of
        Inl _ \<Rightarrow> st
      | Inr None \<Rightarrow> st
      | Inr (Some a) \<Rightarrow>
          (let msg = serialize L cmd @ delimiter;
               st' = st\<lparr>sv_queue := sv_queue st @ [(i, t, msg)]\<rparr>
           in if length (sv_queue st') > 1 then st' else srv_post (T_DoSend a msg) st'))"

definition Server_DoSend :: "addr \<Rightarrow> byte list \<Rightarrow> Server \<Rightarrow> Server" where
  "Server_DoSend a msg st = srv_start (O_Write a msg) st"

text \<open>
  The loop \<open>while (!next)\<close> of the completion handler over the queue: an entry whose session
  is not found is popped, a session that is found ends the loop, and an emptied queue ends
  the handler. A null session neither ends the loop nor pops the entry.
\<close>

partial_function (option) Server_next ::
  "Server \<Rightarrow> srv_entry list \<Rightarrow> (addr option \<times> srv_entry list) option" where
  "Server_next st q =
     (case q of
        [] \<Rightarrow> Some (None, [])
      | e # r \<Rightarrow>
          (case Server_lookup st (fst e) (fst (snd e)) of
             Inl _ \<Rightarrow> if r = [] then Some (None, []) else Server_next st r
           | Inr None \<Rightarrow> Server_next st q
           | Inr (Some a) \<Rightarrow> Some (Some a, q)))"

declare Server_next.simps [code]

definition Server_HandleDoSend :: "error_code \<Rightarrow> Server \<Rightarrow> Server run" where
  "Server_HandleDoSend ec st =
     (case tl (sv_queue st) of
        [] \<Rightarrow> Done (st\<lparr>sv_queue := []\<rparr>)
      | q \<Rightarrow>
          (case Server_next st q of
             None \<Rightarrow> Hang
           | Some (None, q') \<Rightarrow> Done (st\<lparr>sv_queue := q'\<rparr>)
           | Some (Some a, q') \<Rightarrow>
               Done (srv_post (T_DoSend a (snd (snd (hd q')))) (st\<lparr>sv_queue := q'\<rparr>))))"

text \<open>The subscription manager's signal is connected to \<open>Send\<close>.\<close>

definition Server_notify :: "lib \<Rightarrow> notification list \<Rightarrow> Server \<Rightarrow> Server" where
  "Server_notify L ns st = fold (\<lambda>(i, t, c). Server_Send L i t c) ns st"

section \<open>Heartbeat\<close>

definition Server_RemoveStun :: "uuid \<Rightarrow> Server \<Rightarrow> Server" where
  "Server_RemoveStun i st =
     (let r = SessionMgr_RemoveSession i (sv_heap st, sv_stun st)
      in st\<lparr>sv_heap := fst r, sv_stun := snd r\<rparr>)"

definition Server_RemoveProxy :: "uuid \<Rightarrow> Server \<Rightarrow> Server" where
  "Server_RemoveProxy i st =
     (let r = ProxyMgr_RemoveSession i (sv_heap st, sv_proxy st)
      in st\<lparr>sv_heap := fst r, sv_proxy := snd r\<rparr>)"

definition Server_HandleStunTimeout :: "lib \<Rightarrow> error_code \<Rightarrow> uuid \<Rightarrow> Server \<Rightarrow> Server" where
  "Server_HandleStunTimeout L ec i st =
     (if failed ec \<and> ec \<noteq> operation_aborted then st
      else case SessionMgr_Find i (sv_stun st) of
        Inl _ \<Rightarrow> st
      | Inr a \<Rightarrow>
          (let rewait = (\<lambda>st. on_session a (\<lambda>s. s\<lparr>s_timer := timer_wait (s_id s) (s_timer s)\<rparr>) st)
           in if reached (sv_clock st) (expires_at (s_timer (sv_heap st a)))
              then if s_timeout (sv_heap st a) = MAXTIMEOUT
                   then Server_RemoveStun (s_id (sv_heap st a)) st
                   else
                     (let st1 = on_session a (\<lambda>s. s\<lparr>s_timeout := s_timeout s + 1\<rparr>) st;
                          st2 = Server_Send L (s_id (sv_heap st1 a)) STUN heartbeat_ping st1;
                          st3 = on_session a (\<lambda>s. s\<lparr>s_timer :=
                                  timer_set (At (sv_clock st2 + 5)) (s_timer s)\<rparr>) st2
                      in rewait st3)
              else rewait st))"

section \<open>Commands\<close>

text \<open>
  The reply to a client that logs in tells it its external endpoint; when the socket cannot
  say it, a default one.
\<close>

definition stun_reply :: "lib \<Rightarrow> endpoint option \<Rightarrow> Command" where
  "stun_reply L remote =
     (let ep = (case remote of None \<Rightarrow> default_endpoint | Some e \<Rightarrow> e)
      in connect_command ((connect_reply Connect_Type_Stun)
           \<lparr>connect_ready := True,
            connect_external := Some (Endpoint_new
              \<lparr>address := addr_to_string L (ep_address ep),
               port := port_to_string L (ep_port ep)\<rparr>)\<rparr>))"

text \<open>The refusal of a session whose id is taken.\<close>

definition Server_refuse :: "addr \<Rightarrow> Server \<Rightarrow> Server" where
  "Server_refuse a st = on_session a (Session_Stop \<circ> Session_SetId nil_uuid) st"

text \<open>A handler's result: the state it leaves, and an exception or its value.\<close>

definition Server_ConnectStun :: "lib \<Rightarrow> addr \<Rightarrow> Connect \<Rightarrow> Server \<Rightarrow> Server \<times> (exn + bool)" where
  "Server_ConnectStun L a c st =
     (case uuid_of_string L (connect_client_id c) of
        None \<Rightarrow> (st, Inl lib_error)
      | Some i \<Rightarrow>
          (let st1 = on_session a (\<lambda>s. (Session_SetType STUN (Session_SetId i s))
                       \<lparr>s_timer := timer_wait i (timer_set (At (sv_clock st + 5)) (s_timer s))\<rparr>) st;
               r = SessionMgr_AddSession (sv_heap st1) a (sv_stun st1)
           in if \<not> snd r then (Server_refuse a st1, Inr True)
              else
                (let st2 = st1\<lparr>sv_stun := fst r\<rparr>;
                     out = stun_reply L (s_remote_ep (sv_heap st2 a));
                     st3 = Server_notify L (SubscribeMgr_Notify L i True (sv_subs st2)) st2
                 in (Server_Send L i STUN out st3, Inr True))))"

definition Server_ConnectProxy ::
  "lib \<Rightarrow> addr \<Rightarrow> Connect \<Rightarrow> SessionType \<Rightarrow> Connect_Type \<Rightarrow> Server \<Rightarrow> Server \<times> (exn + bool)" where
  "Server_ConnectProxy L a c t ct st =
     (case uuid_of_string L (connect_client_id c) of
        None \<Rightarrow> (st, Inl lib_error)
      | Some i \<Rightarrow>
          (let st1 = on_session a (Session_SetType t \<circ> Session_SetId i) st;
               r = ProxyMgr_AddSession (sv_heap st1) a (sv_proxy st1)
           in if \<not> snd r then (Server_refuse a st1, Inr True)
              else
                (let st2 = st1\<lparr>sv_proxy := fst r\<rparr>;
                     out = connect_command ((connect_reply ct)\<lparr>connect_initialized := True\<rparr>)
                 in (Server_Send L i t out st2, Inr False))))"

definition Server_Connect :: "lib \<Rightarrow> addr \<Rightarrow> Command \<Rightarrow> Server \<Rightarrow> Server \<times> (exn + bool)" where
  "Server_Connect L a cmd st =
     (case connect cmd of
        None \<Rightarrow> (st, Inr True)
      | Some c \<Rightarrow>
          if connect_protocol c = Connect_Protocol_Request
          then (case connect_type c of
                  Connect_Type_Stun \<Rightarrow> Server_ConnectStun L a c st
                | Connect_Type_Proxyup \<Rightarrow>
                    Server_ConnectProxy L a c PROXYUP Connect_Type_Proxyup st
                | Connect_Type_Proxydown \<Rightarrow>
                    Server_ConnectProxy L a c PROXYDOWN Connect_Type_Proxydown st
                | _ \<Rightarrow> (st, Inr True))
          else (st, Inr True))"

definition Server_Heartbeat :: "lib \<Rightarrow> addr \<Rightarrow> Command \<Rightarrow> Server \<Rightarrow> Server \<times> (exn + bool)" where
  "Server_Heartbeat L a cmd st =
     (let hb = or_new Heartbeat_new (heartbeat cmd)
      in if pong hb then (on_session a (\<lambda>s. s\<lparr>s_timeout := 0\<rparr>) st, Inr True)
         else if ping hb
         then (let st1 = on_session a (\<lambda>s. s\<lparr>s_timer :=
                           timer_set (At (sv_clock st + 10)) (s_timer s), s_timeout := 0\<rparr>) st;
                   s = sv_heap st1 a
               in (Server_Send L (s_id s) (s_type s) heartbeat_pong st1, Inr True))
         else (st, Inr True))"

definition Server_Subscribe :: "lib \<Rightarrow> addr \<Rightarrow> Command \<Rightarrow> Server \<Rightarrow> Server \<times> (exn + bool)" where
  "Server_Subscribe L a cmd st =
     (case subscribe cmd of
        None \<Rightarrow> (st, Inr True)
      | Some sub \<Rightarrow>
          if subscribe_protocol sub = Subscribe_Protocol_Request
          then (case subscribe_client_id sub of
                  None \<Rightarrow> (st, Inl (runtime_error ''Invalid client list''))
                | Some txt \<Rightarrow>
                    (case uuid_of_string L txt of
                       None \<Rightarrow> (st, Inl lib_error)
                     | Some i \<Rightarrow>
                         (let r = SubscribeMgr_Subscribe L i (s_id (sv_heap st a))
                                    (SessionMgr_Count i (sv_stun st) > 0) (sv_subs st)
                          in (Server_notify L (snd r) (st\<lparr>sv_subs := fst r\<rparr>), Inr True))))
          else (st, Inr True))"

definition Server_Process :: "lib \<Rightarrow> addr \<Rightarrow> Command \<Rightarrow> Server \<Rightarrow> Server \<times> (exn + bool)" where
  "Server_Process L a cmd st =
     (case protocol cmd of
        Command_Protocol_Connect \<Rightarrow> Server_Connect L a cmd st
      | Command_Protocol_Heartbeat \<Rightarrow> Server_Heartbeat L a cmd st
      | Command_Protocol_Subscribe \<Rightarrow> Server_Subscribe L a cmd st
      | Command_Protocol_Data \<Rightarrow>
          (case data cmd of
             None \<Rightarrow> (st, Inr True)
           | Some d \<Rightarrow> (srv_signal (OnReceive (s_id (sv_heap st a)) d) st, Inr True))
      | _ \<Rightarrow> (st, Inr True))"

section \<open>Relaying between clients\<close>

definition p2p_unreachable :: "string \<Rightarrow> string \<Rightarrow> Command" where
  "p2p_unreachable from to =
     Command_new\<lparr>protocol := Command_Protocol_P2P,
       p2p := Some (P2P_new\<lparr>p2p_protocol := P2P_Protocol_Error, p2p_from := from, p2p_to := to,
         p2p_error := Some (Error_new\<lparr>error_msg := unreachable,
           error_protocol := Error_Protocol_Unreachable\<rparr>)\<rparr>)\<rparr>"

text \<open>
  The write takes its bytes from the stream buffer of \<open>from\<close>; the buffer is consumed when the
  write has been started.
\<close>

definition Server_SendP2P :: "lib \<Rightarrow> addr \<Rightarrow> uuid \<Rightarrow> Server \<Rightarrow> Server" where
  "Server_SendP2P L from clientId st =
     (let s = sv_heap st from;
          st1 = (case SessionMgr_Find clientId (sv_stun st) of
                   Inl _ \<Rightarrow>
                     Server_Send L (s_id s) STUN
                       (p2p_unreachable (uuid_to_string L clientId) (uuid_to_string L (s_id s))) st
                 | Inr to \<Rightarrow>
                     srv_start (O_WriteP2P to from (take (s_bytes s) (s_buffer s))) st)
      in srv_post (T_Receive from)
           (on_session from (\<lambda>s. s\<lparr>s_buffer := drop (s_bytes s) (s_buffer s)\<rparr>) st1))"

text \<open>An exception thrown while the error is reported leaves the handler uncaught.\<close>

definition Server_HandleSendP2P :: "lib \<Rightarrow> addr \<Rightarrow> addr \<Rightarrow> error_code \<Rightarrow> Server \<Rightarrow> Server run" where
  "Server_HandleSendP2P L to from ec st =
     (if \<not> failed ec then Done st
      else
        (let cmd = p2p_unreachable (uuid_to_string L (s_id (sv_heap st to)))
                     (uuid_to_string L (s_id (sv_heap st from)))
         in case uuid_of_string L (uuid_to_string L (s_id (sv_heap st from))) of
              None \<Rightarrow> Crash
            | Some i \<Rightarrow> Done (Server_Send L i STUN cmd st)))"

text \<open>A null session is dereferenced.\<close>

definition Server_SendProxy :: "addr option \<Rightarrow> addr option \<Rightarrow> Server \<Rightarrow> Server run" where
  "Server_SendProxy from to st =
     (case (from, to) of
        (Some f, Some t) \<Rightarrow>
          Done (srv_start (O_WriteProxy t f
            (take (s_bytes (sv_heap st f)) (s_buffer (sv_heap st f)))) st)
      | _ \<Rightarrow> Crash)"

definition Server_HandleSendProxy :: "addr \<Rightarrow> error_code \<Rightarrow> nat \<Rightarrow> Server \<Rightarrow> Server" where
  "Server_HandleSendProxy from ec n st =
     (if failed ec then st
      else srv_post (T_ReceiveProxy from)
        (on_session from (\<lambda>s. s\<lparr>s_buffer := drop n (s_buffer s)\<rparr>) st))"

section \<open>Receiving\<close>

definition Server_Receive :: "addr \<Rightarrow> Server \<Rightarrow> Server" where
  "Server_Receive a st = srv_start (O_Read a) st"

definition Server_ReceiveProxy :: "addr \<Rightarrow> Server \<Rightarrow> Server" where
  "Server_ReceiveProxy a st = srv_start (O_ReadProxy a) st"

definition Server_ReceiveCatch :: "lib \<Rightarrow> addr \<Rightarrow> Server \<Rightarrow> Server" where
  "Server_ReceiveCatch L a st =
     (let st1 = Server_RemoveStun (s_id (sv_heap st a)) st;
          st2 = Server_notify L
                  (SubscribeMgr_Notify L (s_id (sv_heap st1 a)) False (sv_subs st1)) st1
      in srv_signal (OnDisconnected (s_id (sv_heap st2 a))) st2)"

definition Server_HandleReceive :: "lib \<Rightarrow> addr \<Rightarrow> error_code \<Rightarrow> nat \<Rightarrow> Server \<Rightarrow> Server" where
  "Server_HandleReceive L a ec n st =
     (if failed ec then Server_ReceiveCatch L a st
      else case parse L (take (n - length delimiter) (s_buffer (sv_heap st a))) of
        None \<Rightarrow> Server_ReceiveCatch L a st
      | Some cmd \<Rightarrow>
          (case (protocol cmd, p2p cmd) of
             (Command_Protocol_P2P, Some m) \<Rightarrow>
               (let st1 = on_session a (Session_SetBytesTransferred n) st
                in case uuid_of_string L (p2p_to m) of
                     None \<Rightarrow> Server_ReceiveCatch L a st1
                   | Some i \<Rightarrow> Server_SendP2P L a i st1)
           | _ \<Rightarrow>
               (case Server_Process L a cmd st of
                  (st1, Inl _) \<Rightarrow> Server_ReceiveCatch L a st1
                | (st1, Inr again) \<Rightarrow>
                    srv_post (if again then T_Receive a else T_ReceiveProxy a)
                      (on_session a (\<lambda>s. s\<lparr>s_buffer := drop n (s_buffer s)\<rparr>) st1))))"

definition Server_HandleReceiveProxy :: "addr \<Rightarrow> error_code \<Rightarrow> nat \<Rightarrow> Server \<Rightarrow> Server run" where
  "Server_HandleReceiveProxy a ec n st =
     (if failed ec then Done (Server_RemoveProxy (s_id (sv_heap st a)) st)
      else case ProxyMgr_FindPair (s_id (sv_heap st a)) (sv_proxy st) of
        Inl _ \<Rightarrow> Done (Server_RemoveProxy (s_id (sv_heap st a)) st)
      | Inr p \<Rightarrow>
          (let st1 = on_session a (Session_SetBytesTransferred n) st
           in case s_type (sv_heap st1 a) of
                PROXYDOWN \<Rightarrow> Server_SendProxy (down_session p) (up_session p) st1
              | PROXYUP \<Rightarrow> Server_SendProxy (up_session p) (down_session p) st1
              | _ \<Rightarrow> Done (Server_RemoveProxy (s_id (sv_heap st1 a)) st1)))"

definition Server_Stop :: "Server \<Rightarrow> Server" where
  "Server_Stop st =
     (let r = SessionMgr_Stop (sv_heap st, sv_stun st)
      in st\<lparr>sv_heap := fst r, sv_stun := snd r, sv_core := Core_Stop (sv_core st)\<rparr>)"

section \<open>The machine\<close>

text \<open>
  An event names the posted handler or the pending operation by its position, with the
  result the environment chooses: the error code, the bytes that arrive. An event that is
  not possible in a state leaves it unchanged; after \<open>Stop\<close> no handler runs.
\<close>

datatype srv_event =
    E_Run nat
  | E_Accept nat error_code "endpoint option" nat
  | E_Read nat error_code "byte list"
  | E_Write nat error_code
  | E_Timer addr nat
  | E_Tick nat
  | E_Stop

definition run_task :: "srv_task \<Rightarrow> Server \<Rightarrow> Server" where
  "run_task t st =
     (case t of
        T_Receive a \<Rightarrow> Server_Receive a st
      | T_ReceiveProxy a \<Rightarrow> Server_ReceiveProxy a st
      | T_DoSend a msg \<Rightarrow> Server_DoSend a msg st)"

definition drop_op :: "nat \<Rightarrow> Server \<Rightarrow> Server" where
  "drop_op i st = st\<lparr>sv_pending := remove_at i (sv_pending st)\<rparr>"

text \<open>
  A read completes with an error, or takes bytes from an open socket into the buffer and
  completes once the buffer holds a delimiter.
\<close>

definition read_event ::
  "nat \<Rightarrow> addr \<Rightarrow> error_code \<Rightarrow> byte list \<Rightarrow> (error_code \<Rightarrow> nat \<Rightarrow> Server \<Rightarrow> Server run) \<Rightarrow> Server \<Rightarrow> Server run" where
  "read_event i a ec bs handler st =
     (if failed ec then handler ec 0 (drop_op i st)
      else if \<not> s_open (sv_heap st a) then Done st
      else
        (let st1 = on_session a (\<lambda>s. s\<lparr>s_buffer := s_buffer s @ bs\<rparr>) st
         in case read_until delimiter (s_buffer (sv_heap st1 a)) of
              None \<Rightarrow> Done st1
            | Some n \<Rightarrow> handler ec_ok n (drop_op i st1)))"

definition write_ok :: "addr \<Rightarrow> error_code \<Rightarrow> Server \<Rightarrow> bool" where
  "write_ok a ec st \<longleftrightarrow> failed ec \<or> s_open (sv_heap st a)"

definition log_write :: "addr \<Rightarrow> byte list \<Rightarrow> error_code \<Rightarrow> Server \<Rightarrow> Server" where
  "log_write a bs ec st = (if failed ec then st else st\<lparr>sv_wire := sv_wire st @ [(a, bs)]\<rparr>)"

definition write_event :: "lib \<Rightarrow> nat \<Rightarrow> error_code \<Rightarrow> Server \<Rightarrow> Server run" where
  "write_event L i ec st =
     (case sv_pending st ! i of
        O_Write a msg \<Rightarrow>
          if write_ok a ec st then Server_HandleDoSend ec (log_write a msg ec (drop_op i st)) else Done st
      | O_WriteP2P to from msg \<Rightarrow>
          if write_ok to ec st
          then Server_HandleSendP2P L to from ec (log_write to msg ec (drop_op i st)) else Done st
      | O_WriteProxy to from msg \<Rightarrow>
          if write_ok to ec st
          then Done (Server_HandleSendProxy from ec (length msg) (log_write to msg ec (drop_op i st)))
          else Done st
      | _ \<Rightarrow> Done st)"

definition timer_event :: "lib \<Rightarrow> addr \<Rightarrow> nat \<Rightarrow> Server \<Rightarrow> Server" where
  "timer_event L a j st =
     (if timer_ready (sv_clock st) j (s_timer (sv_heap st a))
      then case timer_take j (s_timer (sv_heap st a)) of
        (i, ec, t) \<Rightarrow> Server_HandleStunTimeout L ec i (on_session a (\<lambda>s. s\<lparr>s_timer := t\<rparr>) st)
      else st)"

fun srv_step :: "lib \<Rightarrow> srv_event \<Rightarrow> Server \<Rightarrow> Server run" where
  "srv_step L (E_Run i) st =
     (if isRunning (sv_core st) \<and> i < length (sv_posted st)
      then Done (run_task (sv_posted st ! i) (st\<lparr>sv_posted := remove_at i (sv_posted st)\<rparr>))
      else Done st)"
| "srv_step L (E_Accept i ec remote raw) st =
     (if isRunning (sv_core st) \<and> i < length (sv_pending st)
      then case sv_pending st ! i of
        O_Accept a \<Rightarrow> Done (Server_HandleAccept a ec remote raw (drop_op i st))
      | _ \<Rightarrow> Done st
      else Done st)"
| "srv_step L (E_Read i ec bs) st =
     (if isRunning (sv_core st) \<and> i < length (sv_pending st)
      then case sv_pending st ! i of
        O_Read a \<Rightarrow>
          read_event i a ec bs (\<lambda>ec n st. Done (Server_HandleReceive L a ec n st)) st
      | O_ReadProxy a \<Rightarrow> read_event i a ec bs (Server_HandleReceiveProxy a) st
      | _ \<Rightarrow> Done st
      else Done st)"
| "srv_step L (E_Write i ec) st =
     (if isRunning (sv_core st) \<and> i < length (sv_pending st) then write_event L i ec st else Done st)"
| "srv_step L (E_Timer a j) st =
     (if isRunning (sv_core st) then Done (timer_event L a j st) else Done st)"
| "srv_step L (E_Tick n) st = Done (st\<lparr>sv_clock := sv_clock st + n\<rparr>)"
| "srv_step L E_Stop st = Done (Server_Stop st)"

fun srv_steps :: "lib \<Rightarrow> srv_event list \<Rightarrow> Server \<Rightarrow> Server run" where
  "srv_steps L [] st = Done st"
| "srv_steps L (e # es) st = bind_run (srv_step L e st) (srv_steps L es)"

end
