(* ===== verification/Send_Queue.thy ===== *)
theory Send_Queue
  imports Prelude
begin

text \<open>
  The send queue of the two clients and of the \<open>opennat\<close> server. \<open>Send\<close> appends an entry and
  starts a write only when the queue was empty; the completion handler of a write removes the
  front, drops the entries whose session has gone, and starts the next write. The locale
  \<open>guarded_queue\<close> states this contract for a \<open>Send\<close> that admits only some of the entries whose
  session is there; inside it, at most one write is in flight at a time, it is that of the
  front entry, and entries whose sessions stay are written in the order of the calls. In
  \<open>send_queue\<close> every entry whose session is there is admitted.
\<close>

datatype 'm queue_op = Enqueue 'm | Complete

locale guarded_queue =
  fixes queue :: "'s \<Rightarrow> 'm list"
    and inflight :: "'s \<Rightarrow> 'd list"
    and payload :: "'m \<Rightarrow> 'd"
    and live :: "'s \<Rightarrow> 'm \<Rightarrow> bool"
    and admit :: "'s \<Rightarrow> 'm \<Rightarrow> bool"
    and enqueue :: "'m \<Rightarrow> 's \<Rightarrow> 's"
    and complete :: "'s \<Rightarrow> 's option"
  assumes admit_live: "admit s m \<Longrightarrow> live s m"
    and enqueue_admit: "admit s m \<Longrightarrow>
      queue (enqueue m s) = queue s @ [m] \<and>
      inflight (enqueue m s) = (if queue s = [] then inflight s @ [payload m] else inflight s)"
    and enqueue_refuse: "\<not> admit s m \<Longrightarrow> enqueue m s = s"
    and enqueue_frame: "live (enqueue m s) = live s \<and> admit (enqueue m s) = admit s"
    and completes: "queue s = m # q \<Longrightarrow> inflight s = [d] \<Longrightarrow> complete s = Some t \<Longrightarrow>
      queue t = dropWhile (\<lambda>x. \<not> live s x) q \<and>
      inflight t = map payload (take 1 (queue t)) \<and> live t = live s \<and> admit t = admit s"
    and returns: "queue s = m # q \<Longrightarrow> \<forall>x \<in> set q. live s x \<Longrightarrow> complete s \<noteq> None"
begin

definition one_write :: "'s \<Rightarrow> bool" where
  "one_write s \<longleftrightarrow> inflight s = map payload (take 1 (queue s))"

lemma one_write_enqueue: "one_write s \<Longrightarrow> one_write (enqueue m s)"
  by (cases "admit s m"; cases "queue s") (auto simp: one_write_def enqueue_admit enqueue_refuse)

lemma one_write_complete:
  assumes "one_write s" and "queue s \<noteq> []" and "complete s = Some t"
  shows "one_write t"
proof -
  from assms(2) obtain m q where q: "queue s = m # q" by (cases "queue s") auto
  with assms(1) have "inflight s = [payload m]" by (simp add: one_write_def)
  from completes [OF q this assms(3)] show ?thesis by (simp add: one_write_def)
qed

lemma one_write_bound: "one_write s \<Longrightarrow> length (inflight s) \<le> 1"
  by (simp add: one_write_def)

text \<open>A run, with the log of the completed entries; it stops when a handler hangs.\<close>

fun run :: "'m queue_op list \<Rightarrow> 's \<times> 'm list \<Rightarrow> ('s \<times> 'm list) option" where
  "run [] c = Some c"
| "run (Enqueue m # xs) (s, log) = run xs (enqueue m s, log)"
| "run (Complete # xs) (s, log) =
     (case queue s of
        [] \<Rightarrow> run xs (s, log)
      | m # q \<Rightarrow> (case complete s of None \<Rightarrow> None | Some t \<Rightarrow> run xs (t, log @ [m])))"

fun accepted :: "('m \<Rightarrow> bool) \<Rightarrow> 'm queue_op list \<Rightarrow> 'm list" where
  "accepted p [] = []"
| "accepted p (Enqueue m # xs) = (if p m then m # accepted p xs else accepted p xs)"
| "accepted p (Complete # xs) = accepted p xs"

text \<open>
  First in, first out: a run over live entries returns, and what was written, followed by
  what is queued, is what was accepted, in order.
\<close>

lemma run_fifo:
  assumes "one_write s" and "\<forall>x \<in> set (queue s). live s x"
  shows "\<exists>t log'. run xs (s, log) = Some (t, log') \<and>
    log' @ queue t = log @ queue s @ accepted (admit s) xs \<and> one_write t \<and> live t = live s"
  using assms
proof (induction xs "(s, log)" arbitrary: s log rule: run.induct)
  case 1
  then show ?case by simp
next
  case (2 m xs s log)
  have ow: "one_write (enqueue m s)" by (rule one_write_enqueue) fact
  show ?case
  proof (cases "admit s m")
    case True
    then have "\<forall>x \<in> set (queue (enqueue m s)). live (enqueue m s) x"
      using 2(3) enqueue_admit [OF True] admit_live [OF True] by (simp add: enqueue_frame)
    from 2(1) [OF ow this] enqueue_admit [OF True] True show ?thesis
      by (simp add: enqueue_frame)
  next
    case False
    then have "enqueue m s = s" by (rule enqueue_refuse)
    with 2(1) [OF ow] 2(3) False show ?thesis by simp
  qed
next
  case (3 xs s log)
  show ?case
  proof (cases "queue s")
    case Nil
    with 3 show ?thesis by simp
  next
    case (Cons m q)
    from returns [OF Cons] 3(4) Cons obtain u where u: "complete s = Some u" by auto
    from 3(3) Cons have "inflight s = [payload m]" by (simp add: one_write_def)
    from completes [OF Cons this u] have q: "queue u = dropWhile (\<lambda>x. \<not> live s x) q"
      and live: "live u = live s" "admit u = admit s" by blast+
    from 3(4) Cons have qu: "queue u = q" unfolding q by (cases q) auto
    have "one_write u" using one_write_complete [OF 3(3) _ u] Cons by simp
    with 3(2) [OF Cons u this] 3(4) live Cons qu u show ?thesis by simp
  qed
qed

end

locale send_queue =
  fixes queue :: "'s \<Rightarrow> 'm list"
    and inflight :: "'s \<Rightarrow> 'd list"
    and payload :: "'m \<Rightarrow> 'd"
    and live :: "'s \<Rightarrow> 'm \<Rightarrow> bool"
    and enqueue :: "'m \<Rightarrow> 's \<Rightarrow> 's"
    and complete :: "'s \<Rightarrow> 's option"
  assumes enqueue_live: "live s m \<Longrightarrow>
      queue (enqueue m s) = queue s @ [m] \<and>
      inflight (enqueue m s) = (if queue s = [] then inflight s @ [payload m] else inflight s)"
    and enqueue_dead: "\<not> live s m \<Longrightarrow> enqueue m s = s"
    and live_enqueue: "live (enqueue m s) = live s"
    and complete: "queue s = m # q \<Longrightarrow> inflight s = [d] \<Longrightarrow> complete s = Some t \<Longrightarrow>
      queue t = dropWhile (\<lambda>x. \<not> live s x) q \<and>
      inflight t = map payload (take 1 (queue t)) \<and> live t = live s"
    and complete_returns: "queue s = m # q \<Longrightarrow> \<forall>x \<in> set q. live s x \<Longrightarrow> complete s \<noteq> None"

sublocale send_queue < guarded_queue queue inflight payload live live enqueue complete
proof
  show "\<And>s m. live s m \<Longrightarrow> live s m" .
qed (use enqueue_live enqueue_dead live_enqueue complete complete_returns in blast)+

end
