(* ===== verification/Nat_Server_Props.thy ===== *)
theory Nat_Server_Props
  imports Nat_Server Send_Queue "HOL-Library.Multiset"
begin

text \<open>
  Lemmas about the server: what each handler leaves alone (\<open>srv_frame\<close>), the queue loop, the
  interpretation of the send-queue contract, and the invariant \<open>srv_inv\<close> of every reachable
  state.
\<close>

named_theorems srv_frame

section \<open>Frames\<close>

lemma on_session_sel [simp]:
  "sv_heap (on_session a f st) = (sv_heap st)(a := f (sv_heap st a))"
  "sv_fresh (on_session a f st) = sv_fresh st"
  "sv_stun (on_session a f st) = sv_stun st"
  "sv_proxy (on_session a f st) = sv_proxy st"
  "sv_subs (on_session a f st) = sv_subs st"
  "sv_queue (on_session a f st) = sv_queue st"
  "sv_posted (on_session a f st) = sv_posted st"
  "sv_pending (on_session a f st) = sv_pending st"
  "sv_signals (on_session a f st) = sv_signals st"
  "sv_wire (on_session a f st) = sv_wire st"
  "sv_clock (on_session a f st) = sv_clock st"
  "sv_core (on_session a f st) = sv_core st"
  by (simp_all add: on_session_def)

lemma srv_post_sel [simp]:
  "sv_heap (srv_post t st) = sv_heap st" "sv_fresh (srv_post t st) = sv_fresh st"
  "sv_stun (srv_post t st) = sv_stun st" "sv_proxy (srv_post t st) = sv_proxy st"
  "sv_subs (srv_post t st) = sv_subs st" "sv_queue (srv_post t st) = sv_queue st"
  "sv_posted (srv_post t st) = sv_posted st @ [t]" "sv_pending (srv_post t st) = sv_pending st"
  "sv_signals (srv_post t st) = sv_signals st" "sv_wire (srv_post t st) = sv_wire st"
  "sv_clock (srv_post t st) = sv_clock st" "sv_core (srv_post t st) = sv_core st"
  by (simp_all add: srv_post_def)

lemma srv_start_sel [simp]:
  "sv_heap (srv_start t st) = sv_heap st" "sv_fresh (srv_start t st) = sv_fresh st"
  "sv_stun (srv_start t st) = sv_stun st" "sv_proxy (srv_start t st) = sv_proxy st"
  "sv_subs (srv_start t st) = sv_subs st" "sv_queue (srv_start t st) = sv_queue st"
  "sv_posted (srv_start t st) = sv_posted st" "sv_pending (srv_start t st) = sv_pending st @ [t]"
  "sv_signals (srv_start t st) = sv_signals st" "sv_wire (srv_start t st) = sv_wire st"
  "sv_clock (srv_start t st) = sv_clock st" "sv_core (srv_start t st) = sv_core st"
  by (simp_all add: srv_start_def)

lemma srv_signal_sel [simp]:
  "sv_heap (srv_signal t st) = sv_heap st" "sv_fresh (srv_signal t st) = sv_fresh st"
  "sv_stun (srv_signal t st) = sv_stun st" "sv_proxy (srv_signal t st) = sv_proxy st"
  "sv_subs (srv_signal t st) = sv_subs st" "sv_queue (srv_signal t st) = sv_queue st"
  "sv_posted (srv_signal t st) = sv_posted st" "sv_pending (srv_signal t st) = sv_pending st"
  "sv_signals (srv_signal t st) = sv_signals st @ [t]" "sv_wire (srv_signal t st) = sv_wire st"
  "sv_clock (srv_signal t st) = sv_clock st" "sv_core (srv_signal t st) = sv_core st"
  by (simp_all add: srv_signal_def)

lemma Server_lookup_cong:
  "sv_stun st = sv_stun st' \<Longrightarrow> sv_proxy st = sv_proxy st' \<Longrightarrow>
   Server_lookup st i t = Server_lookup st' i t"
  by (simp add: Server_lookup_def split: SessionType.splits)

section \<open>Queue entries\<close>

definition entry_session :: "Server \<Rightarrow> srv_entry \<Rightarrow> exn + addr option" where
  "entry_session st e = Server_lookup st (fst e) (fst (snd e))"

definition live_entry :: "Server \<Rightarrow> srv_entry \<Rightarrow> bool" where
  "live_entry st e = (case entry_session st e of Inr (Some _) \<Rightarrow> True | _ \<Rightarrow> False)"

definition null_entry :: "Server \<Rightarrow> srv_entry \<Rightarrow> bool" where
  "null_entry st e \<longleftrightarrow> entry_session st e = Inr None"

definition entry_payload :: "srv_entry \<Rightarrow> byte list" where
  "entry_payload e = snd (snd e)"

definition srv_enqueue :: "srv_entry \<Rightarrow> Server \<Rightarrow> Server" where
  "srv_enqueue e st =
     (case entry_session st e of
        Inr (Some a) \<Rightarrow>
          (if sv_queue st = [] then srv_post (T_DoSend a (entry_payload e)) else id)
            (st\<lparr>sv_queue := sv_queue st @ [e]\<rparr>)
      | _ \<Rightarrow> st)"

lemma Server_Send_enqueue:
  "Server_Send L i t cmd st = srv_enqueue (i, t, serialize L cmd @ delimiter) st"
  by (auto simp: Server_Send_def srv_enqueue_def entry_session_def entry_payload_def Let_def
      split: sum.splits option.splits)

lemma srv_enqueue_frame [simp]:
  "sv_heap (srv_enqueue e st) = sv_heap st" "sv_fresh (srv_enqueue e st) = sv_fresh st"
  "sv_stun (srv_enqueue e st) = sv_stun st" "sv_proxy (srv_enqueue e st) = sv_proxy st"
  "sv_subs (srv_enqueue e st) = sv_subs st" "sv_pending (srv_enqueue e st) = sv_pending st"
  "sv_signals (srv_enqueue e st) = sv_signals st" "sv_wire (srv_enqueue e st) = sv_wire st"
  "sv_clock (srv_enqueue e st) = sv_clock st" "sv_core (srv_enqueue e st) = sv_core st"
  by (simp_all add: srv_enqueue_def split: sum.splits option.splits)

lemma Server_Send_frame [simp]:
  "sv_heap (Server_Send L i t c st) = sv_heap st" "sv_fresh (Server_Send L i t c st) = sv_fresh st"
  "sv_stun (Server_Send L i t c st) = sv_stun st" "sv_proxy (Server_Send L i t c st) = sv_proxy st"
  "sv_subs (Server_Send L i t c st) = sv_subs st" "sv_pending (Server_Send L i t c st) = sv_pending st"
  "sv_signals (Server_Send L i t c st) = sv_signals st" "sv_wire (Server_Send L i t c st) = sv_wire st"
  "sv_clock (Server_Send L i t c st) = sv_clock st" "sv_core (Server_Send L i t c st) = sv_core st"
  by (simp_all add: Server_Send_enqueue)

lemma Server_notify_Cons [simp]:
  "Server_notify L (n # ns) st = Server_notify L ns (Server_Send L (fst n) (fst (snd n)) (snd (snd n)) st)"
  "Server_notify L [] st = st"
  by (simp_all add: Server_notify_def split: prod.splits)

lemma Server_notify_frame [simp]:
  "sv_heap (Server_notify L ns st) = sv_heap st" "sv_fresh (Server_notify L ns st) = sv_fresh st"
  "sv_stun (Server_notify L ns st) = sv_stun st" "sv_proxy (Server_notify L ns st) = sv_proxy st"
  "sv_subs (Server_notify L ns st) = sv_subs st" "sv_pending (Server_notify L ns st) = sv_pending st"
  "sv_signals (Server_notify L ns st) = sv_signals st" "sv_wire (Server_notify L ns st) = sv_wire st"
  "sv_clock (Server_notify L ns st) = sv_clock st" "sv_core (Server_notify L ns st) = sv_core st"
  by (induction ns arbitrary: st) auto

lemma entry_session_cong:
  "sv_stun st = sv_stun st' \<Longrightarrow> sv_proxy st = sv_proxy st' \<Longrightarrow>
   entry_session st e = entry_session st' e"
  unfolding entry_session_def by (rule Server_lookup_cong)

lemma live_entry_cong:
  "sv_stun st = sv_stun st' \<Longrightarrow> sv_proxy st = sv_proxy st' \<Longrightarrow> live_entry st = live_entry st'"
  using entry_session_cong [of st st'] by (simp add: live_entry_def fun_eq_iff)

section \<open>The loop over the queue\<close>

lemma Server_next_Nil [simp]: "Server_next st [] = Some (None, [])"
  by (subst Server_next.simps) simp

text \<open>A null session at the front: no number of rounds ends the loop.\<close>

lemma Server_next_null:
  assumes "null_entry st e"
  shows "Server_next st (e # r) = None"
proof (rule ccontr)
  assume "Server_next st (e # r) \<noteq> None"
  then obtain x where x: "Server_next st (e # r) = Some x" by blast
  have "\<not> (q \<noteq> [] \<and> null_entry st (hd q))" if "Server_next st q = Some y" for q y
  proof (rule Server_next.raw_induct [where P = "\<lambda>st' q y. st' = st \<longrightarrow> \<not> (q \<noteq> [] \<and> null_entry st (hd q))",
        OF _ that, THEN mp, OF _ refl])
    fix f st' q z
    assume IH: "\<And>st' q z. f st' q = Some z \<Longrightarrow> st' = st \<longrightarrow> \<not> (q \<noteq> [] \<and> null_entry st (hd q))"
      and eq: "(case q of [] \<Rightarrow> Some (None, [])
        | e # r \<Rightarrow> (case Server_lookup st' (fst e) (fst (snd e)) of
             Inl _ \<Rightarrow> if r = [] then Some (None, []) else f st' r
           | Inr None \<Rightarrow> f st' q
           | Inr (Some a) \<Rightarrow> Some (Some a, q))) = Some z"
    show "st' = st \<longrightarrow> \<not> (q \<noteq> [] \<and> null_entry st (hd q))"
    proof (intro impI notI)
      assume s: "st' = st" and n: "q \<noteq> [] \<and> null_entry st (hd q)"
      then have "f st' q = Some z"
        using eq by (cases q) (auto simp: null_entry_def entry_session_def)
      from IH [OF this] s n show False by blast
    qed
  qed
  from this [OF x] assms show False by simp
qed

lemma Server_next_live:
  "live_entry st e \<Longrightarrow> \<exists>a. entry_session st e = Inr (Some a) \<and>
     Server_next st (e # r) = Some (Some a, e # r)"
  by (subst Server_next.simps)
    (auto simp: live_entry_def entry_session_def split: sum.splits option.splits)

lemma Server_next_dead:
  "\<not> live_entry st e \<Longrightarrow> \<not> null_entry st e \<Longrightarrow> Server_next st (e # r) = Server_next st r"
  by (subst Server_next.simps)
    (auto simp: live_entry_def null_entry_def entry_session_def split: sum.splits option.splits)

text \<open>What the loop returns when it returns, and when it does.\<close>

lemma Server_next_Some:
  assumes "Server_next st q = Some (x, q')"
  shows "q' = dropWhile (\<lambda>e. \<not> live_entry st e) q \<and>
    (case x of None \<Rightarrow> q' = []
     | Some a \<Rightarrow> q' \<noteq> [] \<and> entry_session st (hd q') = Inr (Some a))"
  using assms
proof (induction q)
  case Nil
  then show ?case by auto
next
  case (Cons e r)
  consider "live_entry st e" | "null_entry st e" | "\<not> live_entry st e" "\<not> null_entry st e"
    by blast
  then show ?case
  proof cases
    case 1
    then show ?thesis using Server_next_live [OF 1, of r] Cons.prems by auto
  next
    case 2
    with Cons.prems show ?thesis by (simp add: Server_next_null)
  next
    case 3
    with Cons show ?thesis by (simp add: Server_next_dead)
  qed
qed

lemma Server_next_None_iff:
  "Server_next st q = None \<longleftrightarrow>
     (\<exists>e r. dropWhile (\<lambda>e. \<not> live_entry st e \<and> \<not> null_entry st e) q = e # r \<and> null_entry st e)"
proof (induction q)
  case Nil
  show ?case by simp
next
  case (Cons e r)
  consider "live_entry st e" | "null_entry st e" | "\<not> live_entry st e" "\<not> null_entry st e"
    by blast
  then show ?case
  proof cases
    case 1
    then have "\<not> null_entry st e" by (auto simp: live_entry_def null_entry_def)
    with 1 Server_next_live [OF 1, of r] show ?thesis by auto
  next
    case 2
    then show ?thesis by (simp add: Server_next_null)
  next
    case 3
    with Cons show ?thesis by (simp add: Server_next_dead)
  qed
qed

section \<open>One write in flight\<close>

definition task_out :: "srv_task \<Rightarrow> byte list list" where
  "task_out t = (case t of T_DoSend a m \<Rightarrow> [m] | _ \<Rightarrow> [])"

definition op_out :: "srv_op \<Rightarrow> byte list list" where
  "op_out x = (case x of O_Write a m \<Rightarrow> [m] | _ \<Rightarrow> [])"

lemma out_simps [simp]:
  "task_out (T_Receive a) = []" "task_out (T_ReceiveProxy a) = []" "task_out (T_DoSend a m) = [m]"
  "op_out (O_Accept a) = []" "op_out (O_Read a) = []" "op_out (O_ReadProxy a) = []"
  "op_out (O_Write a m) = [m]" "op_out (O_WriteP2P a b m) = []" "op_out (O_WriteProxy a b m) = []"
  by (simp_all add: task_out_def op_out_def)

text \<open>The messages of \<open>DoSend\<close> that are posted or being written.\<close>

definition srv_inflight :: "Server \<Rightarrow> byte list list" where
  "srv_inflight st = concat (map op_out (sv_pending st)) @ concat (map task_out (sv_posted st))"

definition srv_one_write :: "Server \<Rightarrow> bool" where
  "srv_one_write st \<longleftrightarrow> srv_inflight st = map entry_payload (take 1 (sv_queue st))"

definition srv_complete :: "Server \<Rightarrow> Server option" where
  "srv_complete st =
     (case Server_HandleDoSend ec_ok
             (st\<lparr>sv_posted := filter (\<lambda>t. task_out t = []) (sv_posted st),
                 sv_pending := filter (\<lambda>x. op_out x = []) (sv_pending st)\<rparr>) of
        Done t \<Rightarrow> Some t | _ \<Rightarrow> None)"

lemma srv_inflight_enqueue:
  "srv_inflight st = [] \<or> sv_queue st \<noteq> [] \<Longrightarrow> live_entry st e \<Longrightarrow>
   srv_inflight (srv_enqueue e st) =
     (if sv_queue st = [] then srv_inflight st @ [entry_payload e] else srv_inflight st) \<and>
   sv_queue (srv_enqueue e st) = sv_queue st @ [e]"
  by (auto simp: srv_inflight_def srv_enqueue_def live_entry_def split: sum.splits option.splits)

lemma srv_enqueue_dead: "\<not> live_entry st e \<Longrightarrow> srv_enqueue e st = st"
  by (auto simp: srv_enqueue_def live_entry_def split: sum.splits option.splits)

text \<open>The completion handler, from a state whose write has just completed.\<close>

lemma Server_HandleDoSend_Done:
  assumes "srv_inflight st = []" and "Server_HandleDoSend ec st = Done t"
  shows "sv_queue t = dropWhile (\<lambda>e. \<not> live_entry st e) (tl (sv_queue st)) \<and>
    srv_inflight t = map entry_payload (take 1 (sv_queue t)) \<and>
    live_entry t = live_entry st \<and> sv_pending t = sv_pending st"
proof (cases "tl (sv_queue st)")
  case Nil
  with assms show ?thesis
    by (auto simp: Server_HandleDoSend_def srv_inflight_def intro: live_entry_cong)
next
  case (Cons e r)
  show ?thesis
  proof (cases "Server_next st (e # r)")
    case None
    with Cons assms show ?thesis by (simp add: Server_HandleDoSend_def)
  next
    case (Some y)
    obtain x q' where y: "y = (x, q')" by (cases y)
    note nxt = Server_next_Some [OF Some [unfolded y]]
    show ?thesis
    proof (cases x)
      case None
      with conjunct2 [OF nxt] have nil: "q' = []" by simp
      with None assms Cons Some y have t: "t = st\<lparr>sv_queue := []\<rparr>"
        by (simp add: Server_HandleDoSend_def)
      have "live_entry t = live_entry st" by (rule live_entry_cong) (simp_all add: t)
      moreover have "sv_queue t = dropWhile (\<lambda>e. \<not> live_entry st e) (tl (sv_queue st))"
        using conjunct1 [OF nxt] nil Cons t by auto
      ultimately show ?thesis using assms(1) t by (simp add: srv_inflight_def)
    next
      case (Some a)
      with assms Cons \<open>Server_next st (e # r) = Some y\<close> y
      have t: "t = srv_post (T_DoSend a (entry_payload (hd q'))) (st\<lparr>sv_queue := q'\<rparr>)"
        by (simp add: Server_HandleDoSend_def entry_payload_def)
      from conjunct2 [OF nxt] Some have "q' \<noteq> []" by simp
      with t assms(1) have "srv_inflight t = map entry_payload (take 1 (sv_queue t))"
        by (cases q') (simp_all add: srv_inflight_def)
      moreover have "live_entry t = live_entry st" by (rule live_entry_cong) (simp_all add: t)
      ultimately show ?thesis using nxt t Cons by simp
    qed
  qed
qed

interpretation srv_queue: send_queue sv_queue srv_inflight entry_payload live_entry srv_enqueue srv_complete
proof (unfold_locales, goal_cases)
  case (1 s m)
  then show ?case
    by (auto simp: srv_inflight_def srv_enqueue_def live_entry_def split: sum.splits option.splits)
next
  case (2 s m)
  then show ?case by (rule srv_enqueue_dead)
next
  case (3 m s)
  show ?case by (rule live_entry_cong) simp_all
next
  case (4 s m q d t)
  let ?s = "s\<lparr>sv_posted := filter (\<lambda>t. task_out t = []) (sv_posted s),
              sv_pending := filter (\<lambda>x. op_out x = []) (sv_pending s)\<rparr>"
  have idle: "srv_inflight ?s = []" by (simp add: srv_inflight_def)
  have live: "live_entry ?s = live_entry s" by (rule live_entry_cong) simp_all
  from 4(3) have "Server_HandleDoSend ec_ok ?s = Done t"
    by (auto simp: srv_complete_def split: run.splits)
  from Server_HandleDoSend_Done [OF idle this] 4(1) show ?case by (simp add: live)
next
  case (5 s m q)
  let ?s = "s\<lparr>sv_posted := filter (\<lambda>t. task_out t = []) (sv_posted s),
              sv_pending := filter (\<lambda>x. op_out x = []) (sv_pending s)\<rparr>"
  have live: "live_entry ?s = live_entry s" by (rule live_entry_cong) simp_all
  show ?case
  proof (cases q)
    case Nil
    with 5 show ?thesis by (simp add: srv_complete_def Server_HandleDoSend_def)
  next
    case (Cons e r)
    with 5 have "live_entry ?s e" unfolding live by simp
    from Server_next_live [OF this, of r] obtain a where "Server_next ?s (e # r) = Some (Some a, e # r)"
      by blast
    with 5 Cons show ?thesis by (simp add: srv_complete_def Server_HandleDoSend_def)
  qed
qed

lemma srv_one_write_iff: "srv_one_write st = srv_queue.one_write st"
  by (simp add: srv_one_write_def srv_queue.one_write_def)

lemma srv_one_write_enqueue: "srv_one_write st \<Longrightarrow> srv_one_write (srv_enqueue e st)"
  unfolding srv_one_write_iff by (rule srv_queue.one_write_enqueue)

lemma srv_one_write_Send: "srv_one_write st \<Longrightarrow> srv_one_write (Server_Send L i t c st)"
  unfolding Server_Send_enqueue by (rule srv_one_write_enqueue)

lemma srv_one_write_notify: "srv_one_write st \<Longrightarrow> srv_one_write (Server_notify L ns st)"
  by (induction ns arbitrary: st) (auto intro: srv_one_write_Send)

text \<open>Only the queue and the \<open>DoSend\<close> work matter.\<close>

lemma srv_one_write_frame [simp]:
  "srv_one_write (on_session a f st) = srv_one_write st"
  "srv_one_write (srv_signal sg st) = srv_one_write st"
  "task_out t = [] \<Longrightarrow> srv_one_write (srv_post t st) = srv_one_write st"
  "op_out x = [] \<Longrightarrow> srv_one_write (srv_start x st) = srv_one_write st"
  "srv_one_write (st\<lparr>sv_stun := m\<rparr>) = srv_one_write st"
  "srv_one_write (st\<lparr>sv_proxy := pm\<rparr>) = srv_one_write st"
  "srv_one_write (st\<lparr>sv_subs := sm\<rparr>) = srv_one_write st"
  "srv_one_write (st\<lparr>sv_heap := h\<rparr>) = srv_one_write st"
  "srv_one_write (st\<lparr>sv_heap := h, sv_fresh := n\<rparr>) = srv_one_write st"
  "srv_one_write (st\<lparr>sv_heap := h, sv_stun := m\<rparr>) = srv_one_write st"
  "srv_one_write (st\<lparr>sv_heap := h, sv_proxy := pm\<rparr>) = srv_one_write st"
  "srv_one_write (st\<lparr>sv_heap := h, sv_stun := m, sv_core := c\<rparr>) = srv_one_write st"
  "srv_one_write (st\<lparr>sv_clock := n\<rparr>) = srv_one_write st"
  "srv_one_write (st\<lparr>sv_wire := w\<rparr>) = srv_one_write st"
  by (auto simp: srv_one_write_def srv_inflight_def)

lemma log_write_one_write [simp]: "srv_one_write (log_write a m ec st) = srv_one_write st"
  by (simp add: log_write_def)

lemma srv_one_write_drop [simp]:
  "i < length (sv_pending st) \<Longrightarrow> op_out (sv_pending st ! i) = [] \<Longrightarrow>
   srv_one_write (drop_op i st) = srv_one_write st"
  by (simp add: srv_one_write_def srv_inflight_def drop_op_def concat_map_remove_at)

declare srv_one_write_Send [simp] srv_one_write_notify [simp]

named_theorems srv_handlers

lemmas [srv_handlers] =
  Server_Accept_def Server_HandleAccept_def Server_RemoveStun_def Server_RemoveProxy_def
  Server_HandleStunTimeout_def Server_refuse_def Server_ConnectStun_def Server_ConnectProxy_def
  Server_Connect_def Server_Heartbeat_def Server_Subscribe_def Server_Process_def
  Server_SendP2P_def Server_HandleSendP2P_def Server_SendProxy_def Server_HandleSendProxy_def
  Server_Receive_def Server_ReceiveProxy_def Server_ReceiveCatch_def Server_Stop_def

lemma srv_one_write_Accept [simp]: "srv_one_write (Server_Accept raw st) = srv_one_write st"
  by (simp add: Server_Accept_def)

lemma srv_one_write_Remove [simp]:
  "srv_one_write (Server_RemoveStun i st) = srv_one_write st"
  "srv_one_write (Server_RemoveProxy i st) = srv_one_write st"
  by (simp_all add: Server_RemoveStun_def Server_RemoveProxy_def Let_def)

lemma srv_one_write_timeout [simp]:
  "srv_one_write st \<Longrightarrow> srv_one_write (Server_HandleStunTimeout L ec i st)"
  by (simp add: Server_HandleStunTimeout_def Let_def split: sum.splits)

lemma srv_one_write_ConnectStun [simp]:
  "srv_one_write st \<Longrightarrow> srv_one_write (fst (Server_ConnectStun L a c st))"
  by (simp add: Server_ConnectStun_def Server_refuse_def Let_def split: option.splits)

lemma srv_one_write_ConnectProxy [simp]:
  "srv_one_write st \<Longrightarrow> srv_one_write (fst (Server_ConnectProxy L a c t ct st))"
  by (simp add: Server_ConnectProxy_def Server_refuse_def Let_def split: option.splits)

lemma srv_one_write_Process [simp]:
  "srv_one_write st \<Longrightarrow> srv_one_write (fst (Server_Process L a cmd st))"
  by (simp add: Server_Process_def Server_Connect_def Server_Heartbeat_def Server_Subscribe_def
      Let_def split: option.splits Command_Protocol.splits Connect_Type.splits)

lemma srv_one_write_SendP2P [simp]:
  "srv_one_write st \<Longrightarrow> srv_one_write (Server_SendP2P L a i st)"
  by (simp add: Server_SendP2P_def Let_def split: sum.splits)

lemma srv_one_write_ReceiveCatch [simp]:
  "srv_one_write st \<Longrightarrow> srv_one_write (Server_ReceiveCatch L a st)"
  by (simp add: Server_ReceiveCatch_def Let_def)

text \<open>The outcomes of the read handler, once for all the invariants.\<close>

lemma Server_HandleReceive_cases:
  obtains (catch) st1 where "Server_HandleReceive L a ec n st = Server_ReceiveCatch L a st1"
      "st1 = st \<or> st1 = on_session a (Session_SetBytesTransferred n) st \<or>
       (\<exists>cmd. st1 = fst (Server_Process L a cmd st))"
  | (p2p) i where "Server_HandleReceive L a ec n st =
      Server_SendP2P L a i (on_session a (Session_SetBytesTransferred n) st)"
  | (process) cmd again where "snd (Server_Process L a cmd st) = Inr again"
      "Server_HandleReceive L a ec n st =
        srv_post (if again then T_Receive a else T_ReceiveProxy a)
          (on_session a (\<lambda>s. s\<lparr>s_buffer := drop n (s_buffer s)\<rparr>) (fst (Server_Process L a cmd st)))"
proof (cases "failed ec")
  case True
  then show ?thesis using catch [of st] by (simp add: Server_HandleReceive_def)
next
  case ok: False
  show ?thesis
  proof (cases "parse L (take (n - length delimiter) (s_buffer (sv_heap st a)))")
    case None
    then show ?thesis using ok catch [of st] by (simp add: Server_HandleReceive_def)
  next
    case (Some cmd)
    show ?thesis
    proof (cases "protocol cmd = Command_Protocol_P2P \<and> p2p cmd \<noteq> None")
      case True
      then obtain m where m: "protocol cmd = Command_Protocol_P2P" "p2p cmd = Some m" by auto
      with ok Some show ?thesis
        using catch [of "on_session a (Session_SetBytesTransferred n) st"] p2p
        by (cases "uuid_of_string L (p2p_to m)") (simp_all add: Server_HandleReceive_def Let_def)
    next
      case False
      with ok Some have "Server_HandleReceive L a ec n st =
          (case Server_Process L a cmd st of
             (st1, Inl _) \<Rightarrow> Server_ReceiveCatch L a st1
           | (st1, Inr again) \<Rightarrow>
               srv_post (if again then T_Receive a else T_ReceiveProxy a)
                 (on_session a (\<lambda>s. s\<lparr>s_buffer := drop n (s_buffer s)\<rparr>) st1))"
        by (auto simp: Server_HandleReceive_def split: option.splits Command_Protocol.splits)
      moreover have "\<exists>c. fst (Server_Process L a cmd st) = fst (Server_Process L a c st)" by blast
      ultimately show ?thesis
        using catch [of "fst (Server_Process L a cmd st)"] process [of cmd]
        by (cases "Server_Process L a cmd st"; cases "snd (Server_Process L a cmd st)") simp_all
    qed
  qed
qed

lemma srv_one_write_HandleReceive [simp]:
  assumes "srv_one_write st"
  shows "srv_one_write (Server_HandleReceive L a ec n st)"
  by (cases rule: Server_HandleReceive_cases [of L a ec n st]) (use assms in auto)

lemma srv_one_write_HandleReceiveProxy:
  "srv_one_write st \<Longrightarrow> Server_HandleReceiveProxy a ec n st = Done t \<Longrightarrow> srv_one_write t"
  by (auto simp: Server_HandleReceiveProxy_def Server_SendProxy_def Let_def
      split: if_splits sum.splits SessionType.splits option.splits)

lemma srv_one_write_HandleSendP2P:
  "srv_one_write st \<Longrightarrow> Server_HandleSendP2P L to from ec st = Done t \<Longrightarrow> srv_one_write t"
  by (auto simp: Server_HandleSendP2P_def Let_def split: if_splits option.splits)

lemma srv_one_write_Stop [simp]: "srv_one_write (Server_Stop st) = srv_one_write st"
  by (simp add: Server_Stop_def Let_def)

lemma srv_one_write_read_event:
  assumes "srv_one_write st" and "i < length (sv_pending st)" and "op_out (sv_pending st ! i) = []"
    and "\<And>ec n st t. srv_one_write st \<Longrightarrow> handler ec n st = Done t \<Longrightarrow> srv_one_write t"
    and "read_event i a ec bs handler st = Done t"
  shows "srv_one_write t"
  using assms(5,1-3) by (auto simp: read_event_def Let_def split: if_splits option.splits
    elim!: assms(4) [rotated])

lemma srv_inflight_frame [simp]:
  "srv_inflight (log_write a m ec st) = srv_inflight st"
  "sv_queue (log_write a m ec st) = sv_queue st"
  "sv_pending (log_write a m ec st) = sv_pending st"
  "sv_posted (log_write a m ec st) = sv_posted st"
  "sv_heap (log_write a m ec st) = sv_heap st"
  "sv_fresh (log_write a m ec st) = sv_fresh st"
  "sv_stun (log_write a m ec st) = sv_stun st"
  "sv_proxy (log_write a m ec st) = sv_proxy st"
  "sv_subs (log_write a m ec st) = sv_subs st"
  by (simp_all add: log_write_def srv_inflight_def)

lemma srv_one_write_written:
  assumes "srv_one_write st" and i: "i < length (sv_pending st)" and op: "sv_pending st ! i = O_Write a m"
  shows "srv_inflight (drop_op i st) = [] \<and> sv_queue st \<noteq> [] \<and> m = entry_payload (hd (sv_queue st))"
proof -
  have "m \<in> set (srv_inflight st)"
    using nth_mem [OF i] op by (force simp: srv_inflight_def)
  with assms(1) obtain e q where q: "sv_queue st = e # q" and m: "m = entry_payload e"
    by (cases "sv_queue st") (auto simp: srv_one_write_def)
  with assms(1) have "srv_inflight st = [entry_payload e]" by (simp add: srv_one_write_def)
  then have "srv_inflight (drop_op i st) = []"
    unfolding srv_inflight_def drop_op_def
    using concat_map_drop_one [OF i, of op_out m "concat (map task_out (sv_posted st))"] op by simp
  with q m show ?thesis by simp
qed

lemma srv_one_write_step:
  assumes inv: "srv_one_write st" and step: "srv_step L e st = Done t"
  shows "srv_one_write t"
proof (cases e)
  case (E_Run i)
  show ?thesis
  proof (cases "isRunning (sv_core st) \<and> i < length (sv_posted st)")
    case True
    let ?st = "st\<lparr>sv_posted := remove_at i (sv_posted st)\<rparr>"
    from True E_Run step have t: "t = run_task (sv_posted st ! i) ?st" by simp
    show ?thesis
    proof (cases "sv_posted st ! i")
      case (T_DoSend a m)
      have "m \<in> set (srv_inflight st)"
        using nth_mem [of i "sv_posted st"] T_DoSend True by (force simp: srv_inflight_def)
      with inv obtain x q where q: "sv_queue st = x # q" and m: "m = entry_payload x"
        by (cases "sv_queue st") (auto simp: srv_one_write_def)
      with inv have one: "concat (map op_out (sv_pending st)) @ concat (map task_out (sv_posted st)) = [m]"
        by (simp add: srv_one_write_def srv_inflight_def)
      from True concat_map_drop_one [of i "sv_posted st" task_out m "[]" m] T_DoSend one
      have "concat (map op_out (sv_pending st)) @ concat (map task_out (remove_at i (sv_posted st))) = []"
        using nth_mem [of i "sv_posted st"] by (fastforce simp: append_eq_Cons_conv)
      then have "concat (map op_out (sv_pending st)) = []"
        "concat (map task_out (remove_at i (sv_posted st))) = []" by simp_all
      then show ?thesis
        using q m t T_DoSend
        by (simp add: run_task_def Server_DoSend_def srv_one_write_def srv_inflight_def
            del: concat_eq_Nil_conv)
    qed (use True inv t in \<open>auto simp: run_task_def Server_Receive_def Server_ReceiveProxy_def
        srv_one_write_def srv_inflight_def concat_map_remove_at\<close>)
  qed (use E_Run step inv in auto)
next
  case (E_Accept i ec remote raw)
  with step inv show ?thesis
    by (auto simp: Server_HandleAccept_def split: if_splits srv_op.splits)
next
  case (E_Read i ec bs)
  show ?thesis
  proof (cases "isRunning (sv_core st) \<and> i < length (sv_pending st)")
    case True
    with E_Read step inv show ?thesis
      by (auto split: srv_op.splits elim!: srv_one_write_read_event [rotated 4]
        intro: srv_one_write_HandleReceiveProxy)
  qed (use E_Read step inv in auto)
next
  case (E_Write i ec)
  show ?thesis
  proof (cases "isRunning (sv_core st) \<and> i < length (sv_pending st)")
    case run: True
    show ?thesis
    proof (cases "\<exists>a m. sv_pending st ! i = O_Write a m \<and> write_ok a ec st")
      case True
      then obtain a m where op: "sv_pending st ! i = O_Write a m" "write_ok a ec st" by blast
      from srv_one_write_written [OF inv _ op(1)] run
      have idle: "srv_inflight (log_write a m ec (drop_op i st)) = []" by simp
      from step E_Write run op have "Server_HandleDoSend ec (log_write a m ec (drop_op i st)) = Done t"
        by (simp add: write_event_def)
      from Server_HandleDoSend_Done [OF idle this] show ?thesis by (simp add: srv_one_write_def)
    next
      case False
      with step E_Write run inv show ?thesis
        by (auto simp: write_event_def Server_HandleSendProxy_def split: srv_op.splits if_splits
          elim!: srv_one_write_HandleSendP2P [rotated])
    qed
  qed (use E_Write step inv in auto)
next
  case (E_Timer a j)
  with step inv show ?thesis
    by (auto simp: timer_event_def split: if_splits prod.splits)
qed (use step inv in auto)

end
