(* ===== verification/Nat_Server_Inv.thy ===== *)
theory Nat_Server_Inv
  imports Nat_Server_Props
begin

text \<open>
  What holds in every reachable state of the server besides the one write of the queue: each
  session has at most one read outstanding (\<open>one_reader\<close>), and a session that relays is the
  member of its side in the pair of its id as long as its socket is open (\<open>relay_ok\<close>).
\<close>

section \<open>Outstanding reads\<close>

definition task_reads :: "srv_task \<Rightarrow> addr list" where
  "task_reads t = (case t of T_Receive a \<Rightarrow> [a] | T_ReceiveProxy a \<Rightarrow> [a] | _ \<Rightarrow> [])"

definition op_reads :: "srv_op \<Rightarrow> addr list" where
  "op_reads x = (case x of O_Accept a \<Rightarrow> [a] | O_Read a \<Rightarrow> [a] | O_ReadProxy a \<Rightarrow> [a]
     | O_WriteProxy t f m \<Rightarrow> [f] | _ \<Rightarrow> [])"

definition task_proxy :: "srv_task \<Rightarrow> addr list" where
  "task_proxy t = (case t of T_ReceiveProxy a \<Rightarrow> [a] | _ \<Rightarrow> [])"

definition op_proxy :: "srv_op \<Rightarrow> addr list" where
  "op_proxy x = (case x of O_ReadProxy a \<Rightarrow> [a] | O_WriteProxy t f m \<Rightarrow> [f] | _ \<Rightarrow> [])"

lemmas read_defs = task_reads_def op_reads_def task_proxy_def op_proxy_def

lemma read_simps [simp]:
  "task_reads (T_Receive a) = [a]" "task_reads (T_ReceiveProxy a) = [a]" "task_reads (T_DoSend a m) = []"
  "op_reads (O_Accept a) = [a]" "op_reads (O_Read a) = [a]" "op_reads (O_ReadProxy a) = [a]"
  "op_reads (O_Write a m) = []" "op_reads (O_WriteP2P a b m) = []" "op_reads (O_WriteProxy a b m) = [b]"
  "task_proxy (T_Receive a) = []" "task_proxy (T_ReceiveProxy a) = [a]" "task_proxy (T_DoSend a m) = []"
  "op_proxy (O_Accept a) = []" "op_proxy (O_Read a) = []" "op_proxy (O_ReadProxy a) = [a]"
  "op_proxy (O_Write a m) = []" "op_proxy (O_WriteP2P a b m) = []" "op_proxy (O_WriteProxy a b m) = [b]"
  by (simp_all add: read_defs)

definition reads :: "Server \<Rightarrow> addr multiset" where
  "reads st = mset (concat (map op_reads (sv_pending st))) + mset (concat (map task_reads (sv_posted st)))"

definition proxies :: "Server \<Rightarrow> addr multiset" where
  "proxies st = mset (concat (map op_proxy (sv_pending st))) + mset (concat (map task_proxy (sv_posted st)))"

definition one_reader :: "Server \<Rightarrow> bool" where
  "one_reader st \<longleftrightarrow> (\<forall>a. count (reads st) a \<le> (if a < sv_fresh st then 1 else 0))"

definition own_side :: "SessionPair \<Rightarrow> SessionType \<Rightarrow> addr option" where
  "own_side p t = (case t of PROXYDOWN \<Rightarrow> down_session p | PROXYUP \<Rightarrow> up_session p | _ \<Rightarrow> None)"

definition other_side :: "SessionPair \<Rightarrow> SessionType \<Rightarrow> addr option" where
  "other_side p t = (case t of PROXYDOWN \<Rightarrow> up_session p | PROXYUP \<Rightarrow> down_session p | _ \<Rightarrow> None)"

definition paired :: "Server \<Rightarrow> addr \<Rightarrow> bool" where
  "paired st a \<longleftrightarrow>
     (case map_of (sv_proxy st) (s_id (sv_heap st a)) of
        None \<Rightarrow> False | Some p \<Rightarrow> own_side p (s_type (sv_heap st a)) = Some a)"

definition relay_ok :: "Server \<Rightarrow> bool" where
  "relay_ok st \<longleftrightarrow> (\<forall>a. a \<in># proxies st \<longrightarrow> s_open (sv_heap st a) \<longrightarrow> paired st a)"

lemma paired_iff:
  "paired st a \<longleftrightarrow> (\<exists>p. map_of (sv_proxy st) (s_id (sv_heap st a)) = Some p \<and>
     own_side p (s_type (sv_heap st a)) = Some a)"
  by (simp add: paired_def split: option.splits)

lemma op_proxy_reads: "set (op_proxy x) \<subseteq> set (op_reads x)"
  by (cases x) simp_all

lemma task_proxy_reads: "set (task_proxy t) \<subseteq> set (task_reads t)"
  by (cases t) simp_all

lemma proxies_reads: "a \<in># proxies st \<Longrightarrow> a \<in># reads st"
  using op_proxy_reads task_proxy_reads by (fastforce simp: proxies_def reads_def)

lemma mset_concat_remove_at:
  "i < length xs \<Longrightarrow>
   mset (concat (map f xs)) = mset (f (xs ! i)) + mset (concat (map f (remove_at i xs)))"
  using arg_cong [OF split_nth, of i xs "\<lambda>l. mset (concat (map f l))"]
  by (simp add: remove_at_def)

subsection \<open>Frames\<close>

lemma reads_frame [simp]:
  "reads (on_session a f st) = reads st" "proxies (on_session a f st) = proxies st"
  "reads (srv_signal sg st) = reads st" "proxies (srv_signal sg st) = proxies st"
  "reads (srv_post t st) = reads st + mset (task_reads t)"
  "proxies (srv_post t st) = proxies st + mset (task_proxy t)"
  "reads (srv_start x st) = reads st + mset (op_reads x)"
  "proxies (srv_start x st) = proxies st + mset (op_proxy x)"
  "reads (log_write a m ec st) = reads st" "proxies (log_write a m ec st) = proxies st"
  by (simp_all add: reads_def proxies_def ac_simps)

lemma reads_upd [simp]:
  "reads (st\<lparr>sv_stun := m\<rparr>) = reads st" "proxies (st\<lparr>sv_stun := m\<rparr>) = proxies st"
  "reads (st\<lparr>sv_proxy := pm\<rparr>) = reads st" "proxies (st\<lparr>sv_proxy := pm\<rparr>) = proxies st"
  "reads (st\<lparr>sv_subs := sm\<rparr>) = reads st" "proxies (st\<lparr>sv_subs := sm\<rparr>) = proxies st"
  "reads (st\<lparr>sv_heap := h\<rparr>) = reads st" "proxies (st\<lparr>sv_heap := h\<rparr>) = proxies st"
  "reads (st\<lparr>sv_heap := h, sv_stun := m\<rparr>) = reads st"
  "proxies (st\<lparr>sv_heap := h, sv_stun := m\<rparr>) = proxies st"
  "reads (st\<lparr>sv_heap := h, sv_proxy := pm\<rparr>) = reads st"
  "proxies (st\<lparr>sv_heap := h, sv_proxy := pm\<rparr>) = proxies st"
  "reads (st\<lparr>sv_heap := h, sv_fresh := n\<rparr>) = reads st"
  "proxies (st\<lparr>sv_heap := h, sv_fresh := n\<rparr>) = proxies st"
  "reads (st\<lparr>sv_heap := h, sv_stun := m, sv_core := c\<rparr>) = reads st"
  "proxies (st\<lparr>sv_heap := h, sv_stun := m, sv_core := c\<rparr>) = proxies st"
  "reads (st\<lparr>sv_clock := n\<rparr>) = reads st" "proxies (st\<lparr>sv_clock := n\<rparr>) = proxies st"
  "reads (st\<lparr>sv_queue := q\<rparr>) = reads st" "proxies (st\<lparr>sv_queue := q\<rparr>) = proxies st"
  by (simp_all add: reads_def proxies_def)

lemma reads_enqueue [simp]:
  "reads (srv_enqueue e st) = reads st" "proxies (srv_enqueue e st) = proxies st"
  by (simp_all add: srv_enqueue_def split: sum.splits option.splits)

lemma reads_Send [simp]:
  "reads (Server_Send L i t c st) = reads st" "proxies (Server_Send L i t c st) = proxies st"
  by (simp_all add: Server_Send_enqueue)

lemma reads_notify [simp]:
  "reads (Server_notify L ns st) = reads st" "proxies (Server_notify L ns st) = proxies st"
  by (induction ns arbitrary: st) auto

lemma reads_drop_op:
  "i < length (sv_pending st) \<Longrightarrow> reads st = mset (op_reads (sv_pending st ! i)) + reads (drop_op i st)"
  "i < length (sv_pending st) \<Longrightarrow> proxies st = mset (op_proxy (sv_pending st ! i)) + proxies (drop_op i st)"
  by (simp_all add: reads_def proxies_def drop_op_def mset_concat_remove_at ac_simps)

lemma drop_op_frame [simp]:
  "sv_heap (drop_op i st) = sv_heap st" "sv_fresh (drop_op i st) = sv_fresh st"
  "sv_stun (drop_op i st) = sv_stun st" "sv_proxy (drop_op i st) = sv_proxy st"
  "sv_subs (drop_op i st) = sv_subs st" "sv_queue (drop_op i st) = sv_queue st"
  "sv_posted (drop_op i st) = sv_posted st"
  by (simp_all add: drop_op_def)

lemma reads_Remove [simp]:
  "reads (Server_RemoveStun i st) = reads st" "proxies (Server_RemoveStun i st) = proxies st"
  "reads (Server_RemoveProxy i st) = reads st" "proxies (Server_RemoveProxy i st) = proxies st"
  by (simp_all add: Server_RemoveStun_def Server_RemoveProxy_def Let_def)

lemma reads_timeout [simp]:
  "reads (Server_HandleStunTimeout L ec i st) = reads st"
  "proxies (Server_HandleStunTimeout L ec i st) = proxies st"
  by (simp_all add: Server_HandleStunTimeout_def Let_def split: sum.splits)

lemma reads_Process [simp]:
  "reads (fst (Server_Process L a cmd st)) = reads st"
  "proxies (fst (Server_Process L a cmd st)) = proxies st"
  by (simp_all add: Server_Process_def Server_Connect_def Server_ConnectStun_def
      Server_ConnectProxy_def Server_refuse_def Server_Heartbeat_def Server_Subscribe_def
      Let_def split: option.splits Command_Protocol.splits Connect_Type.splits)

lemma reads_ReceiveCatch [simp]:
  "reads (Server_ReceiveCatch L a st) = reads st"
  "proxies (Server_ReceiveCatch L a st) = proxies st"
  by (simp_all add: Server_ReceiveCatch_def Let_def)

lemma reads_SendP2P [simp]:
  "reads (Server_SendP2P L a i st) = add_mset a (reads st)"
  "proxies (Server_SendP2P L a i st) = proxies st"
  by (simp_all add: Server_SendP2P_def Let_def split: sum.splits)

lemma reads_HandleSendP2P:
  "Server_HandleSendP2P L to from ec st = Done t \<Longrightarrow> reads t = reads st"
  "Server_HandleSendP2P L to from ec st = Done t \<Longrightarrow> proxies t = proxies st"
  by (auto simp: Server_HandleSendP2P_def Let_def split: if_splits option.splits)

lemma reads_HandleDoSend:
  "Server_HandleDoSend ec st = Done t \<Longrightarrow> reads t = reads st"
  "Server_HandleDoSend ec st = Done t \<Longrightarrow> proxies t = proxies st"
  by (auto simp: Server_HandleDoSend_def split: list.splits option.splits)

lemma reads_HandleReceive:
  "reads (Server_HandleReceive L a ec n st) \<subseteq># add_mset a (reads st)"
  by (cases rule: Server_HandleReceive_cases [of L a ec n st]) (auto intro: subset_mset.order_trans)

subsection \<open>The session's fields that the relay looks at\<close>

lemma relay_ok_cong:
  "proxies t = proxies st \<Longrightarrow> sv_heap t = sv_heap st \<Longrightarrow> sv_proxy t = sv_proxy st \<Longrightarrow>
   relay_ok t = relay_ok st"
  by (simp add: relay_ok_def paired_iff)

text \<open>Closing sessions, and sessions that do not relay.\<close>

lemma relay_ok_mono:
  assumes "relay_ok st" and "proxies t \<subseteq># proxies st" and "sv_proxy t = sv_proxy st"
    and "\<And>a. a \<in># proxies st \<Longrightarrow> s_open (sv_heap t a) \<Longrightarrow> s_open (sv_heap st a) \<and>
      s_id (sv_heap t a) = s_id (sv_heap st a) \<and> s_type (sv_heap t a) = s_type (sv_heap st a)"
  shows "relay_ok t"
proof -
  have "a \<in># proxies st" if "a \<in># proxies t" for a
    using that mset_subset_eqD [OF assms(2)] by blast
  with assms(1,3,4) show ?thesis by (simp add: relay_ok_def paired_iff)
qed

lemma relay_ok_idle:
  "relay_ok st \<Longrightarrow> a \<notin># proxies st \<Longrightarrow> relay_ok (on_session a f st)"
  by (rule relay_ok_mono) auto

lemma relay_ok_keep:
  "relay_ok st \<Longrightarrow> (\<And>s. s_id (f s) = s_id s \<and> s_type (f s) = s_type s \<and> (s_open (f s) \<longrightarrow> s_open s)) \<Longrightarrow>
   relay_ok (on_session a f st)"
  by (rule relay_ok_mono) (auto split: if_splits)

lemma relay_ok_frame [simp]:
  "relay_ok (srv_signal sg st) = relay_ok st"
  "relay_ok (Server_Send L i t c st) = relay_ok st"
  "relay_ok (Server_notify L ns st) = relay_ok st"
  "relay_ok (st\<lparr>sv_stun := m\<rparr>) = relay_ok st"
  "relay_ok (st\<lparr>sv_subs := sm\<rparr>) = relay_ok st"
  "relay_ok (st\<lparr>sv_clock := n\<rparr>) = relay_ok st"
  "relay_ok (log_write b m' ec st) = relay_ok st"
  "task_proxy tk = [] \<Longrightarrow> relay_ok (srv_post tk st) = relay_ok st"
  "op_proxy x = [] \<Longrightarrow> relay_ok (srv_start x st) = relay_ok st"
  by (rule relay_ok_cong; simp)+

lemma RemoveSession_keeps:
  "s_type (fst (SessionMgr_RemoveSession i (h, m)) a) = s_type (h a)"
  "s_open (fst (SessionMgr_RemoveSession i (h, m)) a) \<Longrightarrow> s_open (h a)"
  by (auto simp: SessionMgr_RemoveSession_def split: option.splits if_splits)

lemma relay_ok_RemoveStun: "relay_ok st \<Longrightarrow> relay_ok (Server_RemoveStun i st)"
  by (rule relay_ok_mono) (auto simp: Server_RemoveStun_def Let_def RemoveSession_keeps)

lemma relay_ok_RemoveProxy:
  assumes "relay_ok st"
  shows "relay_ok (Server_RemoveProxy i st)"
proof (cases "map_of (sv_proxy st) i")
  case None
  then have "Server_RemoveProxy i st = st"
    by (simp add: Server_RemoveProxy_def ProxyMgr_RemoveSession_def)
  with assms show ?thesis by simp
next
  case (Some p)
  have "paired (Server_RemoveProxy i st) a"
    if a: "a \<in># proxies st" and o: "s_open (sv_heap (Server_RemoveProxy i st) a)" for a
  proof -
    from o Some have o': "s_open (sv_heap st a)" and d: "down_session p \<noteq> Some a" "up_session p \<noteq> Some a"
      by (auto simp: Server_RemoveProxy_def ProxyMgr_RemoveSession_def Let_def)
    from assms a o' have "paired st a" by (simp add: relay_ok_def)
    with d Some show ?thesis
      by (cases "s_type (sv_heap st a)")
        (auto simp: paired_iff Server_RemoveProxy_def ProxyMgr_RemoveSession_def Let_def um_simps
          own_side_def)
  qed
  then show ?thesis by (simp add: relay_ok_def)
qed

lemma relay_ok_timeout: "relay_ok st \<Longrightarrow> relay_ok (Server_HandleStunTimeout L ec i st)"
  by (auto simp: Server_HandleStunTimeout_def Let_def intro!: relay_ok_RemoveStun relay_ok_keep
      split: sum.splits)

lemma relay_ok_ReceiveCatch: "relay_ok st \<Longrightarrow> relay_ok (Server_ReceiveCatch L a st)"
  by (simp add: Server_ReceiveCatch_def Let_def relay_ok_RemoveStun)

lemma relay_ok_refuse: "relay_ok st \<Longrightarrow> a \<notin># proxies st \<Longrightarrow> relay_ok (Server_refuse a st)"
  by (simp add: Server_refuse_def relay_ok_idle)

text \<open>A pair only gains members.\<close>

lemma ProxyMgr_AddSession_keeps:
  assumes "map_of m i = Some p" and "own_side p t = Some a"
  shows "\<exists>q. map_of (fst (ProxyMgr_AddSession h b m)) i = Some q \<and> own_side q t = Some a"
  using assms
  by (auto simp: ProxyMgr_AddSession_def own_side_def um_simps split: option.splits SessionType.splits)

lemma ProxyMgr_AddSession_own:
  assumes "snd (ProxyMgr_AddSession h a m)"
  shows "\<exists>p. map_of (fst (ProxyMgr_AddSession h a m)) (s_id (h a)) = Some p \<and>
    own_side p (s_type (h a)) = Some a"
  using assms
  by (auto simp: ProxyMgr_AddSession_def own_side_def um_simps SessionPair_new_def
      split: option.splits SessionType.splits if_splits)

lemma relay_ok_ConnectProxy:
  assumes "relay_ok st" and idle: "a \<notin># proxies st"
  shows "relay_ok (fst (Server_ConnectProxy L a c t ct st)) \<and>
    (snd (Server_ConnectProxy L a c t ct st) = Inr False \<longrightarrow>
     paired (fst (Server_ConnectProxy L a c t ct st)) a)"
proof (cases "uuid_of_string L (connect_client_id c)")
  case None
  with assms show ?thesis by (simp add: Server_ConnectProxy_def)
next
  case (Some i)
  let ?st1 = "on_session a (Session_SetType t \<circ> Session_SetId i) st"
  let ?r = "ProxyMgr_AddSession (sv_heap ?st1) a (sv_proxy ?st1)"
  have st1: "relay_ok ?st1" by (rule relay_ok_idle) (use assms in auto)
  show ?thesis
  proof (cases "snd ?r")
    case False
    with Some have "Server_ConnectProxy L a c t ct st = (Server_refuse a ?st1, Inr True)"
      by (simp add: Server_ConnectProxy_def Let_def)
    with relay_ok_refuse [OF st1] idle show ?thesis by simp
  next
    case True
    let ?st2 = "?st1\<lparr>sv_proxy := fst ?r\<rparr>"
    have "relay_ok ?st2"
      unfolding relay_ok_def
    proof (intro allI impI)
      fix b assume b: "b \<in># proxies ?st2" and "s_open (sv_heap ?st2 b)"
      with st1 have "paired ?st1 b" by (simp add: relay_ok_def)
      then obtain p where "map_of (sv_proxy ?st1) (s_id (sv_heap ?st1 b)) = Some p"
        and "own_side p (s_type (sv_heap ?st1 b)) = Some b"
        unfolding paired_iff by blast
      from ProxyMgr_AddSession_keeps [OF this, of "sv_heap ?st1" a] show "paired ?st2 b"
        unfolding paired_iff by (simp del: on_session_sel(1))
    qed
    moreover have "paired ?st2 a"
      unfolding paired_iff using ProxyMgr_AddSession_own [OF True] by simp
    moreover from Some True obtain cmd where
      "Server_ConnectProxy L a c t ct st = (Server_Send L i t cmd ?st2, Inr False)"
      by (simp add: Server_ConnectProxy_def Let_def)
    ultimately show ?thesis by (simp add: paired_iff)
  qed
qed

section \<open>Handlers\<close>

lemma sv_fresh_frame [simp]:
  "sv_fresh (Server_RemoveStun i st) = sv_fresh st"
  "sv_fresh (Server_RemoveProxy i st) = sv_fresh st"
  "sv_fresh (Server_HandleStunTimeout L ec i st) = sv_fresh st"
  "sv_fresh (fst (Server_Process L a cmd st)) = sv_fresh st"
  "sv_fresh (Server_ReceiveCatch L a st) = sv_fresh st"
  "sv_fresh (Server_SendP2P L a i st) = sv_fresh st"
  by (simp_all add: Server_RemoveStun_def Server_RemoveProxy_def Server_HandleStunTimeout_def
      Server_ReceiveCatch_def Server_SendP2P_def Server_Process_def Server_Connect_def
      Server_ConnectStun_def Server_ConnectProxy_def Server_refuse_def Server_Heartbeat_def
      Server_Subscribe_def Let_def
      split: sum.splits option.splits Command_Protocol.splits Connect_Type.splits)

lemma sv_fresh_HandleReceive [simp]: "sv_fresh (Server_HandleReceive L a ec n st) = sv_fresh st"
  by (cases rule: Server_HandleReceive_cases [of L a ec n st]) auto

lemma relay_ok_ConnectStun:
  assumes "relay_ok st" and "a \<notin># proxies st"
  shows "relay_ok (fst (Server_ConnectStun L a c st))"
proof (cases "uuid_of_string L (connect_client_id c)")
  case None
  with assms show ?thesis by (simp add: Server_ConnectStun_def)
next
  case (Some i)
  let ?st1 = "on_session a (\<lambda>s. (Session_SetType STUN (Session_SetId i s))
                 \<lparr>s_timer := timer_wait i (timer_set (At (sv_clock st + 5)) (s_timer s))\<rparr>) st"
  have "relay_ok ?st1" by (rule relay_ok_idle) (use assms in auto)
  with Some assms(2) show ?thesis
    by (simp add: Server_ConnectStun_def Let_def relay_ok_refuse del: on_session_sel(1))
qed

lemma relay_ok_Process:
  assumes "relay_ok st" and "a \<notin># proxies st"
  shows "relay_ok (fst (Server_Process L a cmd st)) \<and>
    (snd (Server_Process L a cmd st) = Inr False \<longrightarrow> paired (fst (Server_Process L a cmd st)) a)"
proof (cases "protocol cmd")
  case Command_Protocol_Connect
  have "snd (Server_ConnectStun L a c st) \<noteq> Inr False" for c
    by (simp add: Server_ConnectStun_def Let_def split: option.splits)
  with Command_Protocol_Connect show ?thesis
    using relay_ok_ConnectProxy [OF assms] relay_ok_ConnectStun [OF assms] assms(1)
    by (simp add: Server_Process_def Server_Connect_def split: option.splits Connect_Type.splits)
next
  case Command_Protocol_Heartbeat
  then show ?thesis
    using relay_ok_idle [OF assms] assms(1)
    by (simp add: Server_Process_def Server_Heartbeat_def Let_def)
next
  case Command_Protocol_Subscribe
  then show ?thesis
    using assms(1)
    by (simp add: Server_Process_def Server_Subscribe_def Let_def split: option.splits)
qed (use assms in \<open>simp_all add: Server_Process_def split: option.splits\<close>)

lemma relay_ok_HandleReceive:
  assumes "relay_ok st" and idle: "a \<notin># proxies st"
  shows "relay_ok (Server_HandleReceive L a ec n st)"
proof (cases rule: Server_HandleReceive_cases [of L a ec n st])
  case (catch st1)
  then have "relay_ok st1"
    using relay_ok_Process [OF assms] relay_ok_idle [OF assms] assms(1) by auto
  with catch show ?thesis by (simp add: relay_ok_ReceiveCatch)
next
  case (p2p i)
  let ?st1 = "on_session a (Session_SetBytesTransferred n) st"
  have "relay_ok (Server_SendP2P L a i ?st1)"
    unfolding Server_SendP2P_def Let_def
    by (cases "SessionMgr_Find i (sv_stun st)") (simp_all add: relay_ok_idle idle assms)
  with p2p show ?thesis by simp
next
  case (process cmd again)
  let ?st1 = "fst (Server_Process L a cmd st)"
  let ?st2 = "on_session a (\<lambda>s. s\<lparr>s_buffer := drop n (s_buffer s)\<rparr>) ?st1"
  have st2: "relay_ok ?st2"
    using relay_ok_Process [OF assms, of L cmd] idle by (intro relay_ok_idle) auto
  show ?thesis
  proof (cases again)
    case True
    with process st2 show ?thesis by simp
  next
    case False
    with process relay_ok_Process [OF assms, of L cmd] have "paired ?st2 a" by (simp add: paired_iff)
    with st2 False process show ?thesis by (auto simp: relay_ok_def paired_iff)
  qed
qed

text \<open>The relay, from a session that is the member of its side.\<close>

lemma Server_HandleReceiveProxy_paired:
  assumes "paired st a" and "\<not> failed ec"
  shows "\<exists>p. map_of (sv_proxy st) (s_id (sv_heap st a)) = Some p \<and>
    own_side p (s_type (sv_heap st a)) = Some a \<and>
    Server_HandleReceiveProxy a ec n st =
      (case other_side p (s_type (sv_heap st a)) of
         None \<Rightarrow> Crash
       | Some b \<Rightarrow> Done (srv_start (O_WriteProxy b a (take n (s_buffer (sv_heap st a))))
           (on_session a (Session_SetBytesTransferred n) st)))"
proof -
  from assms(1) obtain p where p: "map_of (sv_proxy st) (s_id (sv_heap st a)) = Some p"
    "own_side p (s_type (sv_heap st a)) = Some a" unfolding paired_iff by blast
  with assms(2) show ?thesis
    by (cases "s_type (sv_heap st a)")
      (auto simp: Server_HandleReceiveProxy_def ProxyMgr_FindPair_def Server_SendProxy_def Let_def
        own_side_def other_side_def split: option.splits)
qed

lemma paired_drop_op [simp]: "paired (drop_op i st) a = paired st a"
  by (simp add: paired_iff)

lemma paired_buffer [simp]: "paired (on_session b (\<lambda>s. s\<lparr>s_buffer := f s\<rparr>) st) a = paired st a"
  by (simp add: paired_iff)

lemma paired_bytes [simp]: "paired (on_session b (Session_SetBytesTransferred n) st) a = paired st a"
  by (simp add: paired_iff)

lemma HandleReceiveProxy_inv:
  assumes "relay_ok st" and "failed ec \<or> paired st a"
    and "Server_HandleReceiveProxy a ec n st = Done t"
  shows "relay_ok t \<and> reads t \<subseteq># add_mset a (reads st) \<and> sv_fresh t = sv_fresh st"
proof (cases "failed ec")
  case True
  with assms show ?thesis
    by (auto simp: Server_HandleReceiveProxy_def intro: relay_ok_RemoveProxy)
next
  case False
  with assms(2) have "paired st a" by simp
  from Server_HandleReceiveProxy_paired [OF this False, of n] assms(3) obtain b where
    t: "t = srv_start (O_WriteProxy b a (take n (s_buffer (sv_heap st a))))
           (on_session a (Session_SetBytesTransferred n) st)"
    by (auto split: option.splits)
  have "relay_ok (on_session a (Session_SetBytesTransferred n) st)"
    by (rule relay_ok_keep [OF assms(1)]) simp
  with \<open>paired st a\<close> have "relay_ok t" unfolding t by (auto simp: relay_ok_def paired_iff)
  with t show ?thesis by simp
qed

section \<open>The invariants of a step\<close>

definition srv_inv :: "Server \<Rightarrow> bool" where
  "srv_inv st \<longleftrightarrow> one_reader st \<and> relay_ok st"

lemma one_reader_mono:
  "one_reader st \<Longrightarrow> reads t \<subseteq># reads st \<Longrightarrow> sv_fresh t = sv_fresh st \<Longrightarrow> one_reader t"
  unfolding one_reader_def by (metis le_trans mset_subset_eq_count)

lemma srv_invI:
  "one_reader st \<Longrightarrow> reads t \<subseteq># reads st \<Longrightarrow> sv_fresh t = sv_fresh st \<Longrightarrow> relay_ok t \<Longrightarrow> srv_inv t"
  by (simp add: srv_inv_def one_reader_mono)

lemma relay_ok_drop_op: "i < length (sv_pending st) \<Longrightarrow> relay_ok st \<Longrightarrow> relay_ok (drop_op i st)"
  by (rule relay_ok_mono) (auto simp: reads_drop_op(2) [of i st])

lemma one_reader_drop_op:
  assumes "one_reader st" and "i < length (sv_pending st)" and "a \<in> set (op_reads (sv_pending st ! i))"
  shows "a \<notin># reads (drop_op i st)" "a < sv_fresh st"
proof -
  from assms(3) have "op_reads (sv_pending st ! i) = [a]"
    by (cases "sv_pending st ! i") auto
  with reads_drop_op(1) [OF assms(2)] have r: "reads st = add_mset a (reads (drop_op i st))" by simp
  from assms(1) have "count (reads st) a \<le> (if a < sv_fresh st then 1 else 0)"
    by (simp add: one_reader_def)
  with r show "a \<notin># reads (drop_op i st)" "a < sv_fresh st"
    by (auto simp: not_in_iff split: if_splits)
qed

lemma srv_inv_Accept:
  assumes "srv_inv st"
  shows "srv_inv (Server_Accept raw st)"
proof -
  have new: "sv_fresh st \<notin># reads st"
    using assms by (simp add: srv_inv_def one_reader_def not_in_iff) (metis le_zero_eq less_irrefl)
  then have idle: "sv_fresh st \<notin># proxies st" using proxies_reads by blast
  have "one_reader (Server_Accept raw st)"
    unfolding one_reader_def
  proof
    fix a
    have "count (reads st) a \<le> (if a < sv_fresh st then 1 else 0)"
      using assms by (simp add: srv_inv_def one_reader_def)
    then show "count (reads (Server_Accept raw st)) a \<le> (if a < sv_fresh (Server_Accept raw st) then 1 else 0)"
      using new by (auto simp: Server_Accept_def not_in_iff less_Suc_eq split: if_splits)
  qed
  moreover have "relay_ok (Server_Accept raw st)"
    by (rule relay_ok_mono [of st])
      (use assms idle in \<open>auto simp: srv_inv_def Server_Accept_def\<close>)
  ultimately show ?thesis by (simp add: srv_inv_def)
qed

lemma srv_inv_HandleAccept:
  assumes "srv_inv st" and i: "i < length (sv_pending st)" and op: "sv_pending st ! i = O_Accept a"
  shows "srv_inv (Server_HandleAccept a ec remote raw (drop_op i st))"
proof -
  let ?d = "drop_op i st"
  from assms(1) have inv: "one_reader st" "relay_ok st" by (simp_all add: srv_inv_def)
  have idle: "a \<notin># proxies ?d"
    using one_reader_drop_op [OF inv(1) i, of a] op proxies_reads by fastforce
  have "srv_inv ?d"
    by (rule srv_invI [OF inv(1)]) (simp_all add: reads_drop_op(1) [OF i] relay_ok_drop_op [OF i inv(2)])
  moreover have "srv_inv (srv_post (T_Receive a) (on_session a (\<lambda>s. s\<lparr>s_open := True, s_remote_ep := remote\<rparr>) ?d))"
    by (rule srv_invI [OF inv(1)])
      (use idle in \<open>simp_all add: reads_drop_op(1) [OF i] op relay_ok_idle relay_ok_drop_op [OF i inv(2)]\<close>)
  ultimately show ?thesis by (simp add: Server_HandleAccept_def srv_inv_Accept)
qed

lemma srv_inv_read_event:
  assumes inv: "srv_inv st" and i: "i < length (sv_pending st)"
    and op: "op_reads (sv_pending st ! i) = [a]"
    and handler: "\<And>ec n st' t. relay_ok st' \<Longrightarrow> a \<notin># reads st' \<Longrightarrow>
        (failed ec \<or> a \<notin># proxies st \<or> paired st' a) \<Longrightarrow> handler ec n st' = Done t \<Longrightarrow>
        relay_ok t \<and> reads t \<subseteq># add_mset a (reads st') \<and> sv_fresh t = sv_fresh st'"
    and fin: "read_event i a ec bs handler st = Done t"
  shows "srv_inv t"
proof -
  from inv have or: "one_reader st" and rel: "relay_ok st" by (simp_all add: srv_inv_def)
  let ?st1 = "on_session a (\<lambda>s. s\<lparr>s_buffer := s_buffer s @ bs\<rparr>) st"
  have r: "reads st = add_mset a (reads (drop_op i st))" using reads_drop_op(1) [OF i] op by simp
  have idle: "a \<notin># reads (drop_op i st)" using one_reader_drop_op [OF or i] op by simp
  have rel1: "relay_ok ?st1" by (rule relay_ok_keep [OF rel]) simp
  have d1: "reads (drop_op i ?st1) = reads (drop_op i st)" "proxies ?st1 = proxies st"
    by (simp_all add: reads_def proxies_def drop_op_def)
  show ?thesis
  proof (cases "failed ec")
    case True
    with fin have "handler ec 0 (drop_op i st) = Done t" by (simp add: read_event_def)
    from handler [OF relay_ok_drop_op [OF i rel] idle _ this] True r or show ?thesis
      by (auto intro: srv_invI)
  next
    case ok: False
    show ?thesis
    proof (cases "s_open (sv_heap st a)")
      case False
      with ok fin inv show ?thesis by (simp add: read_event_def)
    next
      case True
      show ?thesis
      proof (cases "read_until delimiter (s_buffer (sv_heap ?st1 a))")
        case None
        with ok True fin have "t = ?st1" by (simp add: read_event_def Let_def)
        with rel1 or show ?thesis by (simp add: srv_inv_def one_reader_def)
      next
        case (Some n)
        with ok True fin have h: "handler ec_ok n (drop_op i ?st1) = Done t"
          by (simp add: read_event_def Let_def)
        have "a \<notin># proxies st \<or> paired (drop_op i ?st1) a"
          using rel True by (auto simp: relay_ok_def)
        with handler [OF relay_ok_drop_op [of i ?st1] _ _ h] i rel1 idle d1 r or show ?thesis
          by (auto intro: srv_invI)
      qed
    qed
  qed
qed

lemma srv_inv_same:
  "srv_inv st \<Longrightarrow> reads t = reads st \<Longrightarrow> sv_fresh t = sv_fresh st \<Longrightarrow> relay_ok t \<Longrightarrow> srv_inv t"
  by (rule srv_invI) (simp_all add: srv_inv_def)

lemma srv_inv_run_task:
  assumes inv: "srv_inv st" and i: "i < length (sv_posted st)"
  shows "srv_inv (run_task (sv_posted st ! i) (st\<lparr>sv_posted := remove_at i (sv_posted st)\<rparr>))"
proof -
  let ?t = "run_task (sv_posted st ! i) (st\<lparr>sv_posted := remove_at i (sv_posted st)\<rparr>)"
  have r: "reads ?t = reads st" "proxies ?t = proxies st"
    by (cases "sv_posted st ! i";
        simp add: run_task_def Server_Receive_def Server_ReceiveProxy_def Server_DoSend_def
          reads_def proxies_def mset_concat_remove_at [OF i])+
  have f: "sv_heap ?t = sv_heap st" "sv_proxy ?t = sv_proxy st" "sv_fresh ?t = sv_fresh st"
    by (cases "sv_posted st ! i";
        simp add: run_task_def Server_Receive_def Server_ReceiveProxy_def Server_DoSend_def)+
  from inv show ?thesis
    by (intro srv_inv_same [OF inv r(1) f(3)]) (simp add: relay_ok_cong [OF r(2) f(1,2)] srv_inv_def)
qed

lemma HandleDoSend_frame:
  "Server_HandleDoSend ec st = Done t \<Longrightarrow>
   sv_heap t = sv_heap st \<and> sv_proxy t = sv_proxy st \<and> sv_fresh t = sv_fresh st"
  by (auto simp: Server_HandleDoSend_def split: list.splits option.splits)

lemma HandleSendP2P_frame:
  "Server_HandleSendP2P L to from ec st = Done t \<Longrightarrow>
   sv_heap t = sv_heap st \<and> sv_proxy t = sv_proxy st \<and> sv_fresh t = sv_fresh st"
  by (auto simp: Server_HandleSendP2P_def Let_def split: if_splits option.splits)

text \<open>A write that is not of the relay has completed.\<close>

lemma srv_inv_written:
  assumes "srv_inv st" and i: "i < length (sv_pending st)"
    and "op_reads (sv_pending st ! i) = []" and "op_proxy (sv_pending st ! i) = []"
    and "reads t = reads (drop_op i st)" and "proxies t = proxies (drop_op i st)"
    and "sv_heap t = sv_heap st" and "sv_proxy t = sv_proxy st" and "sv_fresh t = sv_fresh st"
  shows "srv_inv t"
  by (rule srv_inv_same [OF assms(1)])
    (use assms reads_drop_op [OF i] relay_ok_cong [of t st] in \<open>simp_all add: srv_inv_def\<close>)

lemma srv_inv_write_event:
  assumes inv: "srv_inv st" and i: "i < length (sv_pending st)"
    and fin: "write_event L i ec st = Done t"
  shows "srv_inv t"
proof -
  from inv have or: "one_reader st" and rel: "relay_ok st" by (simp_all add: srv_inv_def)
  note dr = reads_drop_op [OF i] relay_ok_drop_op [OF i rel]
  show ?thesis
  proof (cases "sv_pending st ! i")
    case (O_Write a m)
    show ?thesis
    proof (cases "write_ok a ec st")
      case True
      with O_Write fin have d: "Server_HandleDoSend ec (log_write a m ec (drop_op i st)) = Done t"
        by (simp add: write_event_def)
      show ?thesis
        by (rule srv_inv_written [OF inv i])
          (simp_all add: O_Write reads_HandleDoSend [OF d] HandleDoSend_frame [OF d])
    qed (use O_Write fin inv in \<open>simp add: write_event_def\<close>)
  next
    case (O_WriteP2P to fr m)
    show ?thesis
    proof (cases "write_ok to ec st")
      case True
      with O_WriteP2P fin have d: "Server_HandleSendP2P L to fr ec (log_write to m ec (drop_op i st)) = Done t"
        by (simp add: write_event_def)
      show ?thesis
        by (rule srv_inv_written [OF inv i])
          (simp_all add: O_WriteP2P reads_HandleSendP2P [OF d] HandleSendP2P_frame [OF d])
    qed (use O_WriteP2P fin inv in \<open>simp add: write_event_def\<close>)
  next
    case (O_WriteProxy to fr m)
    show ?thesis
    proof (cases "write_ok to ec st")
      case True
      with O_WriteProxy fin have t: "t = Server_HandleSendProxy fr ec (length m) (log_write to m ec (drop_op i st))"
        by (simp add: write_event_def)
      show ?thesis
      proof (rule srv_invI [OF or])
        show "relay_ok t"
          by (rule relay_ok_mono [OF rel])
            (use dr O_WriteProxy t in \<open>auto simp: Server_HandleSendProxy_def split: if_splits\<close>)
      qed (use dr O_WriteProxy t in \<open>simp_all add: Server_HandleSendProxy_def\<close>)
    qed (use O_WriteProxy fin inv in \<open>simp add: write_event_def\<close>)
  qed (use fin inv in \<open>simp_all add: write_event_def\<close>)
qed

lemma srv_inv_timer_event:
  assumes "srv_inv st"
  shows "srv_inv (timer_event L a j st)"
proof -
  have "relay_ok (on_session a (\<lambda>s. s\<lparr>s_timer := x\<rparr>) st)" for x
    by (rule relay_ok_keep) (use assms in \<open>simp_all add: srv_inv_def\<close>)
  with assms show ?thesis
    by (auto simp: timer_event_def intro!: srv_inv_same [OF assms] relay_ok_timeout split: prod.splits)
qed

lemma srv_inv_Stop:
  assumes "srv_inv st"
  shows "srv_inv (Server_Stop st)"
proof (rule srv_inv_same [OF assms])
  have rel: "relay_ok st" using assms by (simp add: srv_inv_def)
  have "s_id (fold (\<lambda>e h. h(snd e := Session_Stop (h (snd e)))) m h a) = s_id (h a) \<and>
      s_type (fold (\<lambda>e h. h(snd e := Session_Stop (h (snd e)))) m h a) = s_type (h a) \<and>
      (s_open (fold (\<lambda>e h. h(snd e := Session_Stop (h (snd e)))) m h a) \<longrightarrow> s_open (h a))"
    for m :: "(uuid, addr) um" and h a
    by (simp add: stop_all_apply)
  then show "relay_ok (Server_Stop st)"
    by (intro relay_ok_mono [OF rel]) (simp_all add: Server_Stop_def Let_def SessionMgr_Stop_def)
qed (simp_all add: Server_Stop_def Let_def)

lemma srv_inv_step:
  assumes inv: "srv_inv st" and step: "srv_step L e st = Done t"
  shows "srv_inv t"
proof (cases e)
  case (E_Run i)
  with step inv show ?thesis by (auto intro: srv_inv_run_task split: if_splits)
next
  case (E_Accept i ec remote raw)
  with step inv show ?thesis
    by (auto intro: srv_inv_HandleAccept split: if_splits srv_op.splits)
next
  case (E_Read i ec bs)
  show ?thesis
  proof (cases "isRunning (sv_core st) \<and> i < length (sv_pending st)")
    case True
    then have i: "i < length (sv_pending st)" by simp
    show ?thesis
    proof (cases "sv_pending st ! i")
      case (O_Read a)
      with True E_Read step have "read_event i a ec bs (\<lambda>ec n st. Done (Server_HandleReceive L a ec n st)) st = Done t"
        by simp
      then show ?thesis
        by (rule srv_inv_read_event [OF inv i, rotated 2])
          (use O_Read proxies_reads reads_HandleReceive in \<open>auto intro: relay_ok_HandleReceive\<close>)
    next
      case (O_ReadProxy a)
      with True E_Read step have "read_event i a ec bs (Server_HandleReceiveProxy a) st = Done t"
        by simp
      moreover have "a \<in># proxies st" using O_ReadProxy by (simp add: reads_drop_op(2) [OF i])
      ultimately show ?thesis
        by (intro srv_inv_read_event [OF inv i _ HandleReceiveProxy_inv])
          (use O_ReadProxy in auto)
    qed (use True E_Read step inv in simp_all)
  qed (use E_Read step inv in auto)
next
  case (E_Write i ec)
  with step inv show ?thesis by (auto intro: srv_inv_write_event split: if_splits)
next
  case (E_Timer a j)
  with step inv show ?thesis by (auto intro: srv_inv_timer_event split: if_splits)
next
  case (E_Tick n)
  with step inv show ?thesis
    by (intro srv_inv_same [OF inv]) (auto simp: srv_inv_def)
next
  case E_Stop
  with step inv show ?thesis by (auto simp: srv_inv_Stop)
qed

section \<open>The buffer of a relayed message\<close>

text \<open>
  A relay's write takes its bytes from the stream buffer of the session it reads from. The
  buffer must keep them until the write completes.
\<close>

definition relay_buffer :: "Server \<Rightarrow> bool" where
  "relay_buffer st \<longleftrightarrow> (\<forall>x \<in> set (sv_pending st). case x of
     O_WriteProxy b a m \<Rightarrow>
       read_until delimiter (s_buffer (sv_heap st a)) = Some (length m) \<and>
       m = take (length m) (s_buffer (sv_heap st a))
   | _ \<Rightarrow> True)"

lemma relay_buffer_iff:
  "relay_buffer st \<longleftrightarrow> (\<forall>b a m. O_WriteProxy b a m \<in> set (sv_pending st) \<longrightarrow>
     read_until delimiter (s_buffer (sv_heap st a)) = Some (length m) \<and>
     m = take (length m) (s_buffer (sv_heap st a)))"
  by (fastforce simp: relay_buffer_def split: srv_op.splits)

definition not_relay :: "srv_op \<Rightarrow> bool" where
  "not_relay x = (case x of O_WriteProxy b a m \<Rightarrow> False | _ \<Rightarrow> True)"

lemma not_relay_simps [simp]:
  "not_relay (O_Accept a)" "not_relay (O_Read a)" "not_relay (O_ReadProxy a)"
  "not_relay (O_Write a m)" "not_relay (O_WriteP2P a b m)" "\<not> not_relay (O_WriteProxy a b m)"
  by (simp_all add: not_relay_def)

lemma relay_buffer_mono:
  assumes "relay_buffer st"
    and "\<And>x. x \<in> set (sv_pending t) \<Longrightarrow> x \<in> set (sv_pending st) \<or> not_relay x"
    and "\<And>b a m. O_WriteProxy b a m \<in> set (sv_pending t) \<Longrightarrow>
      s_buffer (sv_heap t a) = s_buffer (sv_heap st a)"
  shows "relay_buffer t"
  using assms unfolding relay_buffer_iff by (metis not_relay_simps(6))

lemma set_remove_at: "x \<in> set (remove_at i xs) \<Longrightarrow> x \<in> set xs"
  by (auto simp: remove_at_def dest: in_set_takeD in_set_dropD)

lemma in_drop_op: "x \<in> set (sv_pending (drop_op i st)) \<Longrightarrow> x \<in> set (sv_pending st)"
  by (auto simp: drop_op_def dest: set_remove_at)

lemma relay_in_reads: "O_WriteProxy b a m \<in> set (sv_pending st) \<Longrightarrow> a \<in># reads st"
  by (force simp: reads_def)

text \<open>Who changes a buffer: the read of the session itself.\<close>

lemma SessionMgr_RemoveSession_buffer [simp]:
  "s_buffer (fst (SessionMgr_RemoveSession i (h, m)) a) = s_buffer (h a)"
  by (simp add: SessionMgr_RemoveSession_def split: option.splits)

lemma stop_opt_buffer [simp]: "s_buffer (stop_opt x h a) = s_buffer (h a)"
  by (simp add: stop_opt_def split: option.splits)

lemma ProxyMgr_RemoveSession_buffer [simp]:
  "s_buffer (fst (ProxyMgr_RemoveSession i (h, m)) a) = s_buffer (h a)"
  by (simp add: ProxyMgr_RemoveSession_def split: option.splits)

lemma buffer_frame [simp]:
  "s_buffer (sv_heap (Server_RemoveStun i st) b) = s_buffer (sv_heap st b)"
  "s_buffer (sv_heap (Server_RemoveProxy i st) b) = s_buffer (sv_heap st b)"
  "s_buffer (sv_heap (Server_ReceiveCatch L a st) b) = s_buffer (sv_heap st b)"
  "s_buffer (sv_heap (Server_HandleStunTimeout L ec i st) b) = s_buffer (sv_heap st b)"
  "s_buffer (sv_heap (fst (Server_Process L a cmd st)) b) = s_buffer (sv_heap st b)"
  by (simp_all add: Server_RemoveStun_def Server_RemoveProxy_def Server_HandleStunTimeout_def
      Server_ReceiveCatch_def Server_Process_def Server_Connect_def
      Server_ConnectStun_def Server_ConnectProxy_def Server_refuse_def Server_Heartbeat_def
      Server_Subscribe_def Let_def
      split: sum.splits option.splits Command_Protocol.splits Connect_Type.splits)

lemma pending_frame [simp]:
  "sv_pending (Server_RemoveStun i st) = sv_pending st"
  "sv_pending (Server_RemoveProxy i st) = sv_pending st"
  "sv_pending (Server_ReceiveCatch L a st) = sv_pending st"
  "sv_pending (Server_HandleStunTimeout L ec i st) = sv_pending st"
  "sv_pending (fst (Server_Process L a cmd st)) = sv_pending st"
  by (simp_all add: Server_RemoveStun_def Server_RemoveProxy_def Server_HandleStunTimeout_def
      Server_ReceiveCatch_def Server_Process_def Server_Connect_def
      Server_ConnectStun_def Server_ConnectProxy_def Server_refuse_def Server_Heartbeat_def
      Server_Subscribe_def Let_def
      split: sum.splits option.splits Command_Protocol.splits Connect_Type.splits)

lemma SendP2P_frame:
  "b \<noteq> a \<Longrightarrow> s_buffer (sv_heap (Server_SendP2P L a i st) b) = s_buffer (sv_heap st b)"
  "x \<in> set (sv_pending (Server_SendP2P L a i st)) \<Longrightarrow> x \<in> set (sv_pending st) \<or> not_relay x"
  by (auto simp: Server_SendP2P_def Let_def split: sum.splits)

lemma HandleReceive_frame:
  "b \<noteq> a \<Longrightarrow> s_buffer (sv_heap (Server_HandleReceive L a ec n st) b) = s_buffer (sv_heap st b)"
  "x \<in> set (sv_pending (Server_HandleReceive L a ec n st)) \<Longrightarrow> x \<in> set (sv_pending st) \<or> not_relay x"
  by (cases rule: Server_HandleReceive_cases [of L a ec n st]; auto simp: SendP2P_frame dest: SendP2P_frame(2))+

lemma relay_buffer_drop_op: "relay_buffer st \<Longrightarrow> relay_buffer (drop_op i st)"
  by (rule relay_buffer_mono [of st]) (auto dest: in_drop_op)

lemma relay_buffer_same:
  "relay_buffer st \<Longrightarrow> sv_pending t = sv_pending st \<Longrightarrow>
   (\<And>a. s_buffer (sv_heap t a) = s_buffer (sv_heap st a)) \<Longrightarrow> relay_buffer t"
  by (simp add: relay_buffer_iff)

text \<open>A session whose read has completed has no relay write.\<close>

lemma relay_buffer_idle:
  assumes "relay_buffer st" and "a \<notin># reads st"
    and "\<And>x. x \<in> set (sv_pending t) \<Longrightarrow> x \<in> set (sv_pending st) \<or> not_relay x"
    and "\<And>b. b \<noteq> a \<Longrightarrow> s_buffer (sv_heap t b) = s_buffer (sv_heap st b)"
  shows "relay_buffer t"
proof (rule relay_buffer_mono [OF assms(1,3)])
  fix b f m assume "O_WriteProxy b f m \<in> set (sv_pending t)"
  with assms(3) have "O_WriteProxy b f m \<in> set (sv_pending st)" by force
  with relay_in_reads assms(2) have "f \<noteq> a" by blast
  then show "s_buffer (sv_heap t f) = s_buffer (sv_heap st f)" by (rule assms(4))
qed

lemma relay_buffer_HandleReceiveProxy:
  assumes rb: "relay_buffer st" and idle: "a \<notin># reads st" and "failed ec \<or> paired st a"
    and n: "\<not> failed ec \<Longrightarrow> read_until delimiter (s_buffer (sv_heap st a)) = Some n"
    and fin: "Server_HandleReceiveProxy a ec n st = Done t"
  shows "relay_buffer t"
proof (cases "failed ec")
  case True
  with fin have "t = Server_RemoveProxy (s_id (sv_heap st a)) st"
    by (simp add: Server_HandleReceiveProxy_def)
  with rb show ?thesis by (auto intro: relay_buffer_same [OF rb])
next
  case False
  with assms(3) have "paired st a" by simp
  from Server_HandleReceiveProxy_paired [OF this False, of n] fin obtain b where
    t: "t = srv_start (O_WriteProxy b a (take n (s_buffer (sv_heap st a))))
           (on_session a (Session_SetBytesTransferred n) st)"
    by (auto split: option.splits)
  have "relay_buffer (on_session a (Session_SetBytesTransferred n) st)"
    by (rule relay_buffer_same [OF rb]) simp_all
  with n [OF False] read_until_bounds [OF n [OF False]] show ?thesis
    unfolding t by (auto simp: relay_buffer_iff min_def)
qed

lemma relay_buffer_read_event:
  assumes inv: "srv_inv st" and rb: "relay_buffer st" and i: "i < length (sv_pending st)"
    and op: "op_reads (sv_pending st ! i) = [a]"
    and handler: "\<And>ec n st' t. relay_buffer st' \<Longrightarrow> a \<notin># reads st' \<Longrightarrow>
        (failed ec \<or> a \<notin># proxies st \<or> paired st' a) \<Longrightarrow>
        (\<not> failed ec \<Longrightarrow> read_until delimiter (s_buffer (sv_heap st' a)) = Some n) \<Longrightarrow>
        handler ec n st' = Done t \<Longrightarrow> relay_buffer t"
    and fin: "read_event i a ec bs handler st = Done t"
  shows "relay_buffer t"
proof -
  from inv have or: "one_reader st" and rel: "relay_ok st" by (simp_all add: srv_inv_def)
  let ?st1 = "on_session a (\<lambda>s. s\<lparr>s_buffer := s_buffer s @ bs\<rparr>) st"
  have idle: "a \<notin># reads (drop_op i st)" using one_reader_drop_op [OF or i] op by simp
  have d1: "reads (drop_op i ?st1) = reads (drop_op i st)"
    by (simp add: reads_def drop_op_def)
  have rb1: "relay_buffer (drop_op i ?st1)"
    by (rule relay_buffer_idle [OF relay_buffer_drop_op [OF rb] idle]) (auto simp: drop_op_def)
  show ?thesis
  proof (cases "failed ec")
    case True
    with fin have "handler ec 0 (drop_op i st) = Done t" by (simp add: read_event_def)
    from handler [OF relay_buffer_drop_op [OF rb] idle _ _ this] True show ?thesis by blast
  next
    case ok: False
    show ?thesis
    proof (cases "s_open (sv_heap st a)")
      case False
      with ok fin rb show ?thesis by (simp add: read_event_def)
    next
      case True
      show ?thesis
      proof (cases "read_until delimiter (s_buffer (sv_heap ?st1 a))")
        case None
        with ok True fin have t: "t = ?st1" by (simp add: read_event_def Let_def)
        have "s_buffer (sv_heap t f) = s_buffer (sv_heap st f)"
          if w: "O_WriteProxy b f m \<in> set (sv_pending t)" for b f m
        proof -
          from w t have w': "O_WriteProxy b f m \<in> set (sv_pending st)" by simp
          have "f \<noteq> a"
          proof
            assume "f = a"
            with w' rb have "read_until delimiter (s_buffer (sv_heap st a)) = Some (length m)"
              by (fastforce simp: relay_buffer_iff)
            from read_until_append [OF this, of bs] None show False by simp
          qed
          with t show ?thesis by simp
        qed
        then show ?thesis by (intro relay_buffer_mono [OF rb]) (auto simp: t)
      next
        case (Some n)
        with ok True fin have h: "handler ec_ok n (drop_op i ?st1) = Done t"
          by (simp add: read_event_def Let_def)
        have "a \<notin># proxies st \<or> paired (drop_op i ?st1) a"
          using rel True by (auto simp: relay_ok_def)
        with handler [OF rb1 _ _ _ h] idle d1 Some show ?thesis by auto
      qed
    qed
  qed
qed

lemma relay_buffer_step:
  assumes inv: "srv_inv st" and rb: "relay_buffer st" and step: "srv_step L e st = Done t"
  shows "relay_buffer t"
proof (cases e)
  case (E_Run i)
  with step rb show ?thesis
    by (auto simp: run_task_def Server_Receive_def Server_ReceiveProxy_def Server_DoSend_def
      intro!: relay_buffer_mono [OF rb] split: if_splits srv_task.splits)
next
  case (E_Accept i ec remote raw)
  show ?thesis
  proof (cases "isRunning (sv_core st) \<and> i < length (sv_pending st) \<and> (\<exists>a. sv_pending st ! i = O_Accept a)")
    case True
    then obtain a where t: "t = Server_HandleAccept a ec remote raw (drop_op i st)"
      using step E_Accept by auto
    have "sv_fresh st \<notin># reads st"
      using inv by (simp add: srv_inv_def one_reader_def not_in_iff) (metis le_zero_eq less_irrefl)
    then have "sv_fresh st \<notin># reads (drop_op i st)"
      using reads_drop_op(1) [of i st] True by auto
    with t show ?thesis
      by (intro relay_buffer_mono [OF relay_buffer_drop_op [OF rb, of i]])
        (auto simp: Server_HandleAccept_def Server_Accept_def dest!: in_drop_op relay_in_reads split: if_splits)
  qed (use E_Accept step rb in \<open>auto split: if_splits srv_op.splits\<close>)
next
  case (E_Read i ec bs)
  show ?thesis
  proof (cases "isRunning (sv_core st) \<and> i < length (sv_pending st)")
    case True
    then have i: "i < length (sv_pending st)" by simp
    show ?thesis
    proof (cases "sv_pending st ! i")
      case (O_Read a)
      with True E_Read step have ev: "read_event i a ec bs (\<lambda>ec n st. Done (Server_HandleReceive L a ec n st)) st = Done t"
        by simp
      show ?thesis
      proof (rule relay_buffer_read_event [OF inv rb i _ _ ev])
        fix ec n st' t'
        assume st': "relay_buffer st'" "a \<notin># reads st'" and "Done (Server_HandleReceive L a ec n st') = Done t'"
        then have t': "t' = Server_HandleReceive L a ec n st'" by simp
        show "relay_buffer t'"
          unfolding t' by (rule relay_buffer_idle [OF st']) (auto simp: HandleReceive_frame dest: HandleReceive_frame(2))
      qed (simp add: O_Read)
    next
      case (O_ReadProxy a)
      with True E_Read step have ev: "read_event i a ec bs (Server_HandleReceiveProxy a) st = Done t"
        by simp
      have a: "a \<in># proxies st" using O_ReadProxy by (simp add: reads_drop_op(2) [OF i])
      show ?thesis
        by (rule relay_buffer_read_event [OF inv rb i _ relay_buffer_HandleReceiveProxy ev])
          (use a O_ReadProxy in auto)
    qed (use True E_Read step rb in simp_all)
  qed (use E_Read step rb in auto)
next
  case (E_Write i ec)
  show ?thesis
  proof (cases "isRunning (sv_core st) \<and> i < length (sv_pending st)")
    case True
    then have i: "i < length (sv_pending st)" by simp
    from True E_Write step have ev: "write_event L i ec st = Done t" by simp
    show ?thesis
    proof (cases "sv_pending st ! i")
      case (O_WriteProxy b a m)
      have "a \<notin># reads (drop_op i st)"
        using one_reader_drop_op [of st i a] inv i O_WriteProxy by (simp add: srv_inv_def)
      with O_WriteProxy ev rb show ?thesis
        by (cases "write_ok b ec st")
          (auto simp: write_event_def Server_HandleSendProxy_def
            intro!: relay_buffer_idle [OF relay_buffer_drop_op [OF rb, of i]] split: if_splits)
    next
      case (O_WriteP2P b a m)
      with ev rb show ?thesis
        by (cases "write_ok b ec st")
          (auto simp: write_event_def Server_HandleSendP2P_def Let_def
            intro!: relay_buffer_same [OF relay_buffer_drop_op [OF rb, of i]] split: if_splits option.splits)
    next
      case (O_Write a m)
      with ev rb show ?thesis
        by (cases "write_ok a ec st")
          (auto simp: write_event_def Server_HandleDoSend_def
            intro!: relay_buffer_same [OF relay_buffer_drop_op [OF rb, of i]]
            split: list.splits option.splits)
    qed (use ev rb in \<open>auto simp: write_event_def\<close>)
  qed (use E_Write step rb in auto)
next
  case (E_Timer a j)
  with step rb show ?thesis
    by (auto simp: timer_event_def intro!: relay_buffer_same [OF rb] split: if_splits prod.splits)
next
  case (E_Tick n)
  with step rb show ?thesis by (auto simp: relay_buffer_iff)
next
  case E_Stop
  have "s_buffer (fold (\<lambda>e h. h(snd e := Session_Stop (h (snd e)))) m h a) = s_buffer (h a)"
    for m :: "(uuid, addr) um" and h a
    by (simp add: stop_all_apply)
  with E_Stop step rb show ?thesis
    by (auto simp: Server_Stop_def Let_def SessionMgr_Stop_def intro!: relay_buffer_same [OF rb])
qed

end
