(* ===== verification/Nat_Server_Claims.thy ===== *)
theory Nat_Server_Claims
  imports Nat_Server_Inv
begin

text \<open>
  The properties of the server, over every state that a run of the machine reaches, with
  their witnesses. The witnesses run the machine on a concrete script of events.
\<close>

section \<open>Reachable states\<close>

inductive srv_reachable :: "lib \<Rightarrow> Server \<Rightarrow> bool" for L where
  start: "srv_reachable L (Server_Start listening raw Server_Construct)"
| step: "srv_reachable L st \<Longrightarrow> srv_step L e st = Done t \<Longrightarrow> srv_reachable L t"

inductive_cases srv_reachableE: "srv_reachable L st"

lemma srv_reachable_steps:
  "srv_reachable L st \<Longrightarrow> srv_steps L es st = Done t \<Longrightarrow> srv_reachable L t"
  by (induction es arbitrary: st) (auto intro: srv_reachable.step)

lemma srv_one_write_Construct: "srv_one_write Server_Construct"
  by (simp add: srv_one_write_def srv_inflight_def Server_Construct_def)

lemma srv_inv_Construct: "srv_inv Server_Construct"
  by (simp add: srv_inv_def one_reader_def relay_ok_def reads_def proxies_def Server_Construct_def)

lemma reachable_one_write: "srv_reachable L st \<Longrightarrow> srv_one_write st"
proof (induction rule: srv_reachable.induct)
  case (start listening raw)
  then show ?case by (simp add: Server_Start_def srv_one_write_Construct)
next
  case (step st e t)
  then show ?case by (rule_tac srv_one_write_step)
qed

lemma reachable_inv: "srv_reachable L st \<Longrightarrow> srv_inv st"
proof (induction rule: srv_reachable.induct)
  case (start listening raw)
  then show ?case by (simp add: Server_Start_def srv_inv_Construct srv_inv_Accept)
next
  case (step st e t)
  then show ?case by (rule_tac srv_inv_step)
qed

section \<open>A script\<close>

text \<open>
  Library functions for the witnesses: a message is known by its first byte. Uuids are
  printed in unary, so the ids of the script are short.
\<close>

definition table_lib :: "(byte \<times> Command) list \<Rightarrow> lib" where
  "table_lib tbl = (sample_lib Command_new)\<lparr>parse := (\<lambda>bs. case bs of [] \<Rightarrow> None | b # _ \<Rightarrow> map_of tbl b)\<rparr>"

definition login_command :: "Connect_Type \<Rightarrow> string \<Rightarrow> Command" where
  "login_command t i = connect_command (Connect_new\<lparr>connect_type := t, connect_client_id := i\<rparr>)"

definition to_client :: "string \<Rightarrow> Command" where
  "to_client i = Command_new\<lparr>protocol := Command_Protocol_P2P, p2p := Some (P2P_new\<lparr>p2p_to := i\<rparr>)\<rparr>"

definition subscribe_command :: "string \<Rightarrow> Command" where
  "subscribe_command i = Command_new\<lparr>protocol := Command_Protocol_Subscribe,
     subscribe := Some \<lparr>subscribe_protocol = Subscribe_Protocol_Request,
       subscribe_client_id = Some i, subscribe_online = False\<rparr>\<rparr>"

definition script_lib :: lib where
  "script_lib = table_lib
     [(1, login_command Connect_Type_Stun ''1''), (2, login_command Connect_Type_Stun ''11''),
      (3, login_command Connect_Type_Proxydown ''111''), (4, login_command Connect_Type_Proxyup ''111''),
      (5, to_client ''11''), (6, to_client ''1111''), (7, subscribe_command ''1'')]"

definition reached_by :: "srv_event list \<Rightarrow> Server" where
  "reached_by es = (case srv_steps script_lib es (Server_Start True 0 Server_Construct) of
     Done st \<Rightarrow> st | _ \<Rightarrow> Server_Construct)"

definition returns :: "'s run \<Rightarrow> bool" where
  "returns r = (case r of Done st \<Rightarrow> True | _ \<Rightarrow> False)"

definition crashes :: "'s run \<Rightarrow> bool" where
  "crashes r = (case r of Crash \<Rightarrow> True | _ \<Rightarrow> False)"

lemma crashesD: "crashes r \<Longrightarrow> r = Crash"
  by (simp add: crashes_def split: run.splits)

lemma reached_by_steps:
  "returns (srv_steps script_lib es (Server_Start True 0 Server_Construct)) \<Longrightarrow>
   srv_steps script_lib es (Server_Start True 0 Server_Construct) = Done (reached_by es)"
  by (simp add: reached_by_def returns_def split: run.splits)

lemma reached_by_reachable:
  "returns (srv_steps script_lib es (Server_Start True 0 Server_Construct)) \<Longrightarrow>
   srv_reachable script_lib (reached_by es)"
  by (rule srv_reachable_steps [OF srv_reachable.start reached_by_steps])

text \<open>Two clients log in with the ids \<open>1\<close> and \<open>11\<close> while the first reply is being written.\<close>

definition two_clients :: "srv_event list" where
  "two_clients =
     [E_Accept 0 ec_ok None 0, E_Run 0, E_Read 1 ec_ok (1 # delimiter), E_Run 0, E_Run 0,
      E_Accept 0 ec_ok None 0, E_Run 0, E_Read 3 ec_ok (2 # delimiter)]"

text \<open>A downstream and an upstream session log in with the id \<open>111\<close>.\<close>

definition two_sides :: "srv_event list" where
  "two_sides =
     [E_Accept 0 ec_ok None 0, E_Run 0, E_Read 1 ec_ok (3 # delimiter), E_Run 1,
      E_Accept 0 ec_ok None 0, E_Run 1, E_Read 2 ec_ok (4 # delimiter), E_Run 1]"

lemma two_clients_reachable: "srv_reachable script_lib (reached_by two_clients)"
  by (rule reached_by_reachable) code_simp

lemma two_sides_reachable: "srv_reachable script_lib (reached_by two_sides)"
  by (rule reached_by_reachable) code_simp

section \<open>The send queue\<close>

text \<open>C4: in every reachable state of the server, what \<open>DoSend\<close> has posted or is writing is
  exactly the message at the front of the queue (nothing when the queue is empty): there is
  never more than one write of the queue in flight.\<close>

theorem Server_one_write_in_flight:
  assumes "srv_reachable L st"
  shows "srv_inflight st = map entry_payload (take 1 (sv_queue st))"
  using reachable_one_write [OF assms] by (simp add: srv_one_write_def)

theorem Server_one_write_in_flight_witness:
  "srv_inflight (reached_by two_clients) = map entry_payload (take 1 (sv_queue (reached_by two_clients))) \<and>
   length (sv_queue (reached_by two_clients)) = 2"
proof
  show "srv_inflight (reached_by two_clients) = map entry_payload (take 1 (sv_queue (reached_by two_clients)))"
    by (rule Server_one_write_in_flight [OF two_clients_reachable])
  show "length (sv_queue (reached_by two_clients)) = 2" by code_simp
qed



section \<open>Reads and the relay between a pair\<close>

text \<open>C7: in every reachable state each session has at most one read outstanding (as an accept,
  a posted or pending read, or the relay write that precedes its next read), and sessions that
  have not been created have none: no two reads ever run on one stream buffer.\<close>

theorem Server_one_reader:
  assumes "srv_reachable L st"
  shows "count (reads st) a \<le> (if a < sv_fresh st then 1 else 0)"
  using reachable_inv [OF assms] by (simp add: srv_inv_def one_reader_def)

theorem Server_one_reader_witness:
  "count (reads (reached_by two_sides)) 1 \<le> (if 1 < sv_fresh (reached_by two_sides) then 1 else 0) \<and>
   count (reads (reached_by two_sides)) 7 \<le> (if 7 < sv_fresh (reached_by two_sides) then 1 else 0)"
  using Server_one_reader [OF two_sides_reachable] by blast

text \<open>C5: in every reachable state, when a relaying session \<open>a\<close> with an open socket receives
  bytes that complete a message, the handler looks up a pair in which \<open>a\<close> itself is the member
  of its side, and starts one write to the member of the opposite side, of exactly the bytes
  up to and including the delimiter; with no opposite member it dereferences a null session.\<close>

theorem Server_relays_to_opposite:
  assumes "srv_reachable L st" and "isRunning (sv_core st)" and "i < length (sv_pending st)"
    and "sv_pending st ! i = O_ReadProxy a" and "s_open (sv_heap st a)"
    and "read_until delimiter (s_buffer (sv_heap st a) @ bs) = Some n"
  shows "\<exists>p. map_of (sv_proxy st) (s_id (sv_heap st a)) = Some p \<and>
    own_side p (s_type (sv_heap st a)) = Some a \<and>
    (case other_side p (s_type (sv_heap st a)) of
       None \<Rightarrow> srv_step L (E_Read i ec_ok bs) st = Crash
     | Some b \<Rightarrow> \<exists>t. srv_step L (E_Read i ec_ok bs) st = Done t \<and>
         sv_pending t = remove_at i (sv_pending st) @
           [O_WriteProxy b a (take n (s_buffer (sv_heap st a) @ bs))] \<and>
         sv_posted t = sv_posted st \<and> sv_queue t = sv_queue st)"
proof -
  let ?st1 = "on_session a (\<lambda>s. s\<lparr>s_buffer := s_buffer s @ bs\<rparr>) st"
  have "relay_ok st" using reachable_inv [OF assms(1)] by (simp add: srv_inv_def)
  moreover have "a \<in># proxies st" using assms(3,4) by (simp add: reads_drop_op(2) [of i st])
  ultimately have "paired (drop_op i ?st1) a" using assms(5) by (simp add: relay_ok_def)
  from Server_HandleReceiveProxy_paired [OF this, of ec_ok n] obtain p where
    p: "map_of (sv_proxy st) (s_id (sv_heap st a)) = Some p"
      "own_side p (s_type (sv_heap st a)) = Some a" and
    h0: "Server_HandleReceiveProxy a ec_ok n (drop_op i ?st1) =
      (case other_side p (s_type (sv_heap st a)) of
         None \<Rightarrow> Crash
       | Some b \<Rightarrow> Done (srv_start (O_WriteProxy b a (take n (s_buffer (sv_heap (drop_op i ?st1) a))))
           (on_session a (Session_SetBytesTransferred n) (drop_op i ?st1))))"
    by auto
  have buf: "s_buffer (sv_heap (drop_op i ?st1) a) = s_buffer (sv_heap st a) @ bs" by simp
  have h: "Server_HandleReceiveProxy a ec_ok n (drop_op i ?st1) =
      (case other_side p (s_type (sv_heap st a)) of
         None \<Rightarrow> Crash
       | Some b \<Rightarrow> Done (srv_start (O_WriteProxy b a (take n (s_buffer (sv_heap st a) @ bs)))
           (on_session a (Session_SetBytesTransferred n) (drop_op i ?st1))))"
    using h0 unfolding buf .
  have "srv_step L (E_Read i ec_ok bs) st = Server_HandleReceiveProxy a ec_ok n (drop_op i ?st1)"
    using assms(2-6) by (simp add: read_event_def Let_def)
  with p h show ?thesis
    by (intro exI [of _ p]) (auto simp: drop_op_def split: option.splits)
qed

theorem Server_relays_to_opposite_witness:
  "\<exists>t. srv_step script_lib (E_Read 0 ec_ok (5 # delimiter @ [8])) (reached_by two_sides) = Done t \<and>
     sv_pending t = [O_Accept 2, O_ReadProxy 1, O_WriteProxy 1 0 (5 # delimiter)]"
proof -
  let ?st = "reached_by two_sides"
  have st: "isRunning (sv_core ?st)" "0 < length (sv_pending ?st)"
    "sv_pending ?st ! 0 = O_ReadProxy 0" "s_open (sv_heap ?st 0)"
    "read_until delimiter (s_buffer (sv_heap ?st 0) @ 5 # delimiter @ [8]) = Some 8"
    by code_simp+
  have f: "map_of (sv_proxy ?st) (s_id (sv_heap ?st 0)) = Some (SessionPair_new (Some 0) (Some 1))"
    "s_type (sv_heap ?st 0) = PROXYDOWN" "s_buffer (sv_heap ?st 0) = []"
    "remove_at 0 (sv_pending ?st) = [O_Accept 2, O_ReadProxy 1]"
    by code_simp+
  from Server_relays_to_opposite [OF two_sides_reachable st] f show ?thesis
    by (auto simp: other_side_def SessionPair_new_def delimiter_def)
qed

lemma reachable_relay_buffer: "srv_reachable L st \<Longrightarrow> relay_buffer st"
proof (induction rule: srv_reachable.induct)
  case (start listening raw)
  then show ?case
    by (simp add: Server_Start_def Server_Accept_def Server_Construct_def relay_buffer_iff)
next
  case (step st e t)
  then show ?case using relay_buffer_step reachable_inv by blast
qed

text \<open>C6: while a relay write is in flight in a reachable state, the stream buffer it takes its
  bytes from still starts with exactly these bytes, one whole delimited message: nothing is
  read into or consumed from that buffer until the write completes.\<close>

theorem Server_relay_buffer_stable:
  assumes "srv_reachable L st" and "O_WriteProxy b a m \<in> set (sv_pending st)"
  shows "take (length m) (s_buffer (sv_heap st a)) = m \<and>
    read_until delimiter (s_buffer (sv_heap st a)) = Some (length m)"
  using reachable_relay_buffer [OF assms(1)] assms(2) by (simp add: relay_buffer_iff)

theorem Server_relay_buffer_stable_witness:
  "take 8 (s_buffer (sv_heap (reached_by (two_sides @ [E_Read 0 ec_ok (5 # delimiter @ [8])])) 0)) = 5 # delimiter"
proof -
  let ?es = "two_sides @ [E_Read 0 ec_ok (5 # delimiter @ [8])]"
  have r: "srv_reachable script_lib (reached_by ?es)" by (rule reached_by_reachable) code_simp
  have m: "O_WriteProxy 1 0 (5 # delimiter) \<in> set (sv_pending (reached_by ?es))" by code_simp
  from Server_relay_buffer_stable [OF r m] show ?thesis
    by (simp add: delimiter_def eval_nat_numeral)
qed

section \<open>Messages between clients\<close>

definition is_p2p_to :: "lib \<Rightarrow> byte list \<Rightarrow> uuid \<Rightarrow> bool" where
  "is_p2p_to L bs i = (case parse L bs of None \<Rightarrow> False | Some cmd \<Rightarrow>
     protocol cmd = Command_Protocol_P2P \<and>
     (case p2p cmd of None \<Rightarrow> False | Some m \<Rightarrow> uuid_of_string L (p2p_to m) = Some i))"

lemma HandleReceive_p2p:
  assumes "is_p2p_to L (take (n - length delimiter) (s_buffer (sv_heap st a))) i"
  shows "Server_HandleReceive L a ec_ok n st =
    Server_SendP2P L a i (on_session a (Session_SetBytesTransferred n) st)"
  using assms
  by (auto simp: is_p2p_to_def Server_HandleReceive_def Let_def split: option.splits)

lemma read_step:
  assumes "isRunning (sv_core st)" and "i < length (sv_pending st)"
    and "sv_pending st ! i = O_Read a" and "s_open (sv_heap st a)"
    and "read_until delimiter (s_buffer (sv_heap st a) @ bs) = Some n"
  shows "srv_step L (E_Read i ec_ok bs) st = Done (Server_HandleReceive L a ec_ok n
    (drop_op i (on_session a (\<lambda>s. s\<lparr>s_buffer := s_buffer s @ bs\<rparr>) st)))"
  using assms by (simp add: read_event_def Let_def)

text \<open>A received message for a client that is logged in starts one write of its bytes.\<close>

lemma p2p_forwards:
  assumes "isRunning (sv_core st)" and "i < length (sv_pending st)"
    and "sv_pending st ! i = O_Read a" and "s_open (sv_heap st a)"
    and "read_until delimiter (s_buffer (sv_heap st a) @ bs) = Some n"
    and "is_p2p_to L (take (n - length delimiter) (s_buffer (sv_heap st a) @ bs)) c"
    and "SessionMgr_Find c (sv_stun st) = Inr b"
  shows "\<exists>t. srv_step L (E_Read i ec_ok bs) st = Done t \<and>
    sv_pending t = remove_at i (sv_pending st) @
      [O_WriteP2P b a (take n (s_buffer (sv_heap st a) @ bs))] \<and>
    s_buffer (sv_heap t a) = drop n (s_buffer (sv_heap st a) @ bs) \<and>
    sv_posted t = sv_posted st @ [T_Receive a] \<and> sv_queue t = sv_queue st \<and> sv_wire t = sv_wire st \<and>
    sv_core t = sv_core st \<and> sv_stun t = sv_stun st \<and> (\<forall>x. s_open (sv_heap t x) = s_open (sv_heap st x))"
proof -
  have h: "Server_HandleReceive L a ec_ok n st' =
      Server_SendP2P L a c (on_session a (Session_SetBytesTransferred n) st')"
    if "st' = drop_op i (on_session a (\<lambda>s. s\<lparr>s_buffer := s_buffer s @ bs\<rparr>) st)" for st'
    by (rule HandleReceive_p2p) (use that assms(6) in simp)
  show ?thesis
    unfolding read_step [OF assms(1-5)]
    by (subst h [OF refl])
      (simp add: Server_SendP2P_def Let_def assms(7) drop_op_def Session_SetBytesTransferred_def)
qed

text \<open>A peer-to-peer message for a client that is logged in is forwarded to that client's
  session in one write of exactly the received bytes, delimiter included; the sender's buffer
  keeps only what follows the message, and its next read is posted.\<close>

theorem Server_p2p_forwards:
  assumes "isRunning (sv_core st)" and "i < length (sv_pending st)"
    and "sv_pending st ! i = O_Read a" and "s_open (sv_heap st a)"
    and "read_until delimiter (s_buffer (sv_heap st a) @ bs) = Some n"
    and "is_p2p_to L (take (n - length delimiter) (s_buffer (sv_heap st a) @ bs)) c"
    and "SessionMgr_Find c (sv_stun st) = Inr b"
  shows "\<exists>t. srv_step L (E_Read i ec_ok bs) st = Done t \<and>
    sv_pending t = remove_at i (sv_pending st) @
      [O_WriteP2P b a (take n (s_buffer (sv_heap st a) @ bs))] \<and>
    s_buffer (sv_heap t a) = drop n (s_buffer (sv_heap st a) @ bs) \<and>
    sv_posted t = sv_posted st @ [T_Receive a] \<and> sv_queue t = sv_queue st"
  using p2p_forwards [OF assms] by (elim exE conjE) (intro exI conjI)

theorem Server_p2p_forwards_witness:
  "\<exists>t. srv_step script_lib (E_Read 1 ec_ok (5 # delimiter)) (reached_by two_clients) = Done t \<and>
    O_WriteP2P 1 0 (5 # delimiter) \<in> set (sv_pending t)"
proof -
  let ?st = "reached_by two_clients"
  have st: "isRunning (sv_core ?st)" "1 < length (sv_pending ?st)"
    "sv_pending ?st ! 1 = O_Read 0" "s_open (sv_heap ?st 0)"
    "read_until delimiter (s_buffer (sv_heap ?st 0) @ 5 # delimiter) = Some 8"
    "is_p2p_to script_lib (take (8 - length delimiter) (s_buffer (sv_heap ?st 0) @ 5 # delimiter)) 2"
    "SessionMgr_Find 2 (sv_stun ?st) = Inr 1"
    by code_simp+
  have "s_buffer (sv_heap ?st 0) = []" by code_simp
  with Server_p2p_forwards [OF st] show ?thesis by (auto simp: delimiter_def)
qed

lemma remove_at_other: "i < length xs \<Longrightarrow> x \<in> set xs \<Longrightarrow> x \<noteq> xs ! i \<Longrightarrow> x \<in> set (remove_at i xs)"
  using arg_cong [OF split_nth [of i xs], of set] by (auto simp: remove_at_def)

text \<open>The write of a forwarded message does not go through the queue: when a message of the
  queue is being written to the receiver, the two writes are outstanding on one socket at the
  same time.\<close>

theorem Server_p2p_overlaps_queue:
  assumes "isRunning (sv_core st)" and "i < length (sv_pending st)"
    and "sv_pending st ! i = O_Read a" and "s_open (sv_heap st a)"
    and "read_until delimiter (s_buffer (sv_heap st a) @ bs) = Some n"
    and "is_p2p_to L (take (n - length delimiter) (s_buffer (sv_heap st a) @ bs)) c"
    and "SessionMgr_Find c (sv_stun st) = Inr b" and "O_Write b m \<in> set (sv_pending st)"
  shows "\<exists>t. srv_step L (E_Read i ec_ok bs) st = Done t \<and>
    {O_Write b m, O_WriteP2P b a (take n (s_buffer (sv_heap st a) @ bs))} \<subseteq> set (sv_pending t)"
proof -
  have "O_Write b m \<in> set (remove_at i (sv_pending st))"
    using assms(2,3,8) by (intro remove_at_other) auto
  with p2p_forwards [OF assms(1-7)] show ?thesis by (auto simp del: srv_step.simps)
qed

theorem Server_p2p_overlaps_queue_witness:
  "\<exists>t m. srv_step script_lib (E_Read 0 ec_ok (5 # delimiter))
      (reached_by (two_clients @ [E_Write 0 ec_ok, E_Run 1])) = Done t \<and>
    {O_Write 1 m, O_WriteP2P 1 0 (5 # delimiter)} \<subseteq> set (sv_pending t)"
proof -
  let ?st = "reached_by (two_clients @ [E_Write 0 ec_ok, E_Run 1])"
  have st: "isRunning (sv_core ?st)" "0 < length (sv_pending ?st)"
    "sv_pending ?st ! 0 = O_Read 0" "s_open (sv_heap ?st 0)"
    "read_until delimiter (s_buffer (sv_heap ?st 0) @ 5 # delimiter) = Some 8"
    "is_p2p_to script_lib (take (8 - length delimiter) (s_buffer (sv_heap ?st 0) @ 5 # delimiter)) 2"
    "SessionMgr_Find 2 (sv_stun ?st) = Inr 1" "O_Write 1 ([1, 2, 3] @ delimiter) \<in> set (sv_pending ?st)"
    by code_simp+
  have "s_buffer (sv_heap ?st 0) = []" by code_simp
  with Server_p2p_overlaps_queue [OF st] show ?thesis by (auto simp: delimiter_def simp del: srv_step.simps)
qed

text \<open>A peer-to-peer message for a client that is not logged in is written to nobody; the
  sender, when it is itself logged in, is sent one message saying that the destination is
  unreachable, behind what is already queued, and its next read is posted.\<close>

theorem Server_p2p_unreachable:
  assumes "isRunning (sv_core st)" and "i < length (sv_pending st)"
    and "sv_pending st ! i = O_Read a" and "s_open (sv_heap st a)"
    and "read_until delimiter (s_buffer (sv_heap st a) @ bs) = Some n"
    and "is_p2p_to L (take (n - length delimiter) (s_buffer (sv_heap st a) @ bs)) c"
    and "map_of (sessionMap (sv_stun st)) c = None"
    and "map_of (sessionMap (sv_stun st)) (s_id (sv_heap st a)) = Some a"
  shows "\<exists>t. srv_step L (E_Read i ec_ok bs) st = Done t \<and>
    sv_pending t = remove_at i (sv_pending st) \<and>
    sv_queue t = sv_queue st @ [(s_id (sv_heap st a), STUN,
      serialize L (p2p_unreachable (uuid_to_string L c)
        (uuid_to_string L (s_id (sv_heap st a)))) @ delimiter)] \<and>
    T_Receive a \<in> set (sv_posted t) \<and>
    s_buffer (sv_heap t a) = drop n (s_buffer (sv_heap st a) @ bs)"
proof -
  have h: "Server_HandleReceive L a ec_ok n st' =
      Server_SendP2P L a c (on_session a (Session_SetBytesTransferred n) st')"
    if "st' = drop_op i (on_session a (\<lambda>s. s\<lparr>s_buffer := s_buffer s @ bs\<rparr>) st)" for st'
    by (rule HandleReceive_p2p) (use that assms(6) in simp)
  show ?thesis
    unfolding read_step [OF assms(1-5)]
    by (subst h [OF refl])
      (simp add: Server_SendP2P_def Let_def drop_op_def Server_Send_def Server_lookup_def
        SessionMgr_Find_def assms(7,8))
qed

theorem Server_p2p_unreachable_witness:
  "\<exists>t. srv_step script_lib (E_Read 1 ec_ok (6 # delimiter)) (reached_by two_clients) = Done t \<and>
    length (sv_queue t) = 3"
proof -
  let ?st = "reached_by two_clients"
  have st: "isRunning (sv_core ?st)" "1 < length (sv_pending ?st)"
    "sv_pending ?st ! 1 = O_Read 0" "s_open (sv_heap ?st 0)"
    "read_until delimiter (s_buffer (sv_heap ?st 0) @ 6 # delimiter) = Some 8"
    "is_p2p_to script_lib (take (8 - length delimiter) (s_buffer (sv_heap ?st 0) @ 6 # delimiter)) 4"
    "map_of (sessionMap (sv_stun ?st)) 4 = None"
    "map_of (sessionMap (sv_stun ?st)) (s_id (sv_heap ?st 0)) = Some 0"
    by code_simp+
  have "length (sv_queue ?st) = 2" by code_simp
  moreover obtain t where
    "srv_step script_lib (E_Read 1 ec_ok (6 # delimiter)) ?st = Done t"
    "\<exists>e. sv_queue t = sv_queue ?st @ [e]"
    using Server_p2p_unreachable [OF st] by blast
  ultimately show ?thesis by (intro exI [of _ t]) (auto simp del: srv_step.simps)
qed

section \<open>Heartbeat\<close>










section \<open>Subscriptions\<close>

text \<open>
  The messages of a list of notifications that reach a client: one for each notification
  whose client is logged in.
\<close>

lemma Server_notify_queue:
  "sv_queue (Server_notify L ns st) = sv_queue st @
     map (\<lambda>(i, t, c). (i, t, serialize L c @ delimiter))
       (filter (\<lambda>(i, t, c). live_entry st (i, t, [])) ns)"
proof (induction ns arbitrary: st)
  case (Cons x ns)
  obtain i t c where x: "x = (i, t, c)" by (cases x)
  have live: "live_entry (Server_Send L i t c st) = live_entry st" by (rule live_entry_cong) simp_all
  have "sv_queue (Server_Send L i t c st) = sv_queue st @
      (if live_entry st (i, t, []) then [(i, t, serialize L c @ delimiter)] else [])"
    by (auto simp: Server_Send_enqueue srv_enqueue_def live_entry_def entry_session_def
        split: sum.splits option.splits)
  with Cons x show ?case by (simp add: live)
qed simp

lemma live_stun:
  "live_entry st (i, STUN, m) \<longleftrightarrow> map_of (sessionMap (sv_stun st)) i \<noteq> None"
  by (simp add: live_entry_def entry_session_def Server_lookup_def SessionMgr_Find_def
      split: option.splits)

lemma reachable_subs_ok: "srv_reachable L st \<Longrightarrow> subs_ok (sv_subs st)"
proof (induction rule: srv_reachable.induct)
  case (start listening raw)
  show ?case by (simp add: Server_Start_def Server_Accept_def Server_Construct_def subs_ok_def subscribers_def)
next
  case (step st e t)
  have process: "subs_ok (sv_subs (fst (Server_Process L a cmd st')))" if "subs_ok (sv_subs st')" for a cmd st'
    using that by (simp add: Server_Process_def Server_Connect_def Server_ConnectStun_def
        Server_ConnectProxy_def Server_refuse_def Server_Heartbeat_def Server_Subscribe_def Let_def
        subs_ok_Subscribe split: option.splits Command_Protocol.splits Connect_Type.splits)
  have rm: "sv_subs (Server_RemoveStun i st') = sv_subs st'" "sv_subs (Server_RemoveProxy i st') = sv_subs st'" for i st'
    by (simp_all add: Server_RemoveStun_def Server_RemoveProxy_def Let_def)
  have catch: "sv_subs (Server_ReceiveCatch L a st') = sv_subs st'" for a st'
    by (simp add: Server_ReceiveCatch_def Let_def rm)
  have p2p: "sv_subs (Server_SendP2P L a i st') = sv_subs st'" for a i st'
    by (simp add: Server_SendP2P_def Let_def split: sum.splits)
  have rec: "subs_ok (sv_subs (Server_HandleReceive L a ec n st'))" if "subs_ok (sv_subs st')" for a ec n st'
    by (cases rule: Server_HandleReceive_cases [of L a ec n st'])
      (use that process in \<open>auto simp: catch p2p\<close>)
  have prx: "subs_ok (sv_subs t')"
    if "subs_ok (sv_subs st')" "Server_HandleReceiveProxy a ec n st' = Done t'" for a ec n st' t'
    using that by (auto simp: Server_HandleReceiveProxy_def Server_SendProxy_def Let_def rm
        split: if_splits sum.splits SessionType.splits option.splits)
  have wr: "subs_ok (sv_subs t')" if "subs_ok (sv_subs st')" "write_event L i ec st' = Done t'" for i ec st' t'
    using that by (auto simp: write_event_def Server_HandleDoSend_def Server_HandleSendP2P_def
        Server_HandleSendProxy_def Let_def split: srv_op.splits if_splits list.splits option.splits)
  have tm: "sv_subs (Server_HandleStunTimeout L ec i st') = sv_subs st'" for ec i st'
    by (simp add: Server_HandleStunTimeout_def Let_def rm split: sum.splits)
  show ?case
  proof (cases e)
    case (E_Read i ec bs)
    with step show ?thesis
      by (auto simp: read_event_def Let_def intro!: rec elim!: prx [rotated]
          split: if_splits srv_op.splits option.splits)
  next
    case (E_Write i ec)
    with step show ?thesis by (auto intro: wr split: if_splits)
  qed (use step in \<open>auto simp: run_task_def Server_Receive_def Server_ReceiveProxy_def
      Server_DoSend_def Server_HandleAccept_def Server_Accept_def timer_event_def tm
      Server_Stop_def Let_def split: if_splits srv_task.splits srv_op.splits prod.splits\<close>)
qed

definition online_entry :: "lib \<Rightarrow> uuid \<Rightarrow> bool \<Rightarrow> uuid \<Rightarrow> srv_entry" where
  "online_entry L i on j = (j, STUN, serialize L (subscription_reply L i on) @ delimiter)"

definition logged_in :: "Server \<Rightarrow> uuid \<Rightarrow> bool" where
  "logged_in st j \<longleftrightarrow> map_of (sessionMap (sv_stun st)) j \<noteq> None"

lemma notify_queue:
  "sv_queue (Server_notify L (SubscribeMgr_Notify L i on m) st) =
     sv_queue st @ map (online_entry L i on) (filter (logged_in st) (subscribers i m))"
  by (simp add: Server_notify_queue mgr_simps filter_map o_def live_stun logged_in_def [abs_def]
      online_entry_def [abs_def])

text \<open>When a client logs in with an id that is free, the id is registered for its session,
  and each subscriber of that id that is logged in is sent exactly one online notification,
  in the order of the subscriptions, before the client's own reply.\<close>

theorem Server_login_notifies:
  assumes "srv_reachable L st" and "uuid_of_string L (connect_client_id c) = Some i"
    and "\<not> logged_in st i"
  shows "\<exists>t. Server_ConnectStun L a c st = (t, Inr True) \<and>
    map_of (sessionMap (sv_stun t)) = (map_of (sessionMap (sv_stun st)))(i \<mapsto> a) \<and>
    sv_queue t = sv_queue st @ map (online_entry L i True) (filter (logged_in t) (subscribers i (sv_subs st))) @
      [(i, STUN, serialize L (stun_reply L (s_remote_ep (sv_heap st a))) @ delimiter)] \<and>
    distinct (subscribers i (sv_subs st))"
proof -
  let ?st1 = "on_session a (\<lambda>s. (Session_SetType STUN (Session_SetId i s))
                 \<lparr>s_timer := timer_wait i (timer_set (At (sv_clock st + 5)) (s_timer s))\<rparr>) st"
  let ?r = "SessionMgr_AddSession (sv_heap ?st1) a (sv_stun ?st1)"
  let ?st2 = "?st1\<lparr>sv_stun := fst ?r\<rparr>"
  let ?st3 = "Server_notify L (SubscribeMgr_Notify L i True (sv_subs ?st2)) ?st2"
  let ?t = "Server_Send L i STUN (stun_reply L (s_remote_ep (sv_heap st a))) ?st3"
  have free: "map_of (sessionMap (sv_stun st)) i = None" using assms(3) by (simp add: logged_in_def)
  have new: "snd ?r" "map_of (sessionMap (fst ?r)) = (map_of (sessionMap (sv_stun st)))(i \<mapsto> a)"
    using free by (simp_all add: mgr_simps)
  have eq: "Server_ConnectStun L a c st = (?t, Inr True)"
    using assms(2) new(1) by (simp add: Server_ConnectStun_def Let_def)
  have stun: "sv_stun ?t = fst ?r" by simp
  have live: "live_entry ?st3 (i, STUN, [])" using new(2) by (simp add: live_stun)
  have "logged_in ?st2 = logged_in ?t" by (simp add: logged_in_def fun_eq_iff)
  then have "sv_queue ?st3 = sv_queue st @
      map (online_entry L i True) (filter (logged_in ?t) (subscribers i (sv_subs st)))"
    by (simp add: notify_queue)
  moreover have "sv_queue ?t = sv_queue ?st3 @
      [(i, STUN, serialize L (stun_reply L (s_remote_ep (sv_heap st a))) @ delimiter)]"
    using Server_notify_queue [of L "[(i, STUN, stun_reply L (s_remote_ep (sv_heap st a)))]" ?st3] live
    by simp
  moreover have "distinct (subscribers i (sv_subs st))"
    using reachable_subs_ok [OF assms(1)] by (simp add: subs_ok_def)
  ultimately show ?thesis using eq stun new(2) by (intro exI [of _ ?t]) simp
qed

text \<open>Client \<open>11\<close> has subscribed to client \<open>1\<close>, who is about to log in.\<close>

definition subscribed :: "srv_event list" where
  "subscribed =
     [E_Accept 0 ec_ok None 0, E_Run 0, E_Read 1 ec_ok (2 # delimiter), E_Run 1,
      E_Read 1 ec_ok (7 # delimiter), E_Run 1, E_Accept 0 ec_ok None 0, E_Run 1]"

theorem Server_login_notifies_witness:
  "\<exists>t. Server_ConnectStun script_lib 1 (Connect_new\<lparr>connect_client_id := ''1''\<rparr>) (reached_by subscribed)
      = (t, Inr True) \<and>
    sv_queue t = sv_queue (reached_by subscribed) @ [online_entry script_lib 1 True 2] @
      [(1, STUN, serialize script_lib (stun_reply script_lib (s_remote_ep (sv_heap (reached_by subscribed) 1))) @ delimiter)]"
proof -
  let ?st = "reached_by subscribed"
  have r: "srv_reachable script_lib ?st" by (rule reached_by_reachable) code_simp
  have u: "uuid_of_string script_lib (connect_client_id (Connect_new\<lparr>connect_client_id := ''1''\<rparr>)) = Some 1"
    by code_simp
  have n: "\<not> logged_in ?st 1" by code_simp
  have subs: "subscribers 1 (sv_subs ?st) = [2]" "map_of (sessionMap (sv_stun ?st)) 2 = Some 0" by code_simp+
  obtain t where t: "Server_ConnectStun script_lib 1 (Connect_new\<lparr>connect_client_id := ''1''\<rparr>) ?st = (t, Inr True)"
    "map_of (sessionMap (sv_stun t)) = (map_of (sessionMap (sv_stun ?st)))(1 \<mapsto> 1)"
    "sv_queue t = sv_queue ?st @ map (online_entry script_lib 1 True) (filter (logged_in t) (subscribers 1 (sv_subs ?st))) @
      [(1, STUN, serialize script_lib (stun_reply script_lib (s_remote_ep (sv_heap ?st 1))) @ delimiter)]"
    using Server_login_notifies [OF r u n, of 1] by blast
  have "logged_in t 2" using t(2) subs(2) by (simp add: logged_in_def)
  with t(1,3) subs(1) show ?thesis by (intro exI [of _ t]) simp
qed

text \<open>A login with an id that is taken changes no registration and sends nothing: the new
  session is closed and loses its id, and the session that holds the id stays as it was.\<close>

theorem Server_login_taken:
  assumes "uuid_of_string L (connect_client_id c) = Some i"
    and "map_of (sessionMap (sv_stun st)) i = Some b" and "b \<noteq> a"
  shows "\<exists>t. Server_ConnectStun L a c st = (t, Inr True) \<and> sv_stun t = sv_stun st \<and>
    sv_queue t = sv_queue st \<and> sv_subs t = sv_subs st \<and> sv_heap t b = sv_heap st b \<and>
    \<not> s_open (sv_heap t a) \<and> s_id (sv_heap t a) = nil_uuid"
  using assms by (simp add: Server_ConnectStun_def Server_refuse_def Let_def mgr_simps)

theorem Server_login_taken_witness:
  "\<exists>t. Server_ConnectStun script_lib 7 (Connect_new\<lparr>connect_client_id := ''11''\<rparr>) (reached_by two_clients)
      = (t, Inr True) \<and> map_of (sessionMap (sv_stun t)) 2 = Some 1"
proof -
  have u: "uuid_of_string script_lib (connect_client_id (Connect_new\<lparr>connect_client_id := ''11''\<rparr>)) = Some 2"
    "map_of (sessionMap (sv_stun (reached_by two_clients))) 2 = Some 1" by code_simp+
  from Server_login_taken [OF u, of 7] u(2) show ?thesis by auto
qed

section \<open>Two runs that end badly\<close>

text \<open>
  The downstream session of the id \<open>111\<close> logs in while an earlier reply is being written, and
  leaves; an upstream session logs in with the same id. The queue still holds the first
  session's reply.
\<close>

definition stale_reply :: "srv_event list" where
  "stale_reply =
     [E_Accept 0 ec_ok None 0, E_Run 0, E_Read 1 ec_ok (1 # delimiter),
      E_Accept 0 ec_ok None 0, E_Run 2, E_Read 1 ec_ok (3 # delimiter), E_Run 2,
      E_Read 1 (ec_other 1) [], E_Accept 0 ec_ok None 0, E_Run 2,
      E_Read 1 ec_ok (4 # delimiter), E_Run 0]"

text \<open>A run of the server ends in a handler that never returns: when the queued reply of a
  downstream session comes up after the pair of its id has been removed and made again by an
  upstream session alone, the loop over the queue finds a null session, which neither ends
  the loop nor is popped.\<close>

theorem Server_queue_loop_hangs:
  "srv_steps script_lib (stale_reply @ [E_Write 1 ec_ok]) (Server_Start True 0 Server_Construct) = Hang"
proof -
  let ?st = "reached_by stale_reply"
  have ok: "returns (srv_steps script_lib stale_reply (Server_Start True 0 Server_Construct))"
    by code_simp
  have steps: "srv_steps L (es @ fs) st = bind_run (srv_steps L es st) (srv_steps L fs)" for L es fs st
  proof (induction es arbitrary: st)
    case (Cons e es)
    then show ?case by (cases "srv_step L e st") auto
  qed simp
  have st: "isRunning (sv_core ?st)" "1 < length (sv_pending ?st)"
    "sv_pending ?st ! 1 = O_Write 0 ([1, 2, 3] @ delimiter)" "s_open (sv_heap ?st 0)"
    "sv_queue ?st = [(1, STUN, [1, 2, 3] @ delimiter), (3, PROXYDOWN, [1, 2, 3] @ delimiter),
       (3, PROXYUP, [1, 2, 3] @ delimiter)]"
    "map_of (sv_proxy ?st) 3 = Some (SessionPair_new None (Some 2))"
    by code_simp+
  let ?w = "log_write 0 ([1, 2, 3] @ delimiter) ec_ok (drop_op 1 ?st)"
  have "null_entry ?w (3, PROXYDOWN, [1, 2, 3] @ delimiter)"
    using st(6) by (simp add: null_entry_def entry_session_def Server_lookup_def ProxyMgr_FindPair_def
        SessionPair_new_def)
  from Server_next_null [OF this] have "Server_HandleDoSend ec_ok ?w = Hang"
    using st(5) by (simp add: Server_HandleDoSend_def)
  with st have "srv_step script_lib (E_Write 1 ec_ok) ?st = Hang"
    by (simp add: write_event_def write_ok_def)
  then show ?thesis
    by (simp add: steps reached_by_steps [OF ok] del: srv_step.simps)
qed

text \<open>A run of the server ends in the dereference of a null session: a downstream session
  sends a message before an upstream session with its id has logged in.\<close>

theorem Server_relay_without_peer_crashes:
  "srv_steps script_lib
     [E_Accept 0 ec_ok None 0, E_Run 0, E_Read 1 ec_ok (3 # delimiter), E_Run 1,
      E_Read 1 ec_ok (9 # delimiter)] (Server_Start True 0 Server_Construct) = Crash"
  by (rule crashesD) code_simp

end
