(* ===== verification/Nat_UPNP.thy ===== *)
theory Nat_UPNP
  imports Nat_Core
begin

text \<open>
  \<open>opennat/src/UPNPClient.cpp\<close> and \<open>UPNPCore.cpp\<close>: asking the router for port mappings. The
  router and the \<open>miniupnpc\<close> library that talks to it are the parameter \<open>igd\<close>, whose functions
  work on a router state; the mappings the client has made are kept to be removed at the end.
  The lemmas describe the listing of the mappings, the search for a free external port and
  the clean-up.
\<close>

section \<open>The router\<close>

text \<open>
  A call returns \<open>UPNPCOMMAND_SUCCESS\<close>, which is \<open>0\<close>, or an error. \<open>discover\<close> is
  \<open>upnpDiscover\<close> followed by \<open>UPNP_GetValidIGD\<close>: local address, control URL and service type
  of a valid device. \<open>iequals\<close> is \<open>boost::iequals\<close> and \<open>lexical_u16\<close> is
  \<open>boost::lexical_cast<unsigned short>\<close>, \<open>None\<close> when it throws.
\<close>

record raw_entry =
  re_extPort :: string
  re_inAddr :: string
  re_inPort :: string
  re_protocol :: string
  re_desc :: string

record 'r igd =
  discover :: "'r \<Rightarrow> (string \<times> string \<times> string) option"
  get_entry :: "string \<Rightarrow> string \<Rightarrow> string \<Rightarrow> 'r \<Rightarrow> int \<times> raw_entry"
  get_specific :: "string \<Rightarrow> string \<Rightarrow> string \<Rightarrow> 'r \<Rightarrow> int \<times> string \<times> string"
  add_mapping :: "string \<Rightarrow> string \<Rightarrow> string \<Rightarrow> string \<Rightarrow> string \<Rightarrow> string \<Rightarrow> 'r \<Rightarrow> int \<times> 'r"
  delete_mapping :: "string \<Rightarrow> string \<Rightarrow> string \<Rightarrow> 'r \<Rightarrow> int \<times> 'r"
  external_ip :: "string \<Rightarrow> string \<Rightarrow> 'r \<Rightarrow> int \<times> string"
  iequals :: "string \<Rightarrow> string \<Rightarrow> bool"
  lexical_u16 :: "string \<Rightarrow> u16 option"

section \<open>State\<close>

record Entry =
  e_desc :: string
  e_extPort :: u16
  e_inPort :: u16
  e_inAddr :: string
  e_protocol :: string
  e_index :: nat

text \<open>
  \<open>up_starting\<close> counts the start handlers posted to the client's own service, and \<open>up_slots\<close>
  the slots connected to \<open>onStarted_\<close>. The history is a \<open>std::set\<close>: a sorted list.
\<close>

record UPNP =
  localAddr :: string
  controlURL :: string
  serviceType :: string
  isConnect :: bool
  upnpHistory :: "u16 list"
  isStarted :: bool
  up_starting :: nat
  up_slots :: nat
  up_core :: Core

text \<open>\<open>isConnect_\<close> is not initialised: \<open>raw\<close> is what the memory held.\<close>

definition UPNP_Construct :: "bool \<Rightarrow> UPNP" where
  "UPNP_Construct raw = \<lparr>localAddr = [], controlURL = [], serviceType = [], isConnect = raw,
     upnpHistory = [], isStarted = False, up_starting = 0, up_slots = 0,
     up_core = Core_Run (Core_Construct 1)\<rparr>"

section \<open>UPNPCore\<close>

definition UPNPCore_Connect :: "'r igd \<Rightarrow> 'r \<Rightarrow> UPNP \<Rightarrow> UPNP" where
  "UPNPCore_Connect g r u =
     (case discover g r of
        None \<Rightarrow> u
      | Some (l, url, service) \<Rightarrow>
          u\<lparr>localAddr := l, controlURL := url, serviceType := service, isConnect := True\<rparr>)"

definition UPNPCore_Disconnect :: "UPNP \<Rightarrow> UPNP" where
  "UPNPCore_Disconnect u = u\<lparr>isConnect := False, localAddr := [], controlURL := [], serviceType := []\<rparr>"

section \<open>Starting\<close>

definition UPNP_Start :: "UPNP \<Rightarrow> UPNP" where
  "UPNP_Start u = (if \<not> isRunning (up_core u) then u else u\<lparr>up_starting := up_starting u + 1\<rparr>)"

text \<open>The posted handler, up to the call of the slots.\<close>

definition UPNP_HandleStart :: "'r igd \<Rightarrow> 'r \<Rightarrow> UPNP \<Rightarrow> UPNP" where
  "UPNP_HandleStart g r u = (UPNPCore_Connect g r u)\<lparr>isStarted := True, up_starting := up_starting u - 1\<rparr>"

section \<open>Listing the mappings\<close>

definition read_entry :: "'r igd \<Rightarrow> nat \<Rightarrow> raw_entry \<Rightarrow> Entry option" where
  "read_entry g index e =
     (case (lexical_u16 g (re_extPort e), lexical_u16 g (re_inPort e)) of
        (Some x, Some i) \<Rightarrow> Some \<lparr>e_desc = re_desc e, e_extPort = x, e_inPort = i,
          e_inAddr = re_inAddr e, e_protocol = re_protocol e, e_index = index\<rparr>
      | _ \<Rightarrow> None)"

definition push_entry :: "Entry option \<Rightarrow> Entry list \<Rightarrow> Entry list" where
  "push_entry e rs = (case e of None \<Rightarrow> rs | Some v \<Rightarrow> rs @ [v])"

text \<open>The loop asks for one index after another and ends with the first error.\<close>

partial_function (option) GetPortMappingEntries ::
  "'r igd \<Rightarrow> string \<Rightarrow> string \<Rightarrow> 'r \<Rightarrow> nat \<Rightarrow> Entry list \<Rightarrow> Entry list option" where
  "GetPortMappingEntries g url service r index redirects =
     (let ret = get_entry g url service (to_string index) r
      in if fst ret = 0
         then GetPortMappingEntries g url service r (index + 1)
                (push_entry (read_entry g index (snd ret)) redirects)
         else Some redirects)"

declare GetPortMappingEntries.simps [code]

section \<open>Adding and deleting a mapping\<close>

definition IsMapped :: "'r igd \<Rightarrow> string \<Rightarrow> string \<Rightarrow> string \<Rightarrow> string \<Rightarrow> string \<Rightarrow> 'r \<Rightarrow> bool" where
  "IsMapped g url service extPort inPort inAddr r =
     (case get_specific g url service extPort r of
        (ret, mappedaddr, mappedport) \<Rightarrow>
          ret = 0 \<and> iequals g mappedaddr inAddr \<and> iequals g mappedport inPort)"

definition DoAddPortMapping ::
  "'r igd \<Rightarrow> string \<Rightarrow> string \<Rightarrow> string \<Rightarrow> string \<Rightarrow> string \<Rightarrow> string \<Rightarrow> 'r \<Rightarrow> 'r \<times> bool" where
  "DoAddPortMapping g url service extPort inPort inAddr desc r =
     (case add_mapping g url service extPort inPort inAddr desc r of
        (ret, r') \<Rightarrow> (r', ret = 0 \<and> IsMapped g url service extPort inPort inAddr r'))"

definition UPNPCOMMAND_PORTMAPPING_ERROR :: u16 where
  "UPNPCOMMAND_PORTMAPPING_ERROR = 0"

definition isLocalEp :: "'r igd \<Rightarrow> u16 \<Rightarrow> string \<Rightarrow> Entry \<Rightarrow> bool" where
  "isLocalEp g inPort inAddr e \<longleftrightarrow>
     e_inPort e = inPort \<and> iequals g (e_inAddr e) inAddr \<and> iequals g (e_protocol e) ''tcp''"

text \<open>
  The loop over the external ports: the first one that no mapping uses is asked for, and a
  refusal ends the search.
\<close>

function free_port :: "Entry list \<Rightarrow> nat \<Rightarrow> nat option" where
  "free_port redirects extPort =
     (if extPort \<ge> 65535 then None
      else if find (\<lambda>e. unat (e_extPort e) = extPort) redirects = None then Some extPort
      else free_port redirects (extPort + 1))"
  by pat_completeness auto
termination
  by (relation "measure (\<lambda>(redirects, extPort). 65535 - extPort)") auto

declare free_port.simps [simp del]

definition AddPortMapping ::
  "'r igd \<Rightarrow> u16 \<Rightarrow> 'r \<times> UPNP \<Rightarrow> (('r \<times> UPNP) \<times> u16) option" where
  "AddPortMapping g inPort = (\<lambda>(r, u).
     (if \<not> isConnect u then Some ((r, u), UPNPCOMMAND_PORTMAPPING_ERROR)
      else case GetPortMappingEntries g (controlURL u) (serviceType u) r 0 [] of
        None \<Rightarrow> None
      | Some redirects \<Rightarrow>
          (case find (isLocalEp g inPort (localAddr u)) redirects of
             Some e \<Rightarrow> Some ((r, u), e_extPort e)
           | None \<Rightarrow>
               (case free_port redirects 49152 of
                  None \<Rightarrow> Some ((r, u), UPNPCOMMAND_PORTMAPPING_ERROR)
                | Some extPort \<Rightarrow>
                    (case DoAddPortMapping g (controlURL u) (serviceType u) (to_string extPort)
                            (to_string (unat inPort)) (localAddr u) ''opennat'' r of
                       (r', True) \<Rightarrow>
                         Some ((r', u\<lparr>upnpHistory := insort_insert (of_nat extPort) (upnpHistory u)\<rparr>),
                           of_nat extPort)
                     | (r', False) \<Rightarrow> Some ((r', u), UPNPCOMMAND_PORTMAPPING_ERROR))))))"

definition DeletePortMapping :: "'r igd \<Rightarrow> string \<Rightarrow> 'r \<times> UPNP \<Rightarrow> ('r \<times> UPNP) \<times> bool" where
  "DeletePortMapping g extPort = (\<lambda>(r, u).
     (if \<not> isConnect u then ((r, u), False)
      else case delete_mapping g (controlURL u) (serviceType u) extPort r of
        (ret, r') \<Rightarrow> ((r', u), ret = 0)))"

definition GetExternalIP :: "'r igd \<Rightarrow> 'r \<times> UPNP \<Rightarrow> string" where
  "GetExternalIP g = (\<lambda>(r, u).
     (if \<not> isConnect u then []
      else case external_ip g (controlURL u) (serviceType u) r of
        (ret, extAddr) \<Rightarrow> if ret = 0 then extAddr else []))"

definition GetLocalIP :: "UPNP \<Rightarrow> string" where
  "GetLocalIP u = (if \<not> isConnect u then [] else localAddr u)"

definition UPNP_Stop :: "'r igd \<Rightarrow> 'r \<times> UPNP \<Rightarrow> 'r \<times> UPNP" where
  "UPNP_Stop g = (\<lambda>(r, u).
     (if \<not> isStarted u then (r, u)
      else
        (case fold (\<lambda>p s. fst (DeletePortMapping g (to_string (unat p)) s)) (upnpHistory u)
                (r, u\<lparr>isStarted := False\<rparr>) of
           (r', u') \<Rightarrow>
             (r', (UPNPCore_Disconnect (u'\<lparr>upnpHistory := []\<rparr>))\<lparr>up_core := Core_Stop (up_core u')\<rparr>))))"

section \<open>The listing loop\<close>

lemma GetPortMappingEntries_stop:
  "fst (get_entry g url service (to_string i) r) \<noteq> 0 \<Longrightarrow>
   GetPortMappingEntries g url service r i rs = Some rs"
  by (subst GetPortMappingEntries.simps) simp

lemma GetPortMappingEntries_step:
  "fst (get_entry g url service (to_string i) r) = 0 \<Longrightarrow>
   GetPortMappingEntries g url service r i rs =
     GetPortMappingEntries g url service r (i + 1)
       (push_entry (read_entry g i (snd (get_entry g url service (to_string i) r))) rs)"
  by (subst GetPortMappingEntries.simps) simp

text \<open>The entries of the indexes \<open>i\<close> up to \<open>i + n\<close> that can be read.\<close>

fun entries_from :: "'r igd \<Rightarrow> string \<Rightarrow> string \<Rightarrow> 'r \<Rightarrow> nat \<Rightarrow> nat \<Rightarrow> Entry list" where
  "entries_from g url service r i 0 = []"
| "entries_from g url service r i (Suc n) =
     push_entry (read_entry g i (snd (get_entry g url service (to_string i) r))) [] @
       entries_from g url service r (Suc i) n"

lemma GetPortMappingEntries_all:
  assumes "\<And>k. k < n \<Longrightarrow> fst (get_entry g url service (to_string (i + k)) r) = 0"
    and "fst (get_entry g url service (to_string (i + n)) r) \<noteq> 0"
  shows "GetPortMappingEntries g url service r i rs = Some (rs @ entries_from g url service r i n)"
  using assms
proof (induction n arbitrary: i rs)
  case 0
  then show ?case by (simp add: GetPortMappingEntries_stop)
next
  case (Suc n)
  have i: "fst (get_entry g url service (to_string i) r) = 0" using Suc.prems(1) [of 0] by simp
  have "fst (get_entry g url service (to_string (Suc i + k)) r) = 0" if "k < n" for k
    using Suc.prems(1) [of "Suc k"] that by simp
  moreover have "fst (get_entry g url service (to_string (Suc i + n)) r) \<noteq> 0"
    using Suc.prems(2) by simp
  ultimately have "GetPortMappingEntries g url service r (Suc i) ss =
      Some (ss @ entries_from g url service r (Suc i) n)" for ss
    by (rule Suc.IH)
  with GetPortMappingEntries_step [OF i] show ?case
    by (simp add: push_entry_def split: option.splits)
qed

section \<open>The free port\<close>

lemma free_port_Some:
  "free_port rs i = Some x \<Longrightarrow>
   i \<le> x \<and> x < 65535 \<and> (\<forall>e \<in> set rs. unat (e_extPort e) \<noteq> x) \<and>
   (\<forall>y. i \<le> y \<longrightarrow> y < x \<longrightarrow> (\<exists>e \<in> set rs. unat (e_extPort e) = y))"
proof (induction rs i rule: free_port.induct)
  case (1 rs i)
  show ?case
  proof (cases "i \<ge> 65535")
    case True
    with 1 show ?thesis by (simp add: free_port.simps [of rs i])
  next
    case i: False
    show ?thesis
    proof (cases "find (\<lambda>e. unat (e_extPort e) = i) rs")
      case None
      with i 1 have "x = i" by (simp add: free_port.simps [of rs i])
      with None i show ?thesis by (auto simp: find_None_iff)
    next
      case (Some e)
      with i 1 have IH: "i + 1 \<le> x \<and> x < 65535 \<and> (\<forall>e \<in> set rs. unat (e_extPort e) \<noteq> x) \<and>
          (\<forall>y. i + 1 \<le> y \<longrightarrow> y < x \<longrightarrow> (\<exists>e \<in> set rs. unat (e_extPort e) = y))"
        by (simp add: free_port.simps [of rs i])
      from Some have "\<exists>e \<in> set rs. unat (e_extPort e) = i" by (auto simp: find_Some_iff)
      moreover have "y = i \<or> i + 1 \<le> y" if "i \<le> y" for y using that by linarith
      ultimately show ?thesis using IH by auto
    qed
  qed
qed

section \<open>A sample router\<close>

text \<open>
  A router for the witnesses: a list of mappings from external ports to addresses and ports,
  which refuses a port that is taken and answers index by index.
\<close>

type_synonym mappings = "(string \<times> string \<times> string) list"

definition sample_igd :: "mappings igd" where
  "sample_igd = \<lparr>discover = (\<lambda>r. Some (''10.0.0.2'', ''url'', ''service'')),
     get_entry = (\<lambda>url service i r.
       if digits_value i < length r
       then (case r ! digits_value i of (x, a, p) \<Rightarrow> (0, \<lparr>re_extPort = x, re_inAddr = a,
         re_inPort = p, re_protocol = ''tcp'', re_desc = []\<rparr>))
       else (713, \<lparr>re_extPort = [], re_inAddr = [], re_inPort = [], re_protocol = [], re_desc = []\<rparr>)),
     get_specific = (\<lambda>url service x r.
       case map_of r x of None \<Rightarrow> (714, [], []) | Some (a, p) \<Rightarrow> (0, a, p)),
     add_mapping = (\<lambda>url service x p a d r.
       if map_of r x = None then (0, r @ [(x, a, p)]) else (718, r)),
     delete_mapping = (\<lambda>url service x r. (0, filter (\<lambda>e. fst e \<noteq> x) r)),
     external_ip = (\<lambda>url service r. (0, ''1.2.3.4'')),
     iequals = (=),
     lexical_u16 = (\<lambda>s. if s \<noteq> [] \<and> list_all is_digit s \<and> digits_value s < 65536
       then Some (of_nat (digits_value s)) else None)\<rparr>"

definition sample_upnp :: "mappings \<Rightarrow> UPNP" where
  "sample_upnp r = UPNP_HandleStart sample_igd r (UPNP_Start (UPNP_Construct False))"

section \<open>Properties\<close>

lemma GetPortMappingEntries_never:
  assumes "\<And>k. fst (get_entry g url service (to_string k) r) = 0"
  shows "GetPortMappingEntries g url service r i rs = None"
proof (rule ccontr)
  assume "GetPortMappingEntries g url service r i rs \<noteq> None"
  then obtain x where x: "GetPortMappingEntries g url service r i rs = Some x" by blast
  have "\<not> (\<forall>k. fst (get_entry g' url' service' (to_string k) r') = 0)"
    if "GetPortMappingEntries g' url' service' r' i' rs' = Some y"
    for g' :: "'a igd" and url' service' r' i' rs' y
  proof (rule GetPortMappingEntries.raw_induct [OF _ that])
    fix f :: "'a igd \<Rightarrow> string \<Rightarrow> string \<Rightarrow> 'a \<Rightarrow> nat \<Rightarrow> Entry list \<Rightarrow> Entry list option"
      and g url service r index redirects z
    assume IH: "\<And>g url service r index redirects z. f g url service r index redirects = Some z \<Longrightarrow>
        \<not> (\<forall>k. fst (get_entry g url service (to_string k) r) = 0)"
      and eq: "(let ret = get_entry g url service (to_string index) r in
        if fst ret = 0 then f g url service r (index + 1)
            (push_entry (read_entry g index (snd ret)) redirects)
        else Some redirects) = Some z"
    show "\<not> (\<forall>k. fst (get_entry g url service (to_string k) r) = 0)"
    proof
      assume all: "\<forall>k. fst (get_entry g url service (to_string k) r) = 0"
      then have "f g url service r (index + 1)
          (push_entry (read_entry g index (snd (get_entry g url service (to_string index) r))) redirects) = Some z"
        using eq by (simp add: Let_def)
      from IH [OF this] all show False by blast
    qed
  qed
  from this [OF x] assms show False by blast
qed

text \<open>The listing of the mappings returns exactly when the router refuses some index, and
  then gives the readable entries of the indexes below the first one it refuses, in order;
  against a router that never refuses it never returns.\<close>

theorem UPNP_listing:
  "GetPortMappingEntries g url service r 0 [] =
     (if \<exists>n. fst (get_entry g url service (to_string n) r) \<noteq> 0
      then Some (entries_from g url service r 0 (LEAST n. fst (get_entry g url service (to_string n) r) \<noteq> 0))
      else None)"
proof (cases "\<exists>n. fst (get_entry g url service (to_string n) r) \<noteq> 0")
  case True
  define n where "n = (LEAST n. fst (get_entry g url service (to_string n) r) \<noteq> 0)"
  have "fst (get_entry g url service (to_string n) r) \<noteq> 0"
    unfolding n_def using True by (rule LeastI_ex)
  moreover have "fst (get_entry g url service (to_string k) r) = 0" if "k < n" for k
    using not_less_Least [of k "\<lambda>n. fst (get_entry g url service (to_string n) r) \<noteq> 0"] that
    unfolding n_def by blast
  ultimately have "GetPortMappingEntries g url service r 0 [] = Some ([] @ entries_from g url service r 0 n)"
    by (intro GetPortMappingEntries_all) simp_all
  with True show ?thesis by (simp add: n_def)
next
  case False
  then show ?thesis using GetPortMappingEntries_never [of g url service r 0 "[]"] by auto
qed

text \<open>A mapping request of a connected client returns the external port of a mapping that
  already leads to this client and port, and then leaves the router alone; otherwise it asks
  for the lowest port from 49152 to 65534 that no mapping uses and, when the router confirms
  it, returns that port and records it; in every other case it returns 0 and records nothing.\<close>

theorem UPNP_AddPortMapping:
  assumes "isConnect u"
    and "GetPortMappingEntries g (controlURL u) (serviceType u) r 0 [] = Some rs"
  shows "\<exists>r' u' x. AddPortMapping g p (r, u) = Some ((r', u'), x) \<and>
    (case find (isLocalEp g p (localAddr u)) rs of
       Some e \<Rightarrow> x = e_extPort e \<and> r' = r \<and> u' = u
     | None \<Rightarrow>
         (x = 0 \<and> u' = u) \<or>
         (49152 \<le> unat x \<and> unat x < 65535 \<and> (\<forall>e \<in> set rs. e_extPort e \<noteq> x) \<and>
          (\<forall>y. 49152 \<le> y \<longrightarrow> y < unat x \<longrightarrow> (\<exists>e \<in> set rs. unat (e_extPort e) = y)) \<and>
          set (upnpHistory u') = insert x (set (upnpHistory u)) \<and>
          IsMapped g (controlURL u) (serviceType u) (to_string (unat x)) (to_string (unat p)) (localAddr u) r'))"
proof (cases "find (isLocalEp g p (localAddr u)) rs")
  case (Some e)
  with assms show ?thesis by (simp add: AddPortMapping_def)
next
  case None
  show ?thesis
  proof (cases "free_port rs 49152")
    case no: None
    with None assms show ?thesis
      by (simp add: AddPortMapping_def UPNPCOMMAND_PORTMAPPING_ERROR_def)
  next
    case (Some x)
    note x = free_port_Some [OF Some]
    obtain r' b where d: "DoAddPortMapping g (controlURL u) (serviceType u) (to_string x)
        (to_string (unat p)) (localAddr u) ''opennat'' r = (r', b)" by fastforce
    have u: "unat (of_nat x :: u16) = x" using x by (simp add: unat_of_nat)
    show ?thesis
    proof (cases b)
      case False
      with None Some assms d show ?thesis
        by (simp add: AddPortMapping_def UPNPCOMMAND_PORTMAPPING_ERROR_def)
    next
      case True
      with d have m: "IsMapped g (controlURL u) (serviceType u) (to_string x) (to_string (unat p)) (localAddr u) r'"
        by (auto simp: DoAddPortMapping_def split: prod.splits)
      from True None Some assms d have e: "AddPortMapping g p (r, u) =
          Some ((r', u\<lparr>upnpHistory := insort_insert (of_nat x) (upnpHistory u)\<rparr>), of_nat x)"
        by (simp add: AddPortMapping_def)
      have "\<forall>e \<in> set rs. e_extPort e \<noteq> of_nat x" using x u by metis
      with None e m u x show ?thesis
        by (simp add: set_insort_insert)
    qed
  qed
qed

theorem UPNP_AddPortMapping_witness:
  "\<exists>r' u' x. AddPortMapping sample_igd 80 ([(''49152'', ''10.0.0.3'', ''80'')],
       sample_upnp [(''49152'', ''10.0.0.3'', ''80'')]) = Some ((r', u'), x) \<and> x \<noteq> 49152"
proof -
  let ?r = "[(''49152'', ''10.0.0.3'', ''80'')]"
  let ?u = "sample_upnp ?r"
  let ?e = "\<lparr>e_desc = [], e_extPort = 49152, e_inPort = 80, e_inAddr = ''10.0.0.3'', e_protocol = ''tcp'', e_index = 0\<rparr>"
  have c: "isConnect ?u" "localAddr ?u = ''10.0.0.2''" "controlURL ?u = ''url''" "serviceType ?u = ''service''"
    by (simp_all add: sample_upnp_def UPNP_HandleStart_def UPNPCore_Connect_def sample_igd_def)
  have l: "GetPortMappingEntries sample_igd (controlURL ?u) (serviceType ?u) ?r 0 [] = Some [?e]"
  proof -
    have "fst (get_entry sample_igd (controlURL ?u) (serviceType ?u) (to_string (0 + k)) ?r) = 0" if "k < 1" for k
      using that by (simp add: sample_igd_def)
    moreover have "fst (get_entry sample_igd (controlURL ?u) (serviceType ?u) (to_string (0 + 1)) ?r) \<noteq> 0"
      by (simp add: sample_igd_def)
    ultimately have "GetPortMappingEntries sample_igd (controlURL ?u) (serviceType ?u) ?r 0 [] =
        Some ([] @ entries_from sample_igd (controlURL ?u) (serviceType ?u) ?r 0 1)"
      by (rule GetPortMappingEntries_all)
    moreover have "entries_from sample_igd (controlURL ?u) (serviceType ?u) ?r 0 1 = [?e]"
      by (simp add: sample_igd_def read_entry_def push_entry_def)
        (simp add: digits_value_def is_digit_def)
    ultimately show ?thesis by simp
  qed
  have "find (isLocalEp sample_igd 80 (localAddr ?u)) [?e] = None"
    by (simp add: isLocalEp_def c sample_igd_def)
  with UPNP_AddPortMapping [OF c(1) l, of 80] show ?thesis by fastforce
qed

lemma delete_all:
  assumes "isConnect u"
  shows "fold (\<lambda>p s. fst (DeletePortMapping g (to_string (unat p)) s)) ps (r, u) =
    (fold (\<lambda>p r. snd (delete_mapping g (controlURL u) (serviceType u) (to_string (unat p)) r)) ps r, u)"
  using assms by (induction ps arbitrary: r) (simp_all add: DeletePortMapping_def split: prod.splits)

text \<open>Stopping a started and connected client asks the router to delete exactly the ports of
  its history, in rising order, forgets them, disconnects and stops the service; stopping a
  client that was never started does nothing and leaves its service running.\<close>

theorem UPNP_Stop_cleans:
  "UPNP_Stop g (r, u) =
     (if \<not> isStarted u then (r, u)
      else (if isConnect u
            then fold (\<lambda>p r. snd (delete_mapping g (controlURL u) (serviceType u) (to_string (unat p)) r))
                   (upnpHistory u) r
            else r,
        u\<lparr>localAddr := [], controlURL := [], serviceType := [], isConnect := False,
          upnpHistory := [], isStarted := False, up_core := Core_Stop (up_core u)\<rparr>)) \<and>
   isRunning (up_core (snd (UPNP_Stop g (r, UPNP_Construct raw))))"
proof -
  have idle: "fold (\<lambda>p s. fst (DeletePortMapping g (to_string (unat p)) s)) ps (r, u) = (r, u)"
    if "\<not> isConnect u" for ps r and u
    using that by (induction ps) (simp_all add: DeletePortMapping_def)
  show ?thesis
    using delete_all [of "u\<lparr>isStarted := False\<rparr>" g "upnpHistory u" r]
      idle [of "u\<lparr>isStarted := False\<rparr>" "upnpHistory u" r]
    by (simp add: UPNP_Stop_def UPNPCore_Disconnect_def UPNP_Construct_def Core_Run_def)
qed

text \<open>After a start whose discovery finds no router, the client takes itself for connected
  exactly when the uninitialised flag happened to be true; a port mapping then goes out with
  an empty control URL.\<close>

theorem UPNP_connected_without_router:
  "isConnect (UPNP_HandleStart g r (UPNP_Construct raw)) =
     (case discover g r of None \<Rightarrow> raw | Some found \<Rightarrow> True) \<and>
   controlURL (UPNP_HandleStart g r (UPNP_Construct raw)) =
     (case discover g r of None \<Rightarrow> [] | Some (l, url, service) \<Rightarrow> url)"
  by (auto simp: UPNP_HandleStart_def UPNPCore_Connect_def UPNP_Construct_def split: option.splits)

end
