(* ===== verification/Nat_Client.thy ===== *)
theory Nat_Client
  imports Nat_Session Nat_UPNP
begin

text \<open>
  \<open>opennat/src/Client.cpp\<close>, handler by handler, in the style of the server: the state holds
  the sessions, the manager, the queues, what is posted to the strand and what is pending. A
  function that can throw returns the state it leaves and the exception or its value; the
  calls of the router's listing loop may not return, which is the value \<open>None\<close>. \<open>cl_step\<close> is
  the machine.
\<close>

section \<open>State\<close>

datatype cl_signal =
    OnConnected uuid SessionType
  | OnError uuid SessionType
  | OnReceiveRaw uuid "byte list"
  | OnReceiveP2P uuid "byte list"
  | OnSubscription uuid bool

text \<open>What a connection being made is for: the captures of the handlers.\<close>

datatype cl_kind = K_Stun endpoint | K_Direct SessionConfig | K_Proxy

datatype cl_task =
    C_Receive addr
  | C_ReceiveRaw addr
  | C_DoSend addr "byte list"
  | C_DoDirect SessionConfig
  | C_Direct uuid uuid

datatype cl_op =
    CO_Accept addr
  | CO_Read addr
  | CO_ReadRaw addr
  | CO_Write addr "byte list"
  | CO_Resolve cl_kind addr
  | CO_Connect cl_kind addr

type_synonym cl_entry = "uuid \<times> byte list"

record 'r Client =
  cl_heap :: sheap
  cl_fresh :: addr
  cl_clientId :: uuid
  cl_mgr :: SessionMgr
  cl_config :: ClientCfg
  cl_connectQueue :: "(uuid, endpoint) um"
  cl_sendQueue :: "cl_entry list"
  cl_posted :: "cl_task list"
  cl_pending :: "cl_op list"
  cl_connTimer :: "(endpoint \<times> uuid) timer"
  cl_acceptor :: bool
  cl_signals :: "cl_signal list"
  cl_wire :: "(addr \<times> byte list) list"
  cl_clock :: nat
  cl_core :: Core
  cl_upnp :: UPNP
  cl_router :: 'r

text \<open>
  What the operating system decides in a call: the indeterminate bytes of a new session,
  whether a socket can be opened, and how binding the acceptor ends.
\<close>

datatype bind_result = OpenFails | BindFails | Bound endpoint

record env =
  env_raw :: nat
  env_opens :: bool
  env_bind :: bind_result

definition Client_Construct :: "uuid \<Rightarrow> bool \<Rightarrow> 'r \<Rightarrow> 'r Client" where
  "Client_Construct i raw r = \<lparr>cl_heap = (\<lambda>_. Session_Construct 0), cl_fresh = 0, cl_clientId = i,
     cl_mgr = SessionMgr_new, cl_config = ClientCfg_new, cl_connectQueue = [], cl_sendQueue = [],
     cl_posted = [], cl_pending = [], cl_connTimer = timer_new, cl_acceptor = False,
     cl_signals = [], cl_wire = [], cl_clock = 0, cl_core = Core_Run (Core_Construct 2),
     cl_upnp = UPNP_Construct raw, cl_router = r\<rparr>"

definition cl_session :: "addr \<Rightarrow> (Session \<Rightarrow> Session) \<Rightarrow> 'r Client \<Rightarrow> 'r Client" where
  "cl_session a f st = st\<lparr>cl_heap := (cl_heap st)(a := f (cl_heap st a))\<rparr>"

definition cl_post :: "cl_task \<Rightarrow> 'r Client \<Rightarrow> 'r Client" where
  "cl_post t st = st\<lparr>cl_posted := cl_posted st @ [t]\<rparr>"

definition cl_start :: "cl_op \<Rightarrow> 'r Client \<Rightarrow> 'r Client" where
  "cl_start x st = st\<lparr>cl_pending := cl_pending st @ [x]\<rparr>"

definition cl_signal :: "cl_signal \<Rightarrow> 'r Client \<Rightarrow> 'r Client" where
  "cl_signal x st = st\<lparr>cl_signals := cl_signals st @ [x]\<rparr>"

definition cl_alloc :: "Session \<Rightarrow> 'r Client \<Rightarrow> 'r Client" where
  "cl_alloc s st = st\<lparr>cl_heap := (cl_heap st)(cl_fresh st := s), cl_fresh := Suc (cl_fresh st)\<rparr>"

section \<open>Accepting\<close>

definition Client_Accept :: "env \<Rightarrow> 'r Client \<Rightarrow> 'r Client" where
  "Client_Accept env st =
     cl_start (CO_Accept (cl_fresh st)) (cl_alloc (Session_Construct (env_raw env)) st)"

definition Client_HandleAccept ::
  "addr \<Rightarrow> error_code \<Rightarrow> endpoint option \<Rightarrow> env \<Rightarrow> 'r Client \<Rightarrow> 'r Client" where
  "Client_HandleAccept a ec remote env st =
     Client_Accept env
       (if failed ec then st
        else cl_post (C_Receive a)
          (cl_session a (\<lambda>s. s\<lparr>s_open := True, s_remote_ep := remote\<rparr>) st))"

definition Client_Bind :: "env \<Rightarrow> 'r Client \<Rightarrow> 'r Client \<times> (exn + unit)" where
  "Client_Bind env st =
     (if cl_acceptor st then (st, Inr ())
      else case env_bind env of
        OpenFails \<Rightarrow> (st, Inl lib_error)
      | BindFails \<Rightarrow> (st\<lparr>cl_acceptor := True\<rparr>, Inl lib_error)
      | Bound ep \<Rightarrow>
          (Client_Accept env (st\<lparr>cl_acceptor := True,
             cl_config := (cl_config st)\<lparr>bindEp := ep\<rparr>\<rparr>), Inr ()))"

section \<open>Sending\<close>

text \<open>\<open>Send\<close> appends the delimiter to the caller's message: the second result.\<close>

definition Client_SendMsg :: "uuid \<Rightarrow> byte list \<Rightarrow> 'r Client \<Rightarrow> 'r Client \<times> byte list" where
  "Client_SendMsg i buff st =
     (case SessionMgr_Find i (cl_mgr st) of
        Inl _ \<Rightarrow> (st, buff)
      | Inr a \<Rightarrow>
          (let msg = buff @ delimiter;
               st' = st\<lparr>cl_sendQueue := cl_sendQueue st @ [(i, msg)]\<rparr>
           in if length (cl_sendQueue st') > 1 then (st', msg)
              else (cl_post (C_DoSend a msg) st', msg)))"

definition Client_Send :: "lib \<Rightarrow> uuid \<Rightarrow> Command \<Rightarrow> 'r Client \<Rightarrow> 'r Client" where
  "Client_Send L i cmd st =
     (case SessionMgr_Find i (cl_mgr st) of
        Inl _ \<Rightarrow> st
      | Inr _ \<Rightarrow> fst (Client_SendMsg i (serialize L cmd) st))"

definition Client_DoSend :: "addr \<Rightarrow> byte list \<Rightarrow> 'r Client \<Rightarrow> 'r Client" where
  "Client_DoSend a msg st = cl_start (CO_Write a msg) st"

text \<open>The loop over the queue: a found session ends it, a missing one pops its entry.\<close>

fun Client_next :: "SessionMgr \<Rightarrow> cl_entry list \<Rightarrow> addr option \<times> cl_entry list" where
  "Client_next m [] = (None, [])"
| "Client_next m (e # r) =
     (case SessionMgr_Find (fst e) m of
        Inr a \<Rightarrow> (Some a, e # r)
      | Inl _ \<Rightarrow> if r = [] then (None, []) else Client_next m r)"

definition Client_HandleDoSend :: "error_code \<Rightarrow> 'r Client \<Rightarrow> 'r Client" where
  "Client_HandleDoSend ec st =
     (case tl (cl_sendQueue st) of
        [] \<Rightarrow> st\<lparr>cl_sendQueue := []\<rparr>
      | q \<Rightarrow>
          (case Client_next (cl_mgr st) q of
             (None, q') \<Rightarrow> st\<lparr>cl_sendQueue := q'\<rparr>
           | (Some a, q') \<Rightarrow> cl_post (C_DoSend a (snd (hd q'))) (st\<lparr>cl_sendQueue := q'\<rparr>)))"

definition Client_Send2Client :: "lib \<Rightarrow> uuid \<Rightarrow> byte list \<Rightarrow> 'r Client \<Rightarrow> 'r Client" where
  "Client_Send2Client L clientId msg st =
     Client_Send L (cl_clientId st) (Command_new\<lparr>protocol := Command_Protocol_P2P,
       p2p := Some (P2P_new\<lparr>p2p_protocol := P2P_Protocol_Data,
         p2p_from := uuid_to_string L (cl_clientId st), p2p_to := uuid_to_string L clientId,
         p2p_data := Some msg\<rparr>)\<rparr>) st"

definition Client_Send2Server :: "lib \<Rightarrow> byte list \<Rightarrow> 'r Client \<Rightarrow> 'r Client" where
  "Client_Send2Server L msg st =
     Client_Send L (cl_clientId st)
       (Command_new\<lparr>protocol := Command_Protocol_Data, data := Some msg\<rparr>) st"

definition Client_Subscribe :: "lib \<Rightarrow> uuid \<Rightarrow> 'r Client \<Rightarrow> 'r Client" where
  "Client_Subscribe L clientId st =
     Client_Send L (cl_clientId st) (Command_new\<lparr>protocol := Command_Protocol_Subscribe,
       subscribe := Some \<lparr>subscribe_protocol = Subscribe_Protocol_Request,
         subscribe_client_id = Some (uuid_to_string L clientId), subscribe_online = False\<rparr>\<rparr>) st"

section \<open>Connecting\<close>

definition arm_deadline :: "addr \<Rightarrow> 'r Client \<Rightarrow> 'r Client" where
  "arm_deadline a st = cl_session a (\<lambda>s. s\<lparr>s_deadline :=
     timer_wait () (timer_set (At (cl_clock st + DEADLINE)) (s_deadline s))\<rparr>) st"

definition cancel_deadline :: "addr \<Rightarrow> 'r Client \<Rightarrow> 'r Client" where
  "cancel_deadline a st = cl_session a (\<lambda>s. s\<lparr>s_deadline := timer_cancel (s_deadline s)\<rparr>) st"

text \<open>A new session with an opened socket, its deadline armed and its address being resolved.\<close>

definition open_session ::
  "env \<Rightarrow> (Session \<Rightarrow> Session) \<Rightarrow> cl_kind \<Rightarrow> 'r Client \<Rightarrow> 'r Client \<times> (exn + unit)" where
  "open_session env f kind st =
     (if \<not> env_opens env then (st, Inl lib_error)
      else
        (let a = cl_fresh st;
             s = f ((Session_Construct (env_raw env))\<lparr>s_open := True\<rparr>)
         in (cl_start (CO_Resolve kind a) (arm_deadline a (cl_alloc s st)), Inr ())))"

definition Client_Connect :: "env \<Rightarrow> endpoint \<Rightarrow> uuid \<Rightarrow> 'r Client \<Rightarrow> 'r Client \<times> (exn + unit)" where
  "Client_Connect env ep i st =
     (if \<not> isRunning (cl_core st) then (st, Inr ())
      else open_session env
        (\<lambda>s. (Session_SetType STUN (Session_SetId i s))
           \<lparr>s_timer := timer_wait i (timer_set pos_infin (s_timer s))\<rparr>) (K_Stun ep) st)"

definition Client_AsyncConnect ::
  "env \<Rightarrow> endpoint \<Rightarrow> uuid \<Rightarrow> 'r Client \<Rightarrow> 'r Client \<times> (exn + unit)" where
  "Client_AsyncConnect env ep i st =
     (if \<not> isStarted (cl_upnp st)
      then (st\<lparr>cl_connectQueue := fst (um_insert i ep (cl_connectQueue st))\<rparr>, Inr ())
      else Client_Connect env ep i st)"

definition Client_DoDirect :: "env \<Rightarrow> SessionConfig \<Rightarrow> 'r Client \<Rightarrow> 'r Client \<times> (exn + unit)" where
  "Client_DoDirect env cfg st =
     (if sc_epList cfg = []
      then ((cl_post (C_Direct (sc_clientId cfg) (sc_sessionId cfg)) st)
             \<lparr>cl_mgr := fst (SessionMgr_AddBan (sc_sessionId cfg) (cl_mgr st))\<rparr>, Inr ())
      else open_session env
        (\<lambda>s. Session_SetType (sc_sessionType cfg) (Session_SetId (sc_sessionId cfg) s))
        (K_Direct cfg) st)"

definition Client_DoProxy :: "env \<Rightarrow> SessionConfig \<Rightarrow> 'r Client \<Rightarrow> 'r Client \<times> (exn + unit)" where
  "Client_DoProxy env cfg st =
     open_session env
       (\<lambda>s. Session_SetType (sc_sessionType cfg) (Session_SetRemoteId (sc_clientId cfg)
          (Session_SetId (sc_sessionId cfg) s))) K_Proxy st"

definition Client_Proxy :: "env \<Rightarrow> SessionConfig \<Rightarrow> 'r Client \<Rightarrow> 'r Client \<times> (exn + unit)" where
  "Client_Proxy env cfg st = Client_DoProxy env (cfg\<lparr>sc_serverEp := serverEp (cl_config st)\<rparr>) st"

text \<open>
  The two completion handlers of a connection. \<open>async_connect\<close> opens a socket that was
  closed in the meantime.
\<close>

definition retry_direct :: "addr \<Rightarrow> SessionConfig \<Rightarrow> 'r Client \<Rightarrow> 'r Client" where
  "retry_direct a cfg st =
     cl_post (C_DoDirect (cfg\<lparr>sc_epList := tl (sc_epList cfg)\<rparr>)) (cancel_deadline a st)"

definition report_error :: "addr \<Rightarrow> 'r Client \<Rightarrow> 'r Client" where
  "report_error a st =
     cl_signal (OnError (s_id (cl_heap st a)) (s_type (cl_heap st a))) st"

definition Client_HandleResolve :: "cl_kind \<Rightarrow> addr \<Rightarrow> error_code \<Rightarrow> 'r Client \<Rightarrow> 'r Client" where
  "Client_HandleResolve kind a ec st =
     (if failed ec
      then (case kind of
              K_Stun ep \<Rightarrow> report_error a (cancel_deadline a st)
            | K_Direct cfg \<Rightarrow> retry_direct a cfg st
            | K_Proxy \<Rightarrow> report_error a (cancel_deadline a st))
      else cl_start (CO_Connect kind a)
        (cl_session a (\<lambda>s. s\<lparr>s_open := True\<rparr>) (arm_deadline a st)))"

definition connect_request :: "lib \<Rightarrow> Connect_Type \<Rightarrow> uuid \<Rightarrow> Command" where
  "connect_request L t i =
     connect_command (Connect_new\<lparr>connect_protocol := Connect_Protocol_Request,
       connect_type := t, connect_client_id := uuid_to_string L i\<rparr>)"

definition retry_stun :: "addr \<Rightarrow> endpoint \<Rightarrow> 'r Client \<Rightarrow> 'r Client" where
  "retry_stun a ep st =
     (let st1 = cancel_deadline a st
      in st1\<lparr>cl_connTimer := timer_wait (ep, s_id (cl_heap st1 a))
           (timer_set (At (cl_clock st1 + 5)) (cl_connTimer st1))\<rparr>)"

definition Client_AddSession :: "addr \<Rightarrow> 'r Client \<Rightarrow> 'r Client \<times> bool" where
  "Client_AddSession a st =
     (let r = SessionMgr_AddSession (cl_heap st) a (cl_mgr st) in (st\<lparr>cl_mgr := fst r\<rparr>, snd r))"

definition Client_HandleConnectStun ::
  "lib \<Rightarrow> endpoint \<Rightarrow> addr \<Rightarrow> error_code \<Rightarrow> 'r Client \<Rightarrow> 'r Client" where
  "Client_HandleConnectStun L ep a ec st =
     (if failed ec then retry_stun a ep st
      else case Client_AddSession a st of
        (st1, False) \<Rightarrow> report_error a st1
      | (st1, True) \<Rightarrow>
          (let st2 = cancel_deadline a st1;
               st3 = st2\<lparr>cl_config := (cl_config st2)\<lparr>serverEp := ep\<rparr>\<rparr>;
               st4 = cl_post (C_Receive a) st3;
               i = s_id (cl_heap st4 a)
           in Client_Send L i (connect_request L Connect_Type_Stun i) st4))"

definition Client_HandleConnectDirect ::
  "lib \<Rightarrow> SessionConfig \<Rightarrow> addr \<Rightarrow> error_code \<Rightarrow> 'r Client \<Rightarrow> 'r Client" where
  "Client_HandleConnectDirect L cfg a ec st =
     (if failed ec then retry_direct a cfg st
      else case Client_AddSession a st of
        (st1, False) \<Rightarrow> retry_direct a cfg st1
      | (st1, True) \<Rightarrow>
          (let st2 = cl_post (C_Receive a) (cancel_deadline a st1);
               i = s_id (cl_heap st2 a)
           in Client_Send L i (connect_request L Connect_Type_Direct i) st2))"

definition Client_HandleConnectProxy :: "lib \<Rightarrow> addr \<Rightarrow> error_code \<Rightarrow> 'r Client \<Rightarrow> 'r Client" where
  "Client_HandleConnectProxy L a ec st =
     (if failed ec then report_error a (cancel_deadline a st)
      else case Client_AddSession a st of
        (st1, False) \<Rightarrow> report_error a (cancel_deadline a st1)
      | (st1, True) \<Rightarrow>
          (let st2 = cancel_deadline a st1;
               i = s_id (cl_heap st2 a)
           in case s_type (cl_heap st2 a) of
                PROXYUP \<Rightarrow> cl_post (C_Receive a)
                  (Client_Send L i (connect_request L Connect_Type_Proxyup i) st2)
              | PROXYDOWN \<Rightarrow> cl_post (C_Receive a)
                  (Client_Send L i (connect_request L Connect_Type_Proxydown i) st2)
              | _ \<Rightarrow> report_error a (cancel_deadline a st2)))"

definition Client_HandleConnect ::
  "lib \<Rightarrow> cl_kind \<Rightarrow> addr \<Rightarrow> error_code \<Rightarrow> endpoint option \<Rightarrow> 'r Client \<Rightarrow> 'r Client" where
  "Client_HandleConnect L kind a ec local_ep st =
     (let st1 = (if failed ec then st else cl_session a (\<lambda>s. s\<lparr>s_local_ep := local_ep\<rparr>) st)
      in case kind of
           K_Stun ep \<Rightarrow> Client_HandleConnectStun L ep a ec st1
         | K_Direct cfg \<Rightarrow> Client_HandleConnectDirect L cfg a ec st1
         | K_Proxy \<Rightarrow> Client_HandleConnectProxy L a ec st1)"

section \<open>Opening the NAT\<close>

text \<open>
  The message that offers a direct session: the internal endpoint, and the external one when
  the router maps a port. The protocol of the inner message is set by \<open>Direct\<close>.
\<close>

definition Client_OpenNAT ::
  "lib \<Rightarrow> 'r igd \<Rightarrow> env \<Rightarrow> 'r Client \<Rightarrow> ('r Client \<times> (exn + Command)) option" where
  "Client_OpenNAT L g env st =
     (case Client_Bind env st of
        (st1, Inl e) \<Rightarrow> Some (st1, Inl e)
      | (st1, Inr _) \<Rightarrow>
          (let c = cl_config st1;
               internal = Endpoint_new\<lparr>address := addr_to_string L (ep_address (inEp c)),
                 port := port_to_string L (ep_port (bindEp c)), network := v4_to_string L (cfg_network c)\<rparr>
           in case AddPortMapping g (ep_port (bindEp c)) (cl_router st1, cl_upnp st1) of
                None \<Rightarrow> None
              | Some ((r, u), ret) \<Rightarrow>
                  (let st2 = st1\<lparr>cl_router := r, cl_upnp := u\<rparr>;
                       upnpExt = GetExternalIP g (r, u);
                       external = Endpoint_new\<lparr>
                         address := (if upnpExt = [] then addr_to_string L (ep_address (extEp c)) else upnpExt),
                         port := port_to_string L ret\<rparr>;
                       makeDirect = MakeDirect_new\<lparr>direct_internal := Some internal,
                         direct_external :=
                           (if ret \<noteq> UPNPCOMMAND_PORTMAPPING_ERROR then Some external else None)\<rparr>
                   in Some (st2, Inr (Command_new\<lparr>protocol := Command_Protocol_P2P,
                        p2p := Some (P2P_new\<lparr>p2p_make_direct := Some makeDirect\<rparr>)\<rparr>)))))"

definition direct_request :: "lib \<Rightarrow> uuid \<Rightarrow> uuid \<Rightarrow> uuid \<Rightarrow> Command \<Rightarrow> Command" where
  "direct_request L me clientId sessionId cmd =
     (let m = or_new P2P_new (p2p cmd);
          d = or_new MakeDirect_new (p2p_make_direct m)
      in cmd\<lparr>p2p := Some (m\<lparr>p2p_protocol := P2P_Protocol_MakeDirect,
           p2p_from := uuid_to_string L me, p2p_to := uuid_to_string L clientId,
           p2p_make_direct := Some (d\<lparr>direct_session_id := uuid_to_string L sessionId\<rparr>)\<rparr>)\<rparr>)"

definition Client_Direct ::
  "lib \<Rightarrow> 'r igd \<Rightarrow> env \<Rightarrow> uuid \<Rightarrow> uuid \<Rightarrow> 'r Client \<Rightarrow> ('r Client \<times> (exn + unit)) option" where
  "Client_Direct L g env clientId sessionId st =
     (case Client_OpenNAT L g env st of
        None \<Rightarrow> None
      | Some (st1, Inl e) \<Rightarrow> Some (st1, Inl e)
      | Some (st1, Inr cmd) \<Rightarrow>
          Some (Client_Send L (cl_clientId st1)
                  (direct_request L (cl_clientId st1) clientId sessionId cmd) st1, Inr ()))"

section \<open>Timeouts\<close>

definition Client_HandleConnectionTimeout ::
  "env \<Rightarrow> error_code \<Rightarrow> endpoint \<Rightarrow> uuid \<Rightarrow> 'r Client \<Rightarrow> 'r Client" where
  "Client_HandleConnectionTimeout env ec ep i st =
     (if failed ec \<and> ec \<noteq> operation_aborted then st
      else if reached (cl_clock st) (expires_at (cl_connTimer st))
      then fst (Client_Connect env ep i st)
      else st)"

definition Client_HandleDeadlineTimeout :: "error_code \<Rightarrow> addr \<Rightarrow> 'r Client \<Rightarrow> 'r Client" where
  "Client_HandleDeadlineTimeout ec a st =
     (if failed ec \<and> ec \<noteq> operation_aborted then st
      else if reached (cl_clock st) (expires_at (s_deadline (cl_heap st a)))
      then cl_session a Session_Stop st
      else st)"

definition Client_RemoveSession :: "uuid \<Rightarrow> 'r Client \<Rightarrow> 'r Client" where
  "Client_RemoveSession i st =
     (let r = SessionMgr_RemoveSession i (cl_heap st, cl_mgr st)
      in st\<lparr>cl_heap := fst r, cl_mgr := snd r\<rparr>)"

definition Client_HandleStunTimeout :: "lib \<Rightarrow> error_code \<Rightarrow> uuid \<Rightarrow> 'r Client \<Rightarrow> 'r Client" where
  "Client_HandleStunTimeout L ec i st =
     (if failed ec \<and> ec \<noteq> operation_aborted then st
      else case SessionMgr_Find i (cl_mgr st) of
        Inl _ \<Rightarrow> st
      | Inr a \<Rightarrow>
          (let rewait = (\<lambda>st. cl_session a (\<lambda>s. s\<lparr>s_timer := timer_wait (s_id s) (s_timer s)\<rparr>) st)
           in if reached (cl_clock st) (expires_at (s_timer (cl_heap st a)))
              then if s_timeout (cl_heap st a) = MAXTIMEOUT
                   then Client_RemoveSession (s_id (cl_heap st a)) st
                   else
                     (let st1 = cl_session a (\<lambda>s. s\<lparr>s_timeout := s_timeout s + 1\<rparr>) st;
                          st2 = Client_Send L (s_id (cl_heap st1 a)) heartbeat_ping st1;
                          st3 = cl_session a (\<lambda>s. s\<lparr>s_timer :=
                                  timer_set (At (cl_clock st2 + 5)) (s_timer s)\<rparr>) st2
                      in rewait st3)
              else rewait st))"

section \<open>Commands\<close>

definition cl_refuse :: "addr \<Rightarrow> 'r Client \<Rightarrow> 'r Client" where
  "cl_refuse a st = cl_session a (Session_Stop \<circ> Session_SetId nil_uuid) st"

text \<open>\<open>SetReady(true)\<close> followed by the signal.\<close>

definition cl_connected :: "addr \<Rightarrow> 'r Client \<Rightarrow> 'r Client" where
  "cl_connected a st =
     (let st1 = cl_session a (Session_SetReady True) st
      in cl_signal (OnConnected (s_id (cl_heap st1 a)) (s_type (cl_heap st1 a))) st1)"

definition ready_reply :: "Connect_Type \<Rightarrow> Command" where
  "ready_reply t = connect_command ((connect_reply t)\<lparr>connect_ready := True\<rparr>)"

definition Client_RequestStun ::
  "lib \<Rightarrow> addr \<Rightarrow> Connect \<Rightarrow> 'r Client \<Rightarrow> 'r Client \<times> (exn + bool)" where
  "Client_RequestStun L a c st =
     (case uuid_of_string L (connect_client_id c) of
        None \<Rightarrow> (st, Inl lib_error)
      | Some i \<Rightarrow>
          (case Client_AddSession a (cl_session a (Session_SetType STUN \<circ> Session_SetId i) st) of
             (st1, False) \<Rightarrow> (cl_refuse a st1, Inr True)
           | (st1, True) \<Rightarrow>
               (let st2 = cl_connected a (st1\<lparr>cl_config := (cl_config st1)\<lparr>isConnected := True\<rparr>\<rparr>)
                in (Client_Send L i (ready_reply Connect_Type_Stun) st2, Inr True))))"

definition Client_RequestDirect ::
  "lib \<Rightarrow> addr \<Rightarrow> Connect \<Rightarrow> 'r Client \<Rightarrow> 'r Client \<times> (exn + bool)" where
  "Client_RequestDirect L a c st =
     (case uuid_of_string L (connect_client_id c) of
        None \<Rightarrow> (st, Inl lib_error)
      | Some i \<Rightarrow>
          (case Client_AddSession a (cl_session a (Session_SetType DIRECT \<circ> Session_SetId i) st) of
             (st1, False) \<Rightarrow> (cl_refuse a st1, Inr True)
           | (st1, True) \<Rightarrow>
               (cl_connected a (Client_Send L i (ready_reply Connect_Type_Direct) st1), Inr False)))"

text \<open>
  The reply of the server: the external endpoint it saw, and the internal one of the socket,
  whose class gives the network. Each assignment stays when a later conversion throws.
\<close>

definition Client_ReplyStunExternal ::
  "lib \<Rightarrow> addr \<Rightarrow> Endpoint \<Rightarrow> 'r Client \<Rightarrow> 'r Client \<times> (exn + unit)" where
  "Client_ReplyStunExternal L a e st =
     (case addr_of_string L (address e) of
        None \<Rightarrow> (st, Inl lib_error)
      | Some ip \<Rightarrow>
          (let st1 = st\<lparr>cl_config := (cl_config st)\<lparr>extEp := (extEp (cl_config st))\<lparr>ep_address := ip\<rparr>\<rparr>\<rparr>
           in case port_of_string L (port e) of
                None \<Rightarrow> (st1, Inl lib_error)
              | Some p \<Rightarrow>
                  (let c = cl_config st1;
                       local_ep = (case s_local_ep (cl_heap st1 a) of None \<Rightarrow> default_endpoint | Some x \<Rightarrow> x);
                       c' = c\<lparr>extEp := (extEp c)\<lparr>ep_port := p\<rparr>, inEp := local_ep\<rparr>
                   in case ep_address local_ep of
                        V6 _ \<Rightarrow> (st1\<lparr>cl_config := c'\<rparr>, Inl lib_error)
                      | V4 w \<Rightarrow> (st1\<lparr>cl_config := c'\<lparr>netmask := class_mask L w,
                          cfg_network := w AND class_mask L w\<rparr>\<rparr>, Inr ()))))"

definition Client_ReplyStun ::
  "lib \<Rightarrow> addr \<Rightarrow> Connect \<Rightarrow> 'r Client \<Rightarrow> 'r Client \<times> (exn + bool)" where
  "Client_ReplyStun L a c st =
     (case (case connect_external c of
              None \<Rightarrow> (st, Inr ())
            | Some e \<Rightarrow> Client_ReplyStunExternal L a e st) of
        (st1, Inl e) \<Rightarrow> (st1, Inl e)
      | (st1, Inr _) \<Rightarrow>
          (if connect_ready c
           then (let st2 = st1\<lparr>cl_config := (cl_config st1)\<lparr>isConnected := True\<rparr>\<rparr>;
                     st3 = cl_session a (\<lambda>s. (Session_SetReady True s)
                             \<lparr>s_timer := timer_set (At (cl_clock st2 + 5)) (s_timer s)\<rparr>) st2
                 in (cl_signal (OnConnected (s_id (cl_heap st3 a)) (s_type (cl_heap st3 a))) st3, Inr True))
           else (st1, Inr True)))"

definition make_proxy :: "lib \<Rightarrow> uuid \<Rightarrow> uuid \<Rightarrow> uuid \<Rightarrow> Command" where
  "make_proxy L me remote sessionId =
     Command_new\<lparr>protocol := Command_Protocol_P2P,
       p2p := Some (P2P_new\<lparr>p2p_protocol := P2P_Protocol_MakeProxy,
         p2p_to := uuid_to_string L remote, p2p_from := uuid_to_string L me,
         p2p_make_proxy := Some \<lparr>proxy_session_id = uuid_to_string L sessionId\<rparr>\<rparr>)\<rparr>"

definition Client_ReplyDirect :: "addr \<Rightarrow> Connect \<Rightarrow> 'r Client \<Rightarrow> 'r Client \<times> (exn + bool)" where
  "Client_ReplyDirect a c st =
     (if connect_ready c then (cl_connected a st, Inr False) else (st, Inr True))"

definition Client_ReplyProxyup ::
  "lib \<Rightarrow> addr \<Rightarrow> Connect \<Rightarrow> 'r Client \<Rightarrow> 'r Client \<times> (exn + bool)" where
  "Client_ReplyProxyup L a c st =
     (let s = cl_heap st a
      in if connect_initialized c
         then (Client_Send L (cl_clientId st) (make_proxy L (cl_clientId st) (s_remoteId s) (s_id s)) st, Inr True)
         else if connect_ready c
         then (cl_connected a (Client_Send L (s_id s) (ready_reply Connect_Type_Proxydown) st), Inr False)
         else (st, Inr True))"

definition Client_ReplyProxydown ::
  "lib \<Rightarrow> addr \<Rightarrow> Connect \<Rightarrow> 'r Client \<Rightarrow> 'r Client \<times> (exn + bool)" where
  "Client_ReplyProxydown L a c st =
     (if connect_initialized c
      then (Client_Send L (s_id (cl_heap st a)) (ready_reply Connect_Type_Proxyup) st, Inr True)
      else if connect_ready c then (cl_connected a st, Inr False)
      else (st, Inr True))"

definition Client_ProcessConnect ::
  "lib \<Rightarrow> addr \<Rightarrow> Connect \<Rightarrow> 'r Client \<Rightarrow> 'r Client \<times> (exn + bool)" where
  "Client_ProcessConnect L a c st =
     (case connect_protocol c of
        Connect_Protocol_Request \<Rightarrow>
          (case connect_type c of
             Connect_Type_Stun \<Rightarrow> Client_RequestStun L a c st
           | Connect_Type_Direct \<Rightarrow> Client_RequestDirect L a c st
           | _ \<Rightarrow> (st, Inr True))
      | Connect_Protocol_Reply \<Rightarrow>
          (case connect_type c of
             Connect_Type_Stun \<Rightarrow> Client_ReplyStun L a c st
           | Connect_Type_Direct \<Rightarrow> Client_ReplyDirect a c st
           | Connect_Type_Proxyup \<Rightarrow> Client_ReplyProxyup L a c st
           | Connect_Type_Proxydown \<Rightarrow> Client_ReplyProxydown L a c st))"

definition Client_Heartbeat :: "lib \<Rightarrow> addr \<Rightarrow> Command \<Rightarrow> 'r Client \<Rightarrow> 'r Client" where
  "Client_Heartbeat L a cmd st =
     (let hb = or_new Heartbeat_new (heartbeat cmd)
      in if pong hb then cl_session a (\<lambda>s. s\<lparr>s_timeout := 0\<rparr>) st
         else if ping hb
         then (let st1 = cl_session a (\<lambda>s. s\<lparr>s_timer :=
                           timer_set (At (cl_clock st + 10)) (s_timer s), s_timeout := 0\<rparr>) st
               in Client_Send L (s_id (cl_heap st1 a)) heartbeat_pong st1)
         else st)"

definition Client_SubscribeReply :: "lib \<Rightarrow> Command \<Rightarrow> 'r Client \<Rightarrow> 'r Client \<times> (exn + bool)" where
  "Client_SubscribeReply L cmd st =
     (case subscribe cmd of
        None \<Rightarrow> (st, Inr True)
      | Some sub \<Rightarrow>
          if subscribe_protocol sub = Subscribe_Protocol_Reply
          then (case subscribe_client_id sub of
                  None \<Rightarrow> (st, Inl (runtime_error ''Invalid client id''))
                | Some txt \<Rightarrow>
                    (case uuid_of_string L txt of
                       None \<Rightarrow> (st, Inl lib_error)
                     | Some i \<Rightarrow> (cl_signal (OnSubscription i (subscribe_online sub)) st, Inr True)))
          else (st, Inr True))"

definition Client_Process :: "lib \<Rightarrow> addr \<Rightarrow> Command \<Rightarrow> 'r Client \<Rightarrow> 'r Client \<times> (exn + bool)" where
  "Client_Process L a cmd st =
     (case protocol cmd of
        Command_Protocol_Connect \<Rightarrow>
          (case connect cmd of None \<Rightarrow> (st, Inr True) | Some c \<Rightarrow> Client_ProcessConnect L a c st)
      | Command_Protocol_Heartbeat \<Rightarrow> (Client_Heartbeat L a cmd st, Inr True)
      | Command_Protocol_Subscribe \<Rightarrow> Client_SubscribeReply L cmd st
      | _ \<Rightarrow> (st, Inr True))"

section \<open>Messages of other clients\<close>

definition with_uuid ::
  "lib \<Rightarrow> string \<Rightarrow> (uuid \<Rightarrow> 'r Client \<times> (exn + unit)) \<Rightarrow> 'r Client \<Rightarrow> 'r Client \<times> (exn + unit)" where
  "with_uuid L txt f st =
     (case uuid_of_string L txt of None \<Rightarrow> (st, Inl lib_error) | Some i \<Rightarrow> f i)"

text \<open>An endpoint of a message; \<open>None\<close> when a conversion throws.\<close>

definition read_endpoint :: "lib \<Rightarrow> Endpoint \<Rightarrow> endpoint option" where
  "read_endpoint L e =
     (case (addr_of_string L (address e), port_of_string L (port e)) of
        (Some ip, Some p) \<Rightarrow> Some \<lparr>ep_address = ip, ep_port = p\<rparr>
      | _ \<Rightarrow> None)"

definition internal_endpoints :: "lib \<Rightarrow> u32 \<Rightarrow> MakeDirect \<Rightarrow> endpoint list option" where
  "internal_endpoints L net d =
     (case direct_internal d of
        None \<Rightarrow> Some []
      | Some e \<Rightarrow>
          (case v4_of_string L (network e) of
             None \<Rightarrow> None
           | Some n \<Rightarrow> if n = net then map_option (\<lambda>x. [x]) (read_endpoint L e) else Some []))"

definition external_endpoints :: "lib \<Rightarrow> MakeDirect \<Rightarrow> endpoint list option" where
  "external_endpoints L d =
     (case direct_external d of
        None \<Rightarrow> Some []
      | Some e \<Rightarrow> map_option (\<lambda>x. [x]) (read_endpoint L e))"

text \<open>A new session configuration: \<open>default_endpoint\<close> until a server endpoint is assigned.\<close>

definition new_config :: "uuid \<Rightarrow> SessionType \<Rightarrow> uuid \<Rightarrow> endpoint list \<Rightarrow> SessionConfig" where
  "new_config sessionId t clientId eps = \<lparr>sc_clientId = clientId, sc_epList = eps,
     sc_sessionId = sessionId, sc_sessionType = t, sc_serverEp = default_endpoint\<rparr>"

text \<open>The answer to a direct request for a session that is banned here.\<close>

definition direct_unreachable :: "lib \<Rightarrow> uuid \<Rightarrow> string \<Rightarrow> uuid \<Rightarrow> Command" where
  "direct_unreachable L me to sessionId =
     Command_new\<lparr>protocol := Command_Protocol_P2P,
       p2p := Some (P2P_new\<lparr>p2p_protocol := P2P_Protocol_MakeDirect,
         p2p_from := uuid_to_string L me, p2p_to := to,
         p2p_make_direct := Some (MakeDirect_new\<lparr>direct_session_id := uuid_to_string L sessionId,
           direct_error := Some \<lparr>error_protocol = Error_Protocol_Unreachable,
             error_msg = unreachable\<rparr>\<rparr>)\<rparr>)\<rparr>"

definition Client_UnBan :: "uuid \<Rightarrow> 'r Client \<Rightarrow> 'r Client" where
  "Client_UnBan i st = st\<lparr>cl_mgr := fst (SessionMgr_RemoveBan i (cl_mgr st))\<rparr>"

definition Client_MakeDirectError ::
  "lib \<Rightarrow> env \<Rightarrow> P2P \<Rightarrow> Error \<Rightarrow> uuid \<Rightarrow> 'r Client \<Rightarrow> 'r Client \<times> (exn + unit)" where
  "Client_MakeDirectError L env m e sessionId st =
     (let st1 = Client_UnBan sessionId st
      in if error_protocol e = Error_Protocol_Unreachable
         then with_uuid L (p2p_from m) (\<lambda>clientId.
           Client_DoProxy env ((new_config sessionId PROXYUP clientId [])
             \<lparr>sc_serverEp := serverEp (cl_config st1)\<rparr>) st1) st1
         else (st1, Inr ()))"

definition Client_MakeDirectOffer ::
  "lib \<Rightarrow> env \<Rightarrow> P2P \<Rightarrow> MakeDirect \<Rightarrow> uuid \<Rightarrow> 'r Client \<Rightarrow> 'r Client \<times> (exn + unit)" where
  "Client_MakeDirectOffer L env m d sessionId st =
     with_uuid L (p2p_from m) (\<lambda>clientId.
       (case (internal_endpoints L (cfg_network (cl_config st)) d, external_endpoints L d) of
          (Some xs, Some ys) \<Rightarrow>
            Client_DoDirect env (new_config sessionId DIRECT clientId (xs @ ys)) st
        | _ \<Rightarrow> (st, Inl lib_error))) st"

definition Client_MakeDirect ::
  "lib \<Rightarrow> env \<Rightarrow> P2P \<Rightarrow> 'r Client \<Rightarrow> 'r Client \<times> (exn + unit)" where
  "Client_MakeDirect L env m st =
     (case p2p_make_direct m of
        None \<Rightarrow> (st, Inr ())
      | Some d \<Rightarrow>
          with_uuid L (direct_session_id d) (\<lambda>sessionId.
            (case direct_error d of
               Some e \<Rightarrow> Client_MakeDirectError L env m e sessionId st
             | None \<Rightarrow>
                 (if SessionMgr_IsBanned sessionId (cl_mgr st)
                  then (Client_Send L (cl_clientId st)
                          (direct_unreachable L (cl_clientId st) (p2p_from m) sessionId)
                          (Client_UnBan sessionId st), Inr ())
                  else Client_MakeDirectOffer L env m d sessionId st))) st)"

definition Client_MakeProxy ::
  "lib \<Rightarrow> env \<Rightarrow> P2P \<Rightarrow> 'r Client \<Rightarrow> 'r Client \<times> (exn + unit)" where
  "Client_MakeProxy L env m st =
     (case p2p_make_proxy m of
        None \<Rightarrow> (st, Inr ())
      | Some d \<Rightarrow>
          with_uuid L (proxy_session_id d) (\<lambda>sessionId.
            with_uuid L (p2p_from m) (\<lambda>clientId.
              Client_DoProxy env ((new_config sessionId PROXYDOWN clientId [])
                \<lparr>sc_serverEp := serverEp (cl_config st)\<rparr>) st) st) st)"

definition Client_ProcessP2P ::
  "lib \<Rightarrow> env \<Rightarrow> addr \<Rightarrow> P2P \<Rightarrow> 'r Client \<Rightarrow> 'r Client \<times> (exn + unit)" where
  "Client_ProcessP2P L env a m st =
     (case p2p_protocol m of
        P2P_Protocol_Error \<Rightarrow>
          (if error_protocol (or_new Error_new (p2p_error m)) = Error_Protocol_Unreachable
           then with_uuid L (p2p_from m) (\<lambda>i. (cl_signal (OnError i (s_type (cl_heap st a))) st, Inr ())) st
           else (st, Inr ()))
      | P2P_Protocol_MakeDirect \<Rightarrow> Client_MakeDirect L env m st
      | P2P_Protocol_MakeProxy \<Rightarrow> Client_MakeProxy L env m st
      | P2P_Protocol_Data \<Rightarrow>
          (case p2p_data m of
             None \<Rightarrow> (st, Inr ())
           | Some bs \<Rightarrow> with_uuid L (p2p_from m) (\<lambda>i. (cl_signal (OnReceiveP2P i bs) st, Inr ())) st))"

section \<open>Receiving\<close>

definition Client_Receive :: "addr \<Rightarrow> 'r Client \<Rightarrow> 'r Client" where
  "Client_Receive a st = cl_start (CO_Read a) st"

definition Client_ReceiveRaw :: "addr \<Rightarrow> 'r Client \<Rightarrow> 'r Client" where
  "Client_ReceiveRaw a st = cl_start (CO_ReadRaw a) st"

definition Client_ReceiveCatch :: "addr \<Rightarrow> 'r Client \<Rightarrow> 'r Client" where
  "Client_ReceiveCatch a st =
     (let st1 = (if s_id (cl_heap st a) = cl_clientId st
                 then st\<lparr>cl_config := (cl_config st)\<lparr>isConnected := False\<rparr>\<rparr> else st)
      in report_error a (Client_RemoveSession (s_id (cl_heap st1 a)) st1))"

definition cl_consume :: "addr \<Rightarrow> nat \<Rightarrow> 'r Client \<Rightarrow> 'r Client" where
  "cl_consume a n st = cl_session a (\<lambda>s. s\<lparr>s_buffer := drop n (s_buffer s)\<rparr>) st"

definition Client_HandleReceive ::
  "lib \<Rightarrow> env \<Rightarrow> addr \<Rightarrow> error_code \<Rightarrow> nat \<Rightarrow> 'r Client \<Rightarrow> 'r Client" where
  "Client_HandleReceive L env a ec n st =
     (if failed ec then Client_ReceiveCatch a st
      else case parse L (take (n - length delimiter) (s_buffer (cl_heap st a))) of
        None \<Rightarrow> Client_ReceiveCatch a st
      | Some cmd \<Rightarrow>
          (case (protocol cmd, p2p cmd) of
             (Command_Protocol_P2P, Some m) \<Rightarrow>
               (case Client_ProcessP2P L env a m st of
                  (st1, Inl _) \<Rightarrow> Client_ReceiveCatch a st1
                | (st1, Inr _) \<Rightarrow> cl_post (C_Receive a) (cl_consume a n st1))
           | _ \<Rightarrow>
               (case Client_Process L a cmd st of
                  (st1, Inl _) \<Rightarrow> Client_ReceiveCatch a st1
                | (st1, Inr again) \<Rightarrow>
                    cl_post (if again then C_Receive a else C_ReceiveRaw a) (cl_consume a n st1))))"

definition Client_HandleReceiveRaw :: "addr \<Rightarrow> error_code \<Rightarrow> nat \<Rightarrow> 'r Client \<Rightarrow> 'r Client" where
  "Client_HandleReceiveRaw a ec n st =
     (if failed ec then Client_ReceiveCatch a st
      else
        (let st1 = cl_signal (OnReceiveRaw (s_id (cl_heap st a))
                     (take (n - length delimiter) (s_buffer (cl_heap st a)))) st
         in cl_post (C_ReceiveRaw a) (cl_consume a n st1)))"

section \<open>Starting and stopping\<close>

text \<open>
  \<open>StartUPNP\<close> posts the start to the service of the \<open>UPNPClient\<close> and then connects the slot
  that makes the queued connections: two steps, between which the start may already run.
\<close>

definition Client_StartUPNP_post :: "'r Client \<Rightarrow> 'r Client" where
  "Client_StartUPNP_post st = st\<lparr>cl_upnp := UPNP_Start (cl_upnp st)\<rparr>"

definition Client_StartUPNP_slot :: "'r Client \<Rightarrow> 'r Client" where
  "Client_StartUPNP_slot st = st\<lparr>cl_upnp := (cl_upnp st)\<lparr>up_slots := up_slots (cl_upnp st) + 1\<rparr>\<rparr>"

text \<open>The slot; an exception leaves the loop.\<close>

fun Client_ConnectAll :: "env \<Rightarrow> (uuid, endpoint) um \<Rightarrow> 'r Client \<Rightarrow> 'r Client \<times> (exn + unit)" where
  "Client_ConnectAll env [] st = (st, Inr ())"
| "Client_ConnectAll env (e # r) st =
     (case Client_Connect env (snd e) (fst e) st of
        (st1, Inl x) \<Rightarrow> (st1, Inl x)
      | (st1, Inr _) \<Rightarrow> Client_ConnectAll env r st1)"

definition Client_OnStarted :: "env \<Rightarrow> 'r Client \<Rightarrow> 'r Client \<times> (exn + unit)" where
  "Client_OnStarted env st =
     (case Client_ConnectAll env (cl_connectQueue st) st of
        (st1, Inl x) \<Rightarrow> (st1, Inl x)
      | (st1, Inr _) \<Rightarrow> (st1\<lparr>cl_connectQueue := []\<rparr>, Inr ()))"

fun Client_Slots :: "env \<Rightarrow> nat \<Rightarrow> 'r Client \<Rightarrow> 'r Client \<times> (exn + unit)" where
  "Client_Slots env 0 st = (st, Inr ())"
| "Client_Slots env (Suc n) st =
     (case Client_OnStarted env st of
        (st1, Inl x) \<Rightarrow> (st1, Inl x)
      | (st1, Inr _) \<Rightarrow> Client_Slots env n st1)"

definition Client_HandleUPNPStart :: "'r igd \<Rightarrow> env \<Rightarrow> 'r Client \<Rightarrow> 'r Client \<times> (exn + unit)" where
  "Client_HandleUPNPStart g env st =
     (let st1 = st\<lparr>cl_upnp := UPNP_HandleStart g (cl_router st) (cl_upnp st)\<rparr>
      in Client_Slots env (up_slots (cl_upnp st1)) st1)"

definition Client_Disconnect :: "'r Client \<Rightarrow> 'r Client" where
  "Client_Disconnect st =
     (let r = SessionMgr_Stop (cl_heap st, cl_mgr st) in st\<lparr>cl_heap := fst r, cl_mgr := snd r\<rparr>)"

definition Client_Stop :: "'r igd \<Rightarrow> 'r Client \<Rightarrow> 'r Client" where
  "Client_Stop g st =
     (if \<not> isRunning (cl_core st) then st
      else
        (let st1 = st\<lparr>cl_connTimer := timer_cancel (cl_connTimer st)\<rparr>;
             ru = UPNP_Stop g (cl_router st1, cl_upnp st1);
             st2 = Client_Disconnect (st1\<lparr>cl_router := fst ru, cl_upnp := snd ru\<rparr>)
         in st2\<lparr>cl_core := Core_Stop (cl_core st2)\<rparr>))"

section \<open>The machine\<close>

datatype cl_call =
    Call_Connect endpoint uuid
  | Call_AsyncConnect endpoint uuid
  | Call_Bind
  | Call_Direct uuid uuid
  | Call_Proxy SessionConfig
  | Call_Send uuid "byte list"
  | Call_Send2Client uuid "byte list"
  | Call_Send2Server "byte list"
  | Call_Subscribe uuid
  | Call_StartUPNP_post
  | Call_StartUPNP_slot
  | Call_Disconnect
  | Call_Stop

datatype cl_event =
    CE_Run nat env
  | CE_Accept nat error_code "endpoint option" env
  | CE_Read nat error_code "byte list" env
  | CE_Write nat error_code
  | CE_Resolve nat error_code
  | CE_Connect nat error_code "endpoint option"
  | CE_Timer addr nat
  | CE_Deadline addr nat
  | CE_ConnTimer nat env
  | CE_UPNP env
  | CE_Tick nat
  | CE_Call cl_call env

text \<open>An exception that leaves a posted handler ends the program.\<close>

definition uncaught :: "'s \<times> (exn + unit) \<Rightarrow> 's run" where
  "uncaught r = (case r of (st, Inl _) \<Rightarrow> Crash | (st, Inr _) \<Rightarrow> Done st)"

definition cl_run_task :: "lib \<Rightarrow> 'r igd \<Rightarrow> env \<Rightarrow> cl_task \<Rightarrow> 'r Client \<Rightarrow> 'r Client run" where
  "cl_run_task L g env t st =
     (case t of
        C_Receive a \<Rightarrow> Done (Client_Receive a st)
      | C_ReceiveRaw a \<Rightarrow> Done (Client_ReceiveRaw a st)
      | C_DoSend a msg \<Rightarrow> Done (Client_DoSend a msg st)
      | C_DoDirect cfg \<Rightarrow> uncaught (Client_DoDirect env cfg st)
      | C_Direct clientId sessionId \<Rightarrow>
          (case Client_Direct L g env clientId sessionId st of
             None \<Rightarrow> Hang | Some r \<Rightarrow> uncaught r))"

text \<open>A call of the program: an exception goes to the caller.\<close>

definition cl_call :: "lib \<Rightarrow> 'r igd \<Rightarrow> env \<Rightarrow> cl_call \<Rightarrow> 'r Client \<Rightarrow> 'r Client run" where
  "cl_call L g env c st =
     (case c of
        Call_Connect ep i \<Rightarrow> Done (fst (Client_Connect env ep i st))
      | Call_AsyncConnect ep i \<Rightarrow> Done (fst (Client_AsyncConnect env ep i st))
      | Call_Bind \<Rightarrow> Done (fst (Client_Bind env st))
      | Call_Direct clientId sessionId \<Rightarrow>
          (case Client_Direct L g env clientId sessionId st of None \<Rightarrow> Hang | Some r \<Rightarrow> Done (fst r))
      | Call_Proxy cfg \<Rightarrow> Done (fst (Client_Proxy env cfg st))
      | Call_Send i msg \<Rightarrow> Done (fst (Client_SendMsg i msg st))
      | Call_Send2Client i msg \<Rightarrow> Done (Client_Send2Client L i msg st)
      | Call_Send2Server msg \<Rightarrow> Done (Client_Send2Server L msg st)
      | Call_Subscribe i \<Rightarrow> Done (Client_Subscribe L i st)
      | Call_StartUPNP_post \<Rightarrow> Done (Client_StartUPNP_post st)
      | Call_StartUPNP_slot \<Rightarrow> Done (Client_StartUPNP_slot st)
      | Call_Disconnect \<Rightarrow> Done (Client_Disconnect st)
      | Call_Stop \<Rightarrow> Done (Client_Stop g st))"

definition cl_drop :: "nat \<Rightarrow> 'r Client \<Rightarrow> 'r Client" where
  "cl_drop i st = st\<lparr>cl_pending := remove_at i (cl_pending st)\<rparr>"

definition cl_read_event ::
  "nat \<Rightarrow> addr \<Rightarrow> error_code \<Rightarrow> byte list \<Rightarrow> (error_code \<Rightarrow> nat \<Rightarrow> 'r Client \<Rightarrow> 'r Client) \<Rightarrow> 'r Client \<Rightarrow> 'r Client" where
  "cl_read_event i a ec bs handler st =
     (if failed ec then handler ec 0 (cl_drop i st)
      else if \<not> s_open (cl_heap st a) then st
      else
        (let st1 = cl_session a (\<lambda>s. s\<lparr>s_buffer := s_buffer s @ bs\<rparr>) st
         in case read_until delimiter (s_buffer (cl_heap st1 a)) of
              None \<Rightarrow> st1
            | Some n \<Rightarrow> handler ec_ok n (cl_drop i st1)))"

definition cl_log :: "addr \<Rightarrow> byte list \<Rightarrow> error_code \<Rightarrow> 'r Client \<Rightarrow> 'r Client" where
  "cl_log a bs ec st = (if failed ec then st else st\<lparr>cl_wire := cl_wire st @ [(a, bs)]\<rparr>)"

definition cl_complete :: "lib \<Rightarrow> nat \<Rightarrow> cl_event \<Rightarrow> 'r Client \<Rightarrow> 'r Client" where
  "cl_complete L i e st =
     (case (e, cl_pending st ! i) of
        (CE_Accept _ ec remote env, CO_Accept a) \<Rightarrow> Client_HandleAccept a ec remote env (cl_drop i st)
      | (CE_Read _ ec bs env, CO_Read a) \<Rightarrow>
          cl_read_event i a ec bs (Client_HandleReceive L env a) st
      | (CE_Read _ ec bs env, CO_ReadRaw a) \<Rightarrow>
          cl_read_event i a ec bs (Client_HandleReceiveRaw a) st
      | (CE_Write _ ec, CO_Write a msg) \<Rightarrow>
          (if failed ec \<or> s_open (cl_heap st a)
           then Client_HandleDoSend ec (cl_log a msg ec (cl_drop i st)) else st)
      | (CE_Resolve _ ec, CO_Resolve kind a) \<Rightarrow> Client_HandleResolve kind a ec (cl_drop i st)
      | (CE_Connect _ ec local_ep, CO_Connect kind a) \<Rightarrow>
          (if failed ec \<or> s_open (cl_heap st a)
           then Client_HandleConnect L kind a ec local_ep (cl_drop i st) else st)
      | _ \<Rightarrow> st)"

fun cl_step :: "lib \<Rightarrow> 'r igd \<Rightarrow> cl_event \<Rightarrow> 'r Client \<Rightarrow> 'r Client run" where
  "cl_step L g (CE_Run i env) st =
     (if isRunning (cl_core st) \<and> i < length (cl_posted st)
      then cl_run_task L g env (cl_posted st ! i) (st\<lparr>cl_posted := remove_at i (cl_posted st)\<rparr>)
      else Done st)"
| "cl_step L g (CE_Timer a j) st =
     (if isRunning (cl_core st) \<and> timer_ready (cl_clock st) j (s_timer (cl_heap st a))
      then (case timer_take j (s_timer (cl_heap st a)) of
        (i, ec, t) \<Rightarrow> Done (Client_HandleStunTimeout L ec i (cl_session a (\<lambda>s. s\<lparr>s_timer := t\<rparr>) st)))
      else Done st)"
| "cl_step L g (CE_Deadline a j) st =
     (if isRunning (cl_core st) \<and> timer_ready (cl_clock st) j (s_deadline (cl_heap st a))
      then (case timer_take j (s_deadline (cl_heap st a)) of
        (_, ec, t) \<Rightarrow> Done (Client_HandleDeadlineTimeout ec a (cl_session a (\<lambda>s. s\<lparr>s_deadline := t\<rparr>) st)))
      else Done st)"
| "cl_step L g (CE_ConnTimer j env) st =
     (if isRunning (cl_core st) \<and> timer_ready (cl_clock st) j (cl_connTimer st)
      then (case timer_take j (cl_connTimer st) of
        ((ep, i), ec, t) \<Rightarrow>
          Done (Client_HandleConnectionTimeout env ec ep i (st\<lparr>cl_connTimer := t\<rparr>)))
      else Done st)"
| "cl_step L g (CE_UPNP env) st =
     (if isRunning (up_core (cl_upnp st)) \<and> up_starting (cl_upnp st) > 0
      then uncaught (Client_HandleUPNPStart g env st)
      else Done st)"
| "cl_step L g (CE_Tick n) st = Done (st\<lparr>cl_clock := cl_clock st + n\<rparr>)"
| "cl_step L g (CE_Call c env) st = cl_call L g env c st"
| "cl_step L g (CE_Accept i ec remote env) st =
     Done (if isRunning (cl_core st) \<and> i < length (cl_pending st)
       then cl_complete L i (CE_Accept i ec remote env) st else st)"
| "cl_step L g (CE_Read i ec bs env) st =
     Done (if isRunning (cl_core st) \<and> i < length (cl_pending st)
       then cl_complete L i (CE_Read i ec bs env) st else st)"
| "cl_step L g (CE_Write i ec) st =
     Done (if isRunning (cl_core st) \<and> i < length (cl_pending st)
       then cl_complete L i (CE_Write i ec) st else st)"
| "cl_step L g (CE_Resolve i ec) st =
     Done (if isRunning (cl_core st) \<and> i < length (cl_pending st)
       then cl_complete L i (CE_Resolve i ec) st else st)"
| "cl_step L g (CE_Connect i ec local_ep) st =
     Done (if isRunning (cl_core st) \<and> i < length (cl_pending st)
       then cl_complete L i (CE_Connect i ec local_ep) st else st)"

fun cl_steps :: "lib \<Rightarrow> 'r igd \<Rightarrow> cl_event list \<Rightarrow> 'r Client \<Rightarrow> 'r Client run" where
  "cl_steps L g [] st = Done st"
| "cl_steps L g (e # es) st = bind_run (cl_step L g e st) (cl_steps L g es)"

end
