(* ===== verification/Nat_Client_Props.thy ===== *)
theory Nat_Client_Props
  imports Nat_Client Send_Queue
begin

text \<open>
  Lemmas about the client: the frames of its helpers, the loop over the queue, the
  interpretation of the send-queue contract, and the invariant that at most one write of the
  queue is in flight, over every step of the machine.
\<close>

section \<open>Frames\<close>

lemma cl_session_sel [simp]:
  "cl_heap (cl_session a f st) = (cl_heap st)(a := f (cl_heap st a))"
  "cl_fresh (cl_session a f st) = cl_fresh st" "cl_clientId (cl_session a f st) = cl_clientId st"
  "cl_mgr (cl_session a f st) = cl_mgr st" "cl_config (cl_session a f st) = cl_config st"
  "cl_connectQueue (cl_session a f st) = cl_connectQueue st"
  "cl_sendQueue (cl_session a f st) = cl_sendQueue st" "cl_posted (cl_session a f st) = cl_posted st"
  "cl_pending (cl_session a f st) = cl_pending st" "cl_connTimer (cl_session a f st) = cl_connTimer st"
  "cl_signals (cl_session a f st) = cl_signals st" "cl_clock (cl_session a f st) = cl_clock st"
  "cl_core (cl_session a f st) = cl_core st" "cl_upnp (cl_session a f st) = cl_upnp st"
  "cl_router (cl_session a f st) = cl_router st" "cl_acceptor (cl_session a f st) = cl_acceptor st"
  by (simp_all add: cl_session_def)

lemma cl_post_sel [simp]:
  "cl_heap (cl_post t st) = cl_heap st" "cl_fresh (cl_post t st) = cl_fresh st"
  "cl_clientId (cl_post t st) = cl_clientId st" "cl_mgr (cl_post t st) = cl_mgr st"
  "cl_config (cl_post t st) = cl_config st" "cl_connectQueue (cl_post t st) = cl_connectQueue st"
  "cl_sendQueue (cl_post t st) = cl_sendQueue st" "cl_posted (cl_post t st) = cl_posted st @ [t]"
  "cl_pending (cl_post t st) = cl_pending st" "cl_connTimer (cl_post t st) = cl_connTimer st"
  "cl_signals (cl_post t st) = cl_signals st" "cl_clock (cl_post t st) = cl_clock st"
  "cl_core (cl_post t st) = cl_core st" "cl_upnp (cl_post t st) = cl_upnp st"
  "cl_router (cl_post t st) = cl_router st" "cl_acceptor (cl_post t st) = cl_acceptor st"
  by (simp_all add: cl_post_def)

lemma cl_start_sel [simp]:
  "cl_heap (cl_start x st) = cl_heap st" "cl_fresh (cl_start x st) = cl_fresh st"
  "cl_clientId (cl_start x st) = cl_clientId st" "cl_mgr (cl_start x st) = cl_mgr st"
  "cl_config (cl_start x st) = cl_config st" "cl_connectQueue (cl_start x st) = cl_connectQueue st"
  "cl_sendQueue (cl_start x st) = cl_sendQueue st" "cl_posted (cl_start x st) = cl_posted st"
  "cl_pending (cl_start x st) = cl_pending st @ [x]" "cl_connTimer (cl_start x st) = cl_connTimer st"
  "cl_signals (cl_start x st) = cl_signals st" "cl_clock (cl_start x st) = cl_clock st"
  "cl_core (cl_start x st) = cl_core st" "cl_upnp (cl_start x st) = cl_upnp st"
  "cl_router (cl_start x st) = cl_router st" "cl_acceptor (cl_start x st) = cl_acceptor st"
  by (simp_all add: cl_start_def)

lemma cl_signal_sel [simp]:
  "cl_heap (cl_signal x st) = cl_heap st" "cl_fresh (cl_signal x st) = cl_fresh st"
  "cl_clientId (cl_signal x st) = cl_clientId st" "cl_mgr (cl_signal x st) = cl_mgr st"
  "cl_config (cl_signal x st) = cl_config st" "cl_connectQueue (cl_signal x st) = cl_connectQueue st"
  "cl_sendQueue (cl_signal x st) = cl_sendQueue st" "cl_posted (cl_signal x st) = cl_posted st"
  "cl_pending (cl_signal x st) = cl_pending st" "cl_connTimer (cl_signal x st) = cl_connTimer st"
  "cl_signals (cl_signal x st) = cl_signals st @ [x]" "cl_clock (cl_signal x st) = cl_clock st"
  "cl_core (cl_signal x st) = cl_core st" "cl_upnp (cl_signal x st) = cl_upnp st"
  "cl_router (cl_signal x st) = cl_router st" "cl_acceptor (cl_signal x st) = cl_acceptor st"
  by (simp_all add: cl_signal_def)

lemma cl_alloc_sel [simp]:
  "cl_heap (cl_alloc s st) = (cl_heap st)(cl_fresh st := s)" "cl_fresh (cl_alloc s st) = Suc (cl_fresh st)"
  "cl_clientId (cl_alloc s st) = cl_clientId st" "cl_mgr (cl_alloc s st) = cl_mgr st"
  "cl_config (cl_alloc s st) = cl_config st" "cl_connectQueue (cl_alloc s st) = cl_connectQueue st"
  "cl_sendQueue (cl_alloc s st) = cl_sendQueue st" "cl_posted (cl_alloc s st) = cl_posted st"
  "cl_pending (cl_alloc s st) = cl_pending st" "cl_connTimer (cl_alloc s st) = cl_connTimer st"
  "cl_signals (cl_alloc s st) = cl_signals st" "cl_clock (cl_alloc s st) = cl_clock st"
  "cl_core (cl_alloc s st) = cl_core st" "cl_upnp (cl_alloc s st) = cl_upnp st"
  "cl_router (cl_alloc s st) = cl_router st"
  by (simp_all add: cl_alloc_def)

section \<open>The queue\<close>

definition cl_live :: "'r Client \<Rightarrow> cl_entry \<Rightarrow> bool" where
  "cl_live st e \<longleftrightarrow> map_of (sessionMap (cl_mgr st)) (fst e) \<noteq> None"

definition cl_enqueue :: "cl_entry \<Rightarrow> 'r Client \<Rightarrow> 'r Client" where
  "cl_enqueue e st =
     (case map_of (sessionMap (cl_mgr st)) (fst e) of
        None \<Rightarrow> st
      | Some a \<Rightarrow>
          (if cl_sendQueue st = [] then cl_post (C_DoSend a (snd e)) else id)
            (st\<lparr>cl_sendQueue := cl_sendQueue st @ [e]\<rparr>))"

lemma Client_SendMsg_enqueue:
  "fst (Client_SendMsg i buff st) = cl_enqueue (i, buff @ delimiter) st"
  by (auto simp: Client_SendMsg_def cl_enqueue_def SessionMgr_Find_def Let_def split: option.splits)

lemma Client_Send_enqueue:
  "Client_Send L i cmd st = cl_enqueue (i, serialize L cmd @ delimiter) st"
  by (cases "map_of (sessionMap (cl_mgr st)) i")
    (simp_all add: Client_Send_def Client_SendMsg_def cl_enqueue_def SessionMgr_Find_def Let_def)

lemma cl_enqueue_frame [simp]:
  "cl_heap (cl_enqueue e st) = cl_heap st" "cl_fresh (cl_enqueue e st) = cl_fresh st"
  "cl_clientId (cl_enqueue e st) = cl_clientId st" "cl_mgr (cl_enqueue e st) = cl_mgr st"
  "cl_config (cl_enqueue e st) = cl_config st" "cl_pending (cl_enqueue e st) = cl_pending st"
  "cl_signals (cl_enqueue e st) = cl_signals st" "cl_clock (cl_enqueue e st) = cl_clock st"
  "cl_core (cl_enqueue e st) = cl_core st" "cl_upnp (cl_enqueue e st) = cl_upnp st"
  "cl_connTimer (cl_enqueue e st) = cl_connTimer st" "cl_router (cl_enqueue e st) = cl_router st"
  "cl_connectQueue (cl_enqueue e st) = cl_connectQueue st"
  by (simp_all add: cl_enqueue_def split: option.splits)

lemma Client_Send_frame [simp]:
  "cl_heap (Client_Send L i c st) = cl_heap st" "cl_fresh (Client_Send L i c st) = cl_fresh st"
  "cl_clientId (Client_Send L i c st) = cl_clientId st" "cl_mgr (Client_Send L i c st) = cl_mgr st"
  "cl_config (Client_Send L i c st) = cl_config st" "cl_pending (Client_Send L i c st) = cl_pending st"
  "cl_signals (Client_Send L i c st) = cl_signals st" "cl_clock (Client_Send L i c st) = cl_clock st"
  "cl_core (Client_Send L i c st) = cl_core st" "cl_upnp (Client_Send L i c st) = cl_upnp st"
  "cl_connTimer (Client_Send L i c st) = cl_connTimer st" "cl_router (Client_Send L i c st) = cl_router st"
  "cl_connectQueue (Client_Send L i c st) = cl_connectQueue st"
  by (simp_all add: Client_Send_enqueue)

lemma Client_next_eq:
  "snd (Client_next m q) = dropWhile (\<lambda>e. map_of (sessionMap m) (fst e) = None) q \<and>
   (case fst (Client_next m q) of
      None \<Rightarrow> snd (Client_next m q) = []
    | Some a \<Rightarrow> snd (Client_next m q) \<noteq> [] \<and>
        map_of (sessionMap m) (fst (hd (snd (Client_next m q)))) = Some a)"
proof (induction q)
  case Nil
  show ?case by simp
next
  case (Cons e r)
  show ?case
  proof (cases "map_of (sessionMap m) (fst e)")
    case None
    then have eq: "Client_next m (e # r) = Client_next m r"
      by (cases r) (simp_all add: SessionMgr_Find_def)
    show ?thesis unfolding eq using None Cons by simp
  next
    case (Some a)
    then show ?thesis by (simp add: SessionMgr_Find_def)
  qed
qed

definition cl_task_out :: "cl_task \<Rightarrow> byte list list" where
  "cl_task_out t = (case t of C_DoSend a m \<Rightarrow> [m] | _ \<Rightarrow> [])"

definition cl_op_out :: "cl_op \<Rightarrow> byte list list" where
  "cl_op_out x = (case x of CO_Write a m \<Rightarrow> [m] | _ \<Rightarrow> [])"

lemma cl_out_simps [simp]:
  "cl_task_out (C_Receive a) = []" "cl_task_out (C_ReceiveRaw a) = []" "cl_task_out (C_DoSend a m) = [m]"
  "cl_task_out (C_DoDirect cfg) = []" "cl_task_out (C_Direct i j) = []"
  "cl_op_out (CO_Accept a) = []" "cl_op_out (CO_Read a) = []" "cl_op_out (CO_ReadRaw a) = []"
  "cl_op_out (CO_Write a m) = [m]" "cl_op_out (CO_Resolve k a) = []" "cl_op_out (CO_Connect k a) = []"
  by (simp_all add: cl_task_out_def cl_op_out_def)

text \<open>The messages of \<open>DoSend\<close> that are posted or being written.\<close>

definition cl_inflight :: "'r Client \<Rightarrow> byte list list" where
  "cl_inflight st = concat (map cl_op_out (cl_pending st)) @ concat (map cl_task_out (cl_posted st))"

definition cl_one_write :: "'r Client \<Rightarrow> bool" where
  "cl_one_write st \<longleftrightarrow> cl_inflight st = map snd (take 1 (cl_sendQueue st))"

definition cl_finish :: "'r Client \<Rightarrow> 'r Client option" where
  "cl_finish st =
     Some (Client_HandleDoSend ec_ok
       (st\<lparr>cl_posted := filter (\<lambda>t. cl_task_out t = []) (cl_posted st),
           cl_pending := filter (\<lambda>x. cl_op_out x = []) (cl_pending st)\<rparr>))"

lemma cl_live_cong: "cl_mgr t = cl_mgr st \<Longrightarrow> cl_live t = cl_live st"
  by (simp add: cl_live_def fun_eq_iff)

text \<open>The completion handler, from a state whose write has just completed.\<close>

lemma Client_HandleDoSend_idle:
  assumes "cl_inflight st = []" and t_def: "t = Client_HandleDoSend ec st"
  shows "cl_sendQueue t = dropWhile (\<lambda>e. \<not> cl_live st e) (tl (cl_sendQueue st)) \<and>
    cl_inflight t = map snd (take 1 (cl_sendQueue t)) \<and>
    cl_live t = cl_live st \<and> cl_pending t = cl_pending st"
proof (cases "tl (cl_sendQueue st)")
  case Nil
  with assms show ?thesis
    by (simp add: Client_HandleDoSend_def cl_inflight_def cl_live_cong [of t st])
      (rule cl_live_cong, simp)
next
  case (Cons e r)
  obtain x q' where n: "Client_next (cl_mgr st) (e # r) = (x, q')" by (cases "Client_next (cl_mgr st) (e # r)")
  have drop: "q' = dropWhile (\<lambda>e. \<not> cl_live st e) (e # r)"
    using Client_next_eq [of "cl_mgr st" "e # r"] n by (simp add: cl_live_def)
  show ?thesis
  proof (cases x)
    case None
    with n have t: "t = st\<lparr>cl_sendQueue := q'\<rparr>" by (simp add: t_def Client_HandleDoSend_def Cons)
    moreover from None n have "q' = []"
      using conjunct2 [OF Client_next_eq [of "cl_mgr st" "e # r"]] by (simp del: Client_next.simps)
    moreover have "cl_live t = cl_live st" by (rule cl_live_cong) (simp add: t)
    ultimately show ?thesis using assms(1) drop Cons by (simp add: cl_inflight_def)
  next
    case (Some a)
    with n have t: "t = cl_post (C_DoSend a (snd (hd q'))) (st\<lparr>cl_sendQueue := q'\<rparr>)"
      by (simp add: t_def Client_HandleDoSend_def Cons)
    from Some n have "q' \<noteq> []"
      using conjunct2 [OF Client_next_eq [of "cl_mgr st" "e # r"]] by (simp del: Client_next.simps)
    then have "cl_inflight t = map snd (take 1 q')"
      using assms(1) t by (cases q') (simp_all add: cl_inflight_def)
    moreover have "cl_live t = cl_live st" by (rule cl_live_cong) (simp add: t)
    ultimately show ?thesis using t drop Cons by simp
  qed
qed

interpretation cl_queue: send_queue cl_sendQueue cl_inflight snd cl_live cl_enqueue cl_finish
proof (unfold_locales, goal_cases)
  case (1 s m)
  then show ?case
    by (auto simp: cl_inflight_def cl_enqueue_def cl_live_def split: option.splits)
next
  case (2 s m)
  then show ?case by (simp add: cl_enqueue_def cl_live_def)
next
  case (3 m s)
  show ?case by (rule cl_live_cong) simp
next
  case (4 s m q d t)
  let ?s = "s\<lparr>cl_posted := filter (\<lambda>t. cl_task_out t = []) (cl_posted s),
              cl_pending := filter (\<lambda>x. cl_op_out x = []) (cl_pending s)\<rparr>"
  have "cl_inflight ?s = []" by (simp add: cl_inflight_def)
  moreover have "cl_live ?s = cl_live s" by (rule cl_live_cong) simp
  ultimately show ?case
    using Client_HandleDoSend_idle [of ?s t ec_ok] 4(1,3) by (simp add: cl_finish_def)
next
  case (5 s m q)
  then show ?case by (simp add: cl_finish_def)
qed

lemma cl_one_write_iff: "cl_one_write st = cl_queue.one_write st"
  by (simp add: cl_one_write_def cl_queue.one_write_def)

lemma cl_one_write_Send [simp]:
  "cl_one_write st \<Longrightarrow> cl_one_write (Client_Send L i c st)"
  "cl_one_write st \<Longrightarrow> cl_one_write (fst (Client_SendMsg i buff st))"
  unfolding Client_Send_enqueue Client_SendMsg_enqueue cl_one_write_iff
  by (rule cl_queue.one_write_enqueue, assumption)+

section \<open>One write in flight\<close>

lemma cl_one_write_frame [simp]:
  "cl_one_write (cl_session a f st) = cl_one_write st"
  "cl_one_write (cl_signal x st) = cl_one_write st"
  "cl_one_write (cl_alloc s st) = cl_one_write st"
  "cl_task_out t = [] \<Longrightarrow> cl_one_write (cl_post t st) = cl_one_write st"
  "cl_op_out y = [] \<Longrightarrow> cl_one_write (cl_start y st) = cl_one_write st"
  "cl_one_write (st\<lparr>cl_mgr := m\<rparr>) = cl_one_write st"
  "cl_one_write (st\<lparr>cl_heap := h\<rparr>) = cl_one_write st"
  "cl_one_write (st\<lparr>cl_heap := h, cl_mgr := m\<rparr>) = cl_one_write st"
  "cl_one_write (st\<lparr>cl_config := c\<rparr>) = cl_one_write st"
  "cl_one_write (st\<lparr>cl_config := c, cl_acceptor := b\<rparr>) = cl_one_write st"
  "cl_one_write (st\<lparr>cl_acceptor := b\<rparr>) = cl_one_write st"
  "cl_one_write (st\<lparr>cl_connTimer := tm\<rparr>) = cl_one_write st"
  "cl_one_write (st\<lparr>cl_connectQueue := cq\<rparr>) = cl_one_write st"
  "cl_one_write (st\<lparr>cl_upnp := u\<rparr>) = cl_one_write st"
  "cl_one_write (st\<lparr>cl_upnp := u, cl_router := r\<rparr>) = cl_one_write st"
  "cl_one_write (st\<lparr>cl_router := r\<rparr>) = cl_one_write st"
  "cl_one_write (st\<lparr>cl_core := k\<rparr>) = cl_one_write st"
  "cl_one_write (st\<lparr>cl_clock := n\<rparr>) = cl_one_write st"
  "cl_one_write (st\<lparr>cl_wire := w\<rparr>) = cl_one_write st"
  by (simp_all add: cl_one_write_def cl_inflight_def)

lemma cl_one_write_drop [simp]:
  "i < length (cl_pending st) \<Longrightarrow> cl_op_out (cl_pending st ! i) = [] \<Longrightarrow>
   cl_one_write (cl_drop i st) = cl_one_write st"
  by (simp add: cl_one_write_def cl_inflight_def cl_drop_def concat_map_remove_at)

lemma cl_one_write_log [simp]: "cl_one_write (cl_log a m ec st) = cl_one_write st"
  by (simp add: cl_log_def)

lemma cl_one_write_helpers [simp]:
  "cl_one_write (arm_deadline a st) = cl_one_write st"
  "cl_one_write (cancel_deadline a st) = cl_one_write st"
  "cl_one_write (report_error a st) = cl_one_write st"
  "cl_one_write (retry_direct a cfg st) = cl_one_write st"
  "cl_one_write (cl_refuse a st) = cl_one_write st"
  "cl_one_write (cl_connected a st) = cl_one_write st"
  "cl_one_write (Client_RemoveSession i st) = cl_one_write st"
  "cl_one_write (Client_UnBan i st) = cl_one_write st"
  "cl_one_write (cl_consume a n st) = cl_one_write st"
  "cl_one_write (Client_Accept env st) = cl_one_write st"
  "cl_one_write (fst (Client_AddSession a st)) = cl_one_write st"
  "cl_one_write (Client_ReceiveCatch a st) = cl_one_write st"
  "cl_one_write (Client_Disconnect st) = cl_one_write st"
  by (simp_all add: arm_deadline_def cancel_deadline_def report_error_def retry_direct_def cl_refuse_def
      cl_connected_def Client_RemoveSession_def Client_UnBan_def cl_consume_def Client_Accept_def
      Client_AddSession_def Client_ReceiveCatch_def Client_Disconnect_def Let_def)

lemma cl_one_write_retry_stun [simp]: "cl_one_write (retry_stun a ep st) = cl_one_write st"
  by (simp add: retry_stun_def Let_def)

lemma cl_one_write_open [simp]: "cl_one_write (fst (open_session env f k st)) = cl_one_write st"
  by (simp add: open_session_def Let_def)

lemma cl_one_write_connects [simp]:
  "cl_one_write (fst (Client_Connect env ep i st)) = cl_one_write st"
  "cl_one_write (fst (Client_AsyncConnect env ep i st)) = cl_one_write st"
  "cl_one_write (fst (Client_DoDirect env cfg st)) = cl_one_write st"
  "cl_one_write (fst (Client_DoProxy env cfg st)) = cl_one_write st"
  "cl_one_write (fst (Client_Proxy env cfg st)) = cl_one_write st"
  "cl_one_write (fst (Client_Bind env st)) = cl_one_write st"
  "cl_one_write (Client_HandleResolve k a ec st) = cl_one_write st"
  by (simp_all add: Client_Connect_def Client_AsyncConnect_def Client_DoDirect_def Client_DoProxy_def
      Client_Proxy_def Client_Bind_def Client_HandleResolve_def split: bind_result.splits cl_kind.splits)

lemma case_add [simp]:
  "(case Client_AddSession a st of (st1, b) \<Rightarrow> f st1 b) =
     f (fst (Client_AddSession a st)) (snd (Client_AddSession a st))"
  by (simp split: prod.splits)

lemma cl_one_write_HandleConnect [simp]:
  "cl_one_write st \<Longrightarrow> cl_one_write (Client_HandleConnect L k a ec ep st)"
  by (simp add: Client_HandleConnect_def Client_HandleConnectStun_def Client_HandleConnectDirect_def
      Client_HandleConnectProxy_def Let_def split: cl_kind.splits bool.splits SessionType.splits)

lemma cl_one_write_OpenNAT:
  "cl_one_write st \<Longrightarrow> Client_OpenNAT L g env st = Some r \<Longrightarrow> cl_one_write (fst r)"
  using cl_one_write_connects(6) [of env st]
  by (auto simp: Client_OpenNAT_def Let_def simp del: cl_one_write_connects
      split: prod.splits sum.splits option.splits)

lemma cl_one_write_Direct:
  assumes "cl_one_write st" and "Client_Direct L g env i j st = Some r"
  shows "cl_one_write (fst r)"
proof -
  from assms(2) obtain s where s: "Client_OpenNAT L g env st = Some s"
    by (cases "Client_OpenNAT L g env st") (simp_all add: Client_Direct_def)
  from cl_one_write_OpenNAT [OF assms(1) s] assms(2) s show ?thesis
    by (cases s; cases "snd s") (auto simp: Client_Direct_def)
qed

lemma cl_one_write_timeouts [simp]:
  "cl_one_write (Client_HandleConnectionTimeout env ec ep i st) = cl_one_write st"
  "cl_one_write (Client_HandleDeadlineTimeout ec a st) = cl_one_write st"
  "cl_one_write st \<Longrightarrow> cl_one_write (Client_HandleStunTimeout L ec i st)"
  by (simp_all add: Client_HandleConnectionTimeout_def Client_HandleDeadlineTimeout_def
      Client_HandleStunTimeout_def Let_def split: sum.splits)

lemma cl_one_write_external [simp]:
  "cl_one_write (fst (Client_ReplyStunExternal L a e st)) = cl_one_write st"
  by (simp add: Client_ReplyStunExternal_def Let_def split: option.splits ip_address.splits)

lemma cl_one_write_ReplyStun [simp]:
  "cl_one_write (fst (Client_ReplyStun L a c st)) = cl_one_write st"
proof (cases "connect_external c")
  case None
  then show ?thesis by (simp add: Client_ReplyStun_def Let_def)
next
  case (Some e)
  then show ?thesis
    using cl_one_write_external [of L a e st]
    by (cases "Client_ReplyStunExternal L a e st"; cases "snd (Client_ReplyStunExternal L a e st)")
      (simp_all add: Client_ReplyStun_def Let_def)
qed

lemma cl_one_write_Process [simp]:
  "cl_one_write st \<Longrightarrow> cl_one_write (fst (Client_Process L a cmd st))"
  by (simp add: Client_Process_def Client_ProcessConnect_def Client_RequestStun_def
      Client_RequestDirect_def Client_ReplyDirect_def Client_ReplyProxyup_def
      Client_ReplyProxydown_def Client_Heartbeat_def Client_SubscribeReply_def Let_def
      split: Command_Protocol.splits option.splits Connect_Protocol.splits Connect_Type.splits bool.splits)

lemma cl_one_write_ProcessP2P [simp]:
  "cl_one_write st \<Longrightarrow> cl_one_write (fst (Client_ProcessP2P L env a m st))"
  by (simp add: Client_ProcessP2P_def Client_MakeDirect_def Client_MakeDirectError_def
      Client_MakeDirectOffer_def Client_MakeProxy_def with_uuid_def Let_def
      split: P2P_Protocol.splits option.splits)

lemma cl_one_write_HandleReceive [simp]:
  assumes "cl_one_write st"
  shows "cl_one_write (Client_HandleReceive L env a ec n st)"
proof -
  have p: "cl_one_write (case Client_ProcessP2P L env a m st of
      (st1, Inl _) \<Rightarrow> Client_ReceiveCatch a st1
    | (st1, Inr _) \<Rightarrow> cl_post (C_Receive a) (cl_consume a n st1))" for m
    using cl_one_write_ProcessP2P [OF assms, of L env a m]
    by (cases "Client_ProcessP2P L env a m st"; cases "snd (Client_ProcessP2P L env a m st)") simp_all
  have q: "cl_one_write (case Client_Process L a cmd st of
      (st1, Inl _) \<Rightarrow> Client_ReceiveCatch a st1
    | (st1, Inr again) \<Rightarrow>
        cl_post (if again then C_Receive a else C_ReceiveRaw a) (cl_consume a n st1))" for cmd
    using cl_one_write_Process [OF assms, of L a cmd]
    by (cases "Client_Process L a cmd st"; cases "snd (Client_Process L a cmd st)") simp_all
  show ?thesis
    unfolding Client_HandleReceive_def
    using assms p q by (simp split: option.splits Command_Protocol.splits)
qed

lemma cl_one_write_HandleReceiveRaw [simp]:
  "cl_one_write (Client_HandleReceiveRaw a ec n st) = cl_one_write st"
  by (simp add: Client_HandleReceiveRaw_def Let_def)

lemma cl_one_write_ConnectAll [simp]:
  "cl_one_write (fst (Client_ConnectAll env q st)) = cl_one_write st"
proof (induction q arbitrary: st)
  case (Cons e q)
  have "cl_one_write (fst (Client_Connect env (snd e) (fst e) st)) = cl_one_write st" by simp
  with Cons show ?case
    by (cases "Client_Connect env (snd e) (fst e) st"; cases "snd (Client_Connect env (snd e) (fst e) st)")
      simp_all
qed simp

lemma cl_one_write_OnStarted [simp]: "cl_one_write (fst (Client_OnStarted env st)) = cl_one_write st"
  using cl_one_write_ConnectAll [of env "cl_connectQueue st" st]
  by (cases "Client_ConnectAll env (cl_connectQueue st) st";
      cases "snd (Client_ConnectAll env (cl_connectQueue st) st)")
    (simp_all add: Client_OnStarted_def del: cl_one_write_ConnectAll)

lemma cl_one_write_Slots [simp]: "cl_one_write (fst (Client_Slots env n st)) = cl_one_write st"
proof (induction n arbitrary: st)
  case (Suc n)
  have "cl_one_write (fst (Client_OnStarted env st)) = cl_one_write st" by simp
  with Suc show ?case
    by (cases "Client_OnStarted env st"; cases "snd (Client_OnStarted env st)") simp_all
qed simp

lemma cl_one_write_Stop [simp]: "cl_one_write (Client_Stop g st) = cl_one_write st"
  by (simp add: Client_Stop_def Let_def)

lemma cl_one_write_read_event:
  assumes "cl_one_write st" and "i < length (cl_pending st)" and "cl_op_out (cl_pending st ! i) = []"
    and "\<And>ec n st. cl_one_write st \<Longrightarrow> cl_one_write (handler ec n st)"
  shows "cl_one_write (cl_read_event i a ec bs handler st)"
  using assms by (simp add: cl_read_event_def Let_def split: option.splits)

lemma cl_written:
  assumes "cl_one_write st" and i: "i < length (cl_pending st)" and op: "cl_pending st ! i = CO_Write a m"
  shows "cl_inflight (cl_drop i st) = []"
proof -
  have "m \<in> set (cl_inflight st)"
    using nth_mem [OF i] op by (force simp: cl_inflight_def)
  with assms(1) obtain e q where q: "cl_sendQueue st = e # q"
    by (cases "cl_sendQueue st") (auto simp: cl_one_write_def)
  with assms(1) have "cl_inflight st = [snd e]" by (simp add: cl_one_write_def)
  then show ?thesis
    unfolding cl_inflight_def cl_drop_def
    using concat_map_drop_one [OF i, of cl_op_out m "concat (map cl_task_out (cl_posted st))"] op by simp
qed

lemma cl_inflight_log [simp]:
  "cl_inflight (cl_log a m ec st) = cl_inflight st" "cl_sendQueue (cl_log a m ec st) = cl_sendQueue st"
  "cl_pending (cl_log a m ec st) = cl_pending st" "cl_heap (cl_log a m ec st) = cl_heap st"
  by (simp_all add: cl_log_def cl_inflight_def)

lemma cl_one_write_complete:
  assumes inv: "cl_one_write st" and i: "i < length (cl_pending st)"
  shows "cl_one_write (cl_complete L i e st)"
proof (cases "\<exists>j ec a m. e = CE_Write j ec \<and> cl_pending st ! i = CO_Write a m")
  case True
  then obtain j ec a m where e: "e = CE_Write j ec" and op: "cl_pending st ! i = CO_Write a m" by blast
  show ?thesis
    using Client_HandleDoSend_idle [of "cl_log a m ec (cl_drop i st)" _ ec, OF _ refl]
      cl_written [OF inv i op] inv
    by (simp add: cl_complete_def e op cl_one_write_def)
next
  case False
  with inv i show ?thesis
    by (auto simp: cl_complete_def Client_HandleAccept_def intro!: cl_one_write_read_event
        split: cl_event.splits cl_op.splits)
qed

lemma cl_one_write_run_task:
  assumes inv: "cl_one_write st" and i: "i < length (cl_posted st)"
    and fin: "cl_run_task L g env (cl_posted st ! i) (st\<lparr>cl_posted := remove_at i (cl_posted st)\<rparr>) = Done t"
  shows "cl_one_write t"
proof (cases "\<exists>a m. cl_posted st ! i = C_DoSend a m")
  case True
  then obtain a m where op: "cl_posted st ! i = C_DoSend a m" by blast
  have "m \<in> set (cl_inflight st)"
    using nth_mem [OF i] op by (force simp: cl_inflight_def)
  with inv obtain x q where q: "cl_sendQueue st = x # q" and m: "m = snd x"
    by (cases "cl_sendQueue st") (auto simp: cl_one_write_def)
  with inv have one: "concat (map cl_op_out (cl_pending st)) @ concat (map cl_task_out (cl_posted st)) = [m]"
    by (simp add: cl_one_write_def cl_inflight_def)
  then have "concat (map cl_op_out (cl_pending st)) = [] \<and> concat (map cl_task_out (cl_posted st)) = [m]"
    using nth_mem [OF i] op by (fastforce simp: append_eq_Cons_conv)
  then have "concat (map cl_op_out (cl_pending st)) = []"
    "concat (map cl_task_out (remove_at i (cl_posted st))) = []"
    using concat_map_drop_one [OF i, of cl_task_out m "[]" m] op by simp_all
  with q m fin op show ?thesis
    by (auto simp: cl_run_task_def Client_DoSend_def cl_one_write_def cl_inflight_def
        simp del: concat_eq_Nil_conv)
next
  case False
  let ?st = "st\<lparr>cl_posted := remove_at i (cl_posted st)\<rparr>"
  have "cl_task_out (cl_posted st ! i) = []"
    using False by (cases "cl_posted st ! i") simp_all
  then have ow: "cl_one_write ?st"
    using inv i by (simp add: cl_one_write_def cl_inflight_def concat_map_remove_at)
  show ?thesis
  proof (cases "cl_posted st ! i")
    case (C_DoDirect cfg)
    with fin ow cl_one_write_connects(3) [of env cfg ?st] show ?thesis
      by (cases "Client_DoDirect env cfg ?st"; cases "snd (Client_DoDirect env cfg ?st)")
        (simp_all add: cl_run_task_def uncaught_def del: cl_one_write_connects)
  next
    case (C_Direct j k)
    with fin obtain r where r: "Client_Direct L g env j k ?st = Some r" "uncaught r = Done t"
      by (cases "Client_Direct L g env j k ?st") (simp_all add: cl_run_task_def)
    from cl_one_write_Direct [OF ow r(1)] r(2) show ?thesis
      by (cases r; cases "snd r") (simp_all add: uncaught_def)
  qed (use fin ow False in \<open>auto simp: cl_run_task_def Client_Receive_def Client_ReceiveRaw_def\<close>)
qed

lemma cl_one_write_call:
  assumes "cl_one_write st" and "cl_call L g env c st = Done t"
  shows "cl_one_write t"
proof (cases "\<exists>i j. c = Call_Direct i j")
  case True
  then show ?thesis
    using assms by (auto simp: cl_call_def split: option.splits intro: cl_one_write_Direct)
next
  case False
  with assms show ?thesis
    by (auto simp: cl_call_def Client_Send2Client_def Client_Send2Server_def Client_Subscribe_def
        Client_StartUPNP_post_def Client_StartUPNP_slot_def split: cl_call.splits)
qed

lemma cl_one_write_step:
  assumes inv: "cl_one_write st" and step: "cl_step L g e st = Done t"
  shows "cl_one_write t"
proof (cases e)
  case (CE_Run i env)
  with step inv show ?thesis by (auto intro: cl_one_write_run_task split: if_splits)
next
  case (CE_UPNP env)
  show ?thesis
  proof (cases "isRunning (up_core (cl_upnp st)) \<and> up_starting (cl_upnp st) > 0")
    case True
    have "cl_one_write (fst (Client_HandleUPNPStart g env st)) = cl_one_write st"
      by (simp add: Client_HandleUPNPStart_def Let_def)
    with True CE_UPNP step inv show ?thesis
      by (cases "Client_HandleUPNPStart g env st"; cases "snd (Client_HandleUPNPStart g env st)")
        (simp_all add: uncaught_def)
  qed (use CE_UPNP step inv in auto)
next
  case (CE_Call c env)
  with step inv show ?thesis by (auto intro: cl_one_write_call)
qed (use step inv in \<open>auto intro: cl_one_write_complete split: if_splits prod.splits\<close>)

end
