(* ===== verification/Nat_Client_Claims.thy ===== *)
theory Nat_Client_Claims
  imports Nat_Client_Props
begin

text \<open>
  The properties of the client: its send queue over every reachable state, the attempts at a
  direct session and the fall-back to the relay, the handshake of a relayed session, and the
  start of the queued connections.
\<close>

section \<open>Reachable states\<close>

inductive cl_reachable :: "lib \<Rightarrow> 'r igd \<Rightarrow> 'r Client \<Rightarrow> bool" for L g where
  start: "cl_reachable L g (Client_Construct i raw r)"
| step: "cl_reachable L g st \<Longrightarrow> cl_step L g e st = Done t \<Longrightarrow> cl_reachable L g t"

lemma cl_reachable_steps:
  "cl_reachable L g st \<Longrightarrow> cl_steps L g es st = Done t \<Longrightarrow> cl_reachable L g t"
  by (induction es arbitrary: st) (auto intro: cl_reachable.step)

lemma cl_reachable_one_write: "cl_reachable L g st \<Longrightarrow> cl_one_write st"
proof (induction rule: cl_reachable.induct)
  case (start i raw r)
  show ?case by (simp add: cl_one_write_def cl_inflight_def Client_Construct_def)
next
  case (step st e t)
  then show ?case by (rule_tac cl_one_write_step)
qed

text \<open>A connected client: its own session is made, and two messages are sent to the server.\<close>

definition sample_env :: env where
  "sample_env = \<lparr>env_raw = 0, env_opens = True, env_bind = Bound default_endpoint\<rparr>"

definition script_client :: "cl_event list \<Rightarrow> mappings Client run" where
  "script_client es = cl_steps (sample_lib Command_new) sample_igd es (Client_Construct 1 False [])"

definition client_reached :: "cl_event list \<Rightarrow> mappings Client" where
  "client_reached es = (case script_client es of Done st \<Rightarrow> st | _ \<Rightarrow> Client_Construct 1 False [])"

definition logged_client :: "cl_event list" where
  "logged_client =
     [CE_Call (Call_Connect default_endpoint 1) sample_env, CE_Resolve 0 ec_ok, CE_Connect 0 ec_ok None,
      CE_Call (Call_Send2Server [7]) sample_env, CE_Call (Call_Send 2 [8]) sample_env,
      CE_Run 1 sample_env]"

lemma client_reached_reachable:
  assumes "case script_client es of Done st \<Rightarrow> True | _ \<Rightarrow> False"
  shows "cl_reachable (sample_lib Command_new) sample_igd (client_reached es)"
proof -
  from assms have "cl_steps (sample_lib Command_new) sample_igd es (Client_Construct 1 False []) =
      Done (client_reached es)"
    by (simp add: client_reached_def script_client_def split: run.splits)
  from cl_reachable_steps [OF cl_reachable.start this] show ?thesis .
qed

lemma logged_client_reachable: "cl_reachable (sample_lib Command_new) sample_igd (client_reached logged_client)"
  by (rule client_reached_reachable) code_simp

section \<open>The send queue\<close>

text \<open>C26: in every reachable state of the client, what \<open>DoSend\<close> has posted or is writing is
  exactly the message at the front of the queue: there is never more than one write of the
  queue in flight.\<close>

theorem Client_one_write_in_flight:
  assumes "cl_reachable L g st"
  shows "cl_inflight st = map snd (take 1 (cl_sendQueue st))"
  using cl_reachable_one_write [OF assms] by (simp add: cl_one_write_def)

theorem Client_one_write_in_flight_witness:
  "cl_inflight (client_reached logged_client) = map snd (take 1 (cl_sendQueue (client_reached logged_client))) \<and>
   length (cl_sendQueue (client_reached logged_client)) = 2"
proof
  show "cl_inflight (client_reached logged_client) = map snd (take 1 (cl_sendQueue (client_reached logged_client)))"
    by (rule Client_one_write_in_flight [OF logged_client_reachable])
  show "length (cl_sendQueue (client_reached logged_client)) = 2" by code_simp
qed

text \<open>From a reachable state of the client in which the sessions of the queued messages are
  registered, any sequence of sends and write completions returns and writes the messages
  first in, first out; messages for sessions that are not registered are refused.\<close>

theorem Client_send_fifo:
  assumes "cl_reachable L g st" and "list_all (cl_live st) (cl_sendQueue st)"
  shows "\<exists>t log. cl_queue.run ops (st, []) = Some (t, log) \<and>
    log @ cl_sendQueue t = cl_sendQueue st @ cl_queue.accepted (cl_live st) ops"
  using cl_queue.run_fifo [of st ops "[]"] cl_reachable_one_write [OF assms(1)] assms(2)
  by (auto simp: cl_one_write_iff list_all_iff)

theorem Client_send_fifo_witness:
  "\<exists>t log. cl_queue.run [Complete, Enqueue (1, [9]), Enqueue (7, [8]), Complete]
       (client_reached logged_client, []) = Some (t, log) \<and>
    log @ cl_sendQueue t = cl_sendQueue (client_reached logged_client) @ [(1, [9])]"
proof -
  have "list_all (cl_live (client_reached logged_client)) (cl_sendQueue (client_reached logged_client))"
    by code_simp
  moreover have "cl_live (client_reached logged_client) (1, [9])"
    "\<not> cl_live (client_reached logged_client) (7, [8])" by code_simp+
  ultimately show ?thesis
    using Client_send_fifo [OF logged_client_reachable,
      of "[Complete, Enqueue (1, [9]), Enqueue (7, [8]), Complete]"]
    by simp
qed

text \<open>\<open>Send\<close> appends the delimiter to the message it is handed, so a program that sends one
  message object twice puts a doubled delimiter on the stream: the receiver reads the message
  twice and then an empty message.\<close>

theorem Client_resend_adds_empty_message:
  assumes "map_of (sessionMap (cl_mgr st)) i = Some a" and "read_until delimiter msg = None"
  shows "\<exists>st1 buff1 st2 buff2. Client_SendMsg i msg st = (st1, buff1) \<and>
    Client_SendMsg i buff1 st1 = (st2, buff2) \<and>
    cl_sendQueue st2 = cl_sendQueue st @ [(i, msg @ delimiter), (i, buff1 @ delimiter)] \<and>
    deframe delimiter (concat (map snd [(i, msg @ delimiter), (i, buff1 @ delimiter)])) = ([msg, msg, []], [])"
proof -
  obtain st1 buff1 where s1: "Client_SendMsg i msg st = (st1, buff1)" by (cases "Client_SendMsg i msg st")
  with assms(1) have b1: "buff1 = msg @ delimiter" and q1: "cl_sendQueue st1 = cl_sendQueue st @ [(i, msg @ delimiter)]"
    and m1: "cl_mgr st1 = cl_mgr st"
    by (auto simp: Client_SendMsg_def SessionMgr_Find_def Let_def split: if_splits)
  obtain st2 buff2 where s2: "Client_SendMsg i buff1 st1 = (st2, buff2)" by (cases "Client_SendMsg i buff1 st1")
  with assms(1) m1 have q2: "cl_sendQueue st2 = cl_sendQueue st1 @ [(i, buff1 @ delimiter)]"
    by (auto simp: Client_SendMsg_def SessionMgr_Find_def Let_def split: if_splits)
  have "read_until delimiter [] = None" by (simp add: delimiter_def)
  with nat_frame.deframe_frames [of "[msg, msg, []]" "[]"] assms(2)
  have "deframe delimiter (msg @ delimiter @ msg @ delimiter @ delimiter) = ([msg, msg, []], [])" by simp
  with s1 s2 q1 q2 b1 show ?thesis by auto
qed

theorem Client_resend_adds_empty_message_witness:
  "deframe delimiter (([5] @ delimiter) @ [5] @ delimiter @ delimiter) = ([[5], [5], []], [])"
proof -
  have "map_of (sessionMap (cl_mgr (client_reached logged_client))) 1 = Some 0" by code_simp
  moreover have "read_until delimiter [5] = None" by (simp add: delimiter_def starts_with_def)
  ultimately show ?thesis
    using Client_resend_adds_empty_message [of "client_reached logged_client" 1 0 "[5]"]
    by (auto simp: Client_SendMsg_def SessionMgr_Find_def Let_def split: if_splits)
qed

section \<open>Direct sessions\<close>


lemma open_session_opens [simp]:
  "env_opens env \<Longrightarrow> open_session env f kind st =
     (cl_start (CO_Resolve kind (cl_fresh st)) (arm_deadline (cl_fresh st)
        (cl_alloc (f ((Session_Construct (env_raw env))\<lparr>s_open := True\<rparr>)) st)), Inr ())"
  by (simp add: open_session_def Let_def)

lemma deadline_sel [simp]:
  "cl_posted (arm_deadline a st) = cl_posted st" "cl_posted (cancel_deadline a st) = cl_posted st"
  "cl_pending (arm_deadline a st) = cl_pending st" "cl_pending (cancel_deadline a st) = cl_pending st"
  "cl_mgr (arm_deadline a st) = cl_mgr st" "cl_mgr (cancel_deadline a st) = cl_mgr st"
  "cl_core (arm_deadline a st) = cl_core st" "cl_core (cancel_deadline a st) = cl_core st"
  "cl_sendQueue (arm_deadline a st) = cl_sendQueue st" "cl_sendQueue (cancel_deadline a st) = cl_sendQueue st"
  "cl_clock (arm_deadline a st) = cl_clock st" "cl_clock (cancel_deadline a st) = cl_clock st"
  "cl_connTimer (arm_deadline a st) = cl_connTimer st" "cl_connTimer (cancel_deadline a st) = cl_connTimer st"
  "cl_config (arm_deadline a st) = cl_config st" "cl_clientId (arm_deadline a st) = cl_clientId st"
  by (simp_all add: arm_deadline_def cancel_deadline_def)


lemma remove_at_append_one [simp]: "remove_at (length p) (p @ [x]) = p"
  by (simp add: remove_at_def)




section \<open>From the direct session to the relay\<close>

lemma with_uuid_simps [simp]:
  "uuid_of_string L x = None \<Longrightarrow> with_uuid L x f st = (st, Inl lib_error)"
  "uuid_of_string L x = Some i \<Longrightarrow> with_uuid L x f st = f i"
  by (simp_all add: with_uuid_def)

text \<open>C28: a client that has given up a direct session answers the peer's offer of it with exactly one
  error, and a peer that reads this error opens a session to the relay server under the same
  session id, as the upper side and with the first client as its remote end. Neither side
  keeps the ban, so both can try a direct session again later.\<close>

theorem Client_refused_direct_uses_relay:
  assumes offer: "p2p_protocol m = P2P_Protocol_MakeDirect" "p2p_make_direct m = Some d" "direct_error d = None"
      "uuid_of_string L (direct_session_id d) = Some i"
    and banned: "SessionMgr_IsBanned i (cl_mgr A)" and own: "map_of (sessionMap (cl_mgr A)) (cl_clientId A) = Some x"
    and texts: "uuid_text L" and opens: "env_opens envB"
  shows "\<exists>A' reply B'. Client_ProcessP2P L envA a m A = (A', Inr ()) \<and>
    cl_sendQueue A' = cl_sendQueue A @ [(cl_clientId A, serialize L reply @ delimiter)] \<and>
    cl_pending A' = cl_pending A \<and> \<not> SessionMgr_IsBanned i (cl_mgr A') \<and>
    (\<exists>answer. p2p reply = Some answer \<and> protocol reply = Command_Protocol_P2P \<and> p2p_to answer = p2p_from m \<and>
      Client_ProcessP2P L envB b answer B = (B', Inr ())) \<and>
    cl_pending B' = cl_pending B @ [CO_Resolve K_Proxy (cl_fresh B)] \<and> \<not> SessionMgr_IsBanned i (cl_mgr B') \<and>
    s_id (cl_heap B' (cl_fresh B)) = i \<and> s_type (cl_heap B' (cl_fresh B)) = PROXYUP \<and>
    s_remoteId (cl_heap B' (cl_fresh B)) = cl_clientId A"
proof -
  let ?reply = "direct_unreachable L (cl_clientId A) (p2p_from m) i"
  let ?answer = "or_new P2P_new (p2p ?reply)"
  let ?A = "Client_Send L (cl_clientId A) ?reply (Client_UnBan i A)"
  have A: "Client_ProcessP2P L envA a m A = (?A, Inr ())"
    using offer banned by (simp add: Client_ProcessP2P_def Client_MakeDirect_def Client_UnBan_def)
  have q: "cl_sendQueue ?A = cl_sendQueue A @ [(cl_clientId A, serialize L ?reply @ delimiter)]"
    using own by (simp add: Client_Send_enqueue cl_enqueue_def Client_UnBan_def SessionMgr_RemoveBan_def)
  have frames: "cl_pending ?A = cl_pending A" "\<not> SessionMgr_IsBanned i (cl_mgr ?A)"
    by (simp_all add: Client_UnBan_def SessionMgr_RemoveBan_def SessionMgr_IsBanned_def)
  obtain B' where B: "Client_ProcessP2P L envB b ?answer B = (B', Inr ())"
      "cl_pending B' = cl_pending B @ [CO_Resolve K_Proxy (cl_fresh B)]" "\<not> SessionMgr_IsBanned i (cl_mgr B')"
      "s_id (cl_heap B' (cl_fresh B)) = i" "s_type (cl_heap B' (cl_fresh B)) = PROXYUP"
      "s_remoteId (cl_heap B' (cl_fresh B)) = cl_clientId A"
    using texts opens
    by (simp add: Client_ProcessP2P_def Client_MakeDirect_def direct_unreachable_def or_new_def uuid_text_def
        Client_MakeDirectError_def Client_DoProxy_def new_config_def arm_deadline_def Client_UnBan_def
        SessionMgr_RemoveBan_def SessionMgr_IsBanned_def)
  have "p2p ?reply = Some ?answer" "protocol ?reply = Command_Protocol_P2P" "p2p_to ?answer = p2p_from m"
    by (simp_all add: direct_unreachable_def or_new_def)
  with A q frames B show ?thesis by blast
qed


text \<open>A logged-in client that has given up session 5, and the peer's offer of it.\<close>

definition sample_offer :: MakeDirect where
  "sample_offer = MakeDirect_new\<lparr>direct_session_id := ''11111''\<rparr>"

definition banned_client :: "mappings Client" where
  "banned_client = (client_reached logged_client)\<lparr>cl_mgr :=
     fst (SessionMgr_AddBan 5 (cl_mgr (client_reached logged_client)))\<rparr>"

definition fresh_client :: "mappings Client" where
  "fresh_client = Client_Construct 2 False []"

theorem Client_refused_direct_uses_relay_witness:
  "\<exists>A' reply (B' :: mappings Client). Client_ProcessP2P (sample_lib Command_new) sample_env 0
       (P2P_new\<lparr>p2p_protocol := P2P_Protocol_MakeDirect, p2p_from := ''11'', p2p_make_direct := Some sample_offer\<rparr>)
       banned_client = (A', Inr ()) \<and>
     cl_sendQueue A' = cl_sendQueue banned_client @ [(1, serialize (sample_lib Command_new) reply @ delimiter)] \<and>
     s_type (cl_heap B' (cl_fresh fresh_client)) = PROXYUP \<and> s_remoteId (cl_heap B' (cl_fresh fresh_client)) = 1"
proof -
  have "map_of (sessionMap (cl_mgr banned_client)) 1 = Some 0" "cl_clientId banned_client = 1"
    "SessionMgr_IsBanned 5 (cl_mgr banned_client)" "direct_error sample_offer = None" by code_simp+
  moreover have "uuid_of_string (sample_lib Command_new) (direct_session_id sample_offer) = Some 5"
    by (simp add: sample_lib_def sample_offer_def unary_of_def)
  moreover have "env_opens sample_env" by code_simp
  moreover obtain m where m: "m = P2P_new\<lparr>p2p_protocol := P2P_Protocol_MakeDirect, p2p_from := ''11'',
      p2p_make_direct := Some sample_offer\<rparr>" by simp
  moreover from m have "p2p_protocol m = P2P_Protocol_MakeDirect" "p2p_make_direct m = Some sample_offer" by simp_all
  ultimately show ?thesis
    using Client_refused_direct_uses_relay [of m sample_offer "sample_lib Command_new" 5 banned_client 0 sample_env
        sample_env 0 0 fresh_client]
    unfolding m [symmetric] by (metis sample_lib_text(1))
qed

section \<open>The handshake of a relayed session\<close>

text \<open>C29: when the relay has both sides it tells the lower one, which answers with a message for the
  upper one through the relay; the upper one answers that and turns raw, and its answer makes
  the lower one raw. Each side signals the connection once and sends one message; none of
  them is raw before it has seen a ready message of the other.\<close>

theorem Client_relay_handshake:
  assumes "connect_protocol c = Connect_Protocol_Reply" "connect_type c = Connect_Type_Proxydown" "connect_initialized c"
    and "s_id (cl_heap D d) = i" "map_of (sessionMap (cl_mgr D)) i = Some d"
    and "s_id (cl_heap U u) = j" "map_of (sessionMap (cl_mgr U)) j = Some u"
  shows "\<exists>D1 U1 D2 up down.
    Client_Process L d (connect_command c) D = (D1, Inr True) \<and>
      cl_sendQueue D1 = cl_sendQueue D @ [(i, serialize L up @ delimiter)] \<and> cl_signals D1 = cl_signals D \<and>
    Client_Process L u up U = (U1, Inr False) \<and>
      cl_sendQueue U1 = cl_sendQueue U @ [(j, serialize L down @ delimiter)] \<and>
      cl_signals U1 = cl_signals U @ [OnConnected j (s_type (cl_heap U u))] \<and>
    Client_Process L d down D1 = (D2, Inr False) \<and> cl_sendQueue D2 = cl_sendQueue D1 \<and>
      cl_signals D2 = cl_signals D @ [OnConnected i (s_type (cl_heap D d))]"
proof -
  let ?up = "ready_reply Connect_Type_Proxyup" and ?down = "ready_reply Connect_Type_Proxydown"
  let ?D1 = "Client_Send L i ?up D" and ?U1 = "Client_Send L j ?down U"
  have "Client_Process L d (connect_command c) D = (?D1, Inr True)"
    using assms by (simp add: Client_Process_def connect_command_def Client_ProcessConnect_def Client_ReplyProxydown_def)
  moreover have "Client_Process L u ?up U = (cl_connected u ?U1, Inr False)"
    using assms by (simp add: Client_Process_def ready_reply_def connect_command_def connect_reply_def
        Client_ProcessConnect_def Client_ReplyProxyup_def Connect_new_def Let_def)
  moreover have "Client_Process L d ?down ?D1 = (cl_connected d ?D1, Inr False)"
    using assms by (simp add: Client_Process_def ready_reply_def connect_command_def connect_reply_def
        Client_ProcessConnect_def Client_ReplyProxydown_def Connect_new_def)
  moreover have "cl_sendQueue ?D1 = cl_sendQueue D @ [(i, serialize L ?up @ delimiter)]"
    "cl_sendQueue ?U1 = cl_sendQueue U @ [(j, serialize L ?down @ delimiter)]"
    using assms by (simp_all add: Client_Send_enqueue cl_enqueue_def)
  ultimately show ?thesis using assms
    by (intro exI [of _ ?D1] exI [of _ "cl_connected u ?U1"] exI [of _ "cl_connected d ?D1"] exI [of _ ?up]
        exI [of _ ?down] conjI) (simp_all add: cl_connected_def Let_def)
qed

theorem Client_relay_handshake_witness:
  "\<exists>D1 U1 D2 up down.
    Client_Process (sample_lib Command_new) 0 (connect_command (Connect_new\<lparr>connect_protocol := Connect_Protocol_Reply,
        connect_type := Connect_Type_Proxydown, connect_initialized := True\<rparr>)) (client_reached logged_client) = (D1, Inr True) \<and>
    Client_Process (sample_lib Command_new) 0 up (client_reached logged_client) = (U1, Inr False) \<and>
    Client_Process (sample_lib Command_new) 0 down D1 = (D2, Inr False)"
proof -
  have "s_id (cl_heap (client_reached logged_client) 0) = 1"
    "map_of (sessionMap (cl_mgr (client_reached logged_client))) 1 = Some 0" by code_simp+
  then show ?thesis
    using Client_relay_handshake [of "Connect_new\<lparr>connect_protocol := Connect_Protocol_Reply,
        connect_type := Connect_Type_Proxydown, connect_initialized := True\<rparr>" "client_reached logged_client" 0 1
        "client_reached logged_client" 0 1 "sample_lib Command_new"]
    by simp blast
qed

section \<open>Connections that wait\<close>

text \<open>The client has one timer for the connections to repeat. When two sessions fail before it
  expires, the second aborts the wait of the first, whose handler then does nothing: only the
  second server is tried again, and the first session is never connected.\<close>

theorem Client_lost_retry:
  assumes "isRunning (cl_core st)" and "waits (cl_connTimer st) = []" and "env_opens env"
    and "cl_pending st = [CO_Connect (K_Stun ep1) a, CO_Connect (K_Stun ep2) b]"
  shows "\<exists>t. cl_steps L g [CE_Connect 0 (ec_other 1) None, CE_Connect 0 (ec_other 1) None, CE_ConnTimer 0 env,
        CE_Tick 5, CE_ConnTimer 0 env] st = Done t \<and>
    cl_pending t = [CO_Resolve (K_Stun ep2) (cl_fresh st)] \<and> waits (cl_connTimer t) = [] \<and>
    s_id (cl_heap t (cl_fresh st)) = s_id ((cl_heap st) b)"
  using assms
  by (simp add: cl_complete_def cl_drop_def remove_at_def Client_HandleConnect_def Client_HandleConnectStun_def
      retry_stun_def timer_ready_def timer_take_def Client_HandleConnectionTimeout_def Client_Connect_def Let_def
      cancel_deadline_def arm_deadline_def)

definition two_connects :: "cl_event list" where
  "two_connects = [CE_Call (Call_Connect default_endpoint 1) sample_env,
     CE_Call (Call_Connect \<lparr>ep_address = V4 1, ep_port = 1\<rparr> 2) sample_env, CE_Resolve 0 ec_ok, CE_Resolve 0 ec_ok]"

theorem Client_lost_retry_witness:
  "\<exists>t. cl_steps (sample_lib Command_new) sample_igd [CE_Connect 0 (ec_other 1) None, CE_Connect 0 (ec_other 1) None,
        CE_ConnTimer 0 sample_env, CE_Tick 5, CE_ConnTimer 0 sample_env] (client_reached two_connects) = Done t \<and>
    cl_pending t = [CO_Resolve (K_Stun \<lparr>ep_address = V4 1, ep_port = 1\<rparr>) 2]"
proof -
  have "isRunning (cl_core (client_reached two_connects))" "waits (cl_connTimer (client_reached two_connects)) = []"
    "env_opens sample_env"
    "cl_pending (client_reached two_connects) =
       [CO_Connect (K_Stun default_endpoint) 0, CO_Connect (K_Stun \<lparr>ep_address = V4 1, ep_port = 1\<rparr>) 1]"
    by code_simp+
  note lost = Client_lost_retry [OF this, of "sample_lib Command_new" sample_igd]
  have "cl_fresh (client_reached two_connects) = 2" by code_simp
  from lost [unfolded this] show ?thesis by blast
qed

lemma ConnectAll_pending:
  assumes "isRunning (cl_core st)" and "env_opens env"
  shows "\<exists>t. Client_ConnectAll env q st = (t, Inr ()) \<and>
    cl_pending t = cl_pending st @ map (\<lambda>k. CO_Resolve (K_Stun (snd (q ! k))) (cl_fresh st + k)) [0..<length q] \<and>
    (\<forall>k < length q. s_id (cl_heap t (cl_fresh st + k)) = fst (q ! k)) \<and>
    (\<forall>a < cl_fresh st. cl_heap t a = cl_heap st a) \<and> cl_upnp t = cl_upnp st"
  using assms
proof (induction q arbitrary: st)
  case Nil
  show ?case by simp
next
  case (Cons e q)
  obtain s where s: "Client_Connect env (snd e) (fst e) st = (s, Inr ())" "isRunning (cl_core s)"
      "cl_pending s = cl_pending st @ [CO_Resolve (K_Stun (snd e)) (cl_fresh st)]" "cl_fresh s = Suc (cl_fresh st)"
      "s_id (cl_heap s (cl_fresh st)) = fst e" "\<forall>a < cl_fresh st. cl_heap s a = cl_heap st a" "cl_upnp s = cl_upnp st"
    using Cons.prems by (simp_all add: Client_Connect_def arm_deadline_def)
  from Cons.IH [OF s(2) Cons.prems(2)] s(4) obtain t where
    t: "Client_ConnectAll env q s = (t, Inr ())"
      "cl_pending t = cl_pending s @ map (\<lambda>k. CO_Resolve (K_Stun (snd (q ! k))) (Suc (cl_fresh st) + k)) [0..<length q]"
      "\<forall>k < length q. s_id (cl_heap t (Suc (cl_fresh st) + k)) = fst (q ! k)"
      "\<forall>a < Suc (cl_fresh st). cl_heap t a = cl_heap s a" "cl_upnp t = cl_upnp s" by auto
  have "s_id (cl_heap t (cl_fresh st + k)) = fst ((e # q) ! k)" if "k < length (e # q)" for k
    using that t(3,4) s(5) by (cases k) auto
  moreover have "[0..<length (e # q)] = 0 # map Suc [0..<length q]"
    by (simp add: upt_conv_Cons map_Suc_upt del: upt_Suc)
  ultimately show ?case
    using s(1,3,6,7) t(1,2,4,5) by (intro exI [of _ t]) (simp add: less_SucI del: upt_Suc)
qed

text \<open>The connections asked for before the router is known are made, each once and in order, by
  the slot of \<open>StartUPNP\<close>, provided it is connected when the start runs. \<open>StartUPNP\<close> posts the
  start first: when that runs before the slot is connected, no queued connection is made by
  it.\<close>

theorem Client_queued_connects:
  assumes "isRunning (cl_core st)" and "isRunning (up_core (cl_upnp st))"
    and "up_starting (cl_upnp st) = 1" and "up_slots (cl_upnp st) = 0" and "env_opens env"
    and "q = cl_connectQueue st"
  shows "(\<exists>t. cl_steps L g [CE_Call Call_StartUPNP_slot env, CE_UPNP env] st = Done t \<and> cl_connectQueue t = [] \<and>
      cl_pending t = cl_pending st @ map (\<lambda>k. CO_Resolve (K_Stun (snd (q ! k))) (cl_fresh st + k)) [0..<length q] \<and>
      map (\<lambda>k. s_id (cl_heap t (cl_fresh st + k))) [0..<length q] = map fst q) \<and>
    (\<exists>t. cl_steps L g [CE_UPNP env, CE_Call Call_StartUPNP_slot env, CE_UPNP env] st = Done t \<and>
      cl_connectQueue t = q \<and> cl_pending t = cl_pending st)"
proof
  let ?u = "UPNP_HandleStart g (cl_router st) ((cl_upnp st)\<lparr>up_slots := 1\<rparr>)"
  have slots: "up_slots (UPNP_HandleStart g r u) = up_slots u" "up_starting (UPNP_HandleStart g r u) = up_starting u - 1" for r u
    by (simp_all add: UPNP_HandleStart_def UPNPCore_Connect_def split: option.splits prod.splits)
  from ConnectAll_pending [of "st\<lparr>cl_upnp := ?u\<rparr>" env q] assms obtain t where
    t: "Client_ConnectAll env q (st\<lparr>cl_upnp := ?u\<rparr>) = (t, Inr ())"
      "cl_pending t = cl_pending st @ map (\<lambda>k. CO_Resolve (K_Stun (snd (q ! k))) (cl_fresh st + k)) [0..<length q]"
      "\<forall>k < length q. s_id (cl_heap t (cl_fresh st + k)) = fst (q ! k)" by auto
  have ids: "map (\<lambda>k. s_id (cl_heap t (cl_fresh st + k))) [0..<length q] = map fst q"
    using t(3) by (intro nth_equalityI) auto
  from assms t(1,2) ids show "\<exists>t. cl_steps L g [CE_Call Call_StartUPNP_slot env, CE_UPNP env] st = Done t \<and> cl_connectQueue t = [] \<and>
      cl_pending t = cl_pending st @ map (\<lambda>k. CO_Resolve (K_Stun (snd (q ! k))) (cl_fresh st + k)) [0..<length q] \<and>
      map (\<lambda>k. s_id (cl_heap t (cl_fresh st + k))) [0..<length q] = map fst q"
    by (simp add: cl_call_def Client_StartUPNP_slot_def Client_HandleUPNPStart_def slots Client_OnStarted_def
        uncaught_def Let_def)
  from assms show "\<exists>t. cl_steps L g [CE_UPNP env, CE_Call Call_StartUPNP_slot env, CE_UPNP env] st = Done t \<and>
      cl_connectQueue t = q \<and> cl_pending t = cl_pending st"
    by (simp add: cl_call_def Client_StartUPNP_slot_def Client_HandleUPNPStart_def slots uncaught_def Let_def)
qed

theorem Client_queued_connects_witness:
  "\<exists>t. cl_steps (sample_lib Command_new) sample_igd [CE_UPNP sample_env, CE_Call Call_StartUPNP_slot sample_env, CE_UPNP sample_env]
      (client_reached [CE_Call (Call_AsyncConnect default_endpoint 1) sample_env, CE_Call Call_StartUPNP_post sample_env]) = Done t \<and>
    cl_connectQueue t = [(1, default_endpoint)]"
proof -
  let ?st = "client_reached [CE_Call (Call_AsyncConnect default_endpoint 1) sample_env, CE_Call Call_StartUPNP_post sample_env]"
  have "isRunning (cl_core ?st)" "isRunning (up_core (cl_upnp ?st))" "up_starting (cl_upnp ?st) = 1"
    "up_slots (cl_upnp ?st) = 0" "env_opens sample_env" "[(1, default_endpoint)] = cl_connectQueue ?st"
    by code_simp+
  from Client_queued_connects [OF this, of "sample_lib Command_new" sample_igd] show ?thesis by blast
qed

end
