(* ===== verification/Op_Types.thy ===== *)
theory Op_Types
  imports Registries
begin

text \<open>
  \<open>openproxy\<close>: the protocol objects \<open>Login.cpp\<close>, \<open>Greeting.cpp\<close>, \<open>Event.cpp\<close>, their
  serialisation \<open>Utils.h\<close> and the delimiter of \<open>Types.h\<close>. An archive of Boost.Serialization is a
  parameter that writes and reads a list of typed values; which values, and in which order, is
  what the \<open>serialize\<close> templates of the code say. The lemmas show that an event survives
  serialisation, and that the delimiter is an instance of the framing interface.
\<close>

section \<open>Types\<close>

text \<open>The second letter of the delimiter is a single byte of the source file.\<close>

definition op_delimiter :: "byte list" where
  "op_delimiter = [0x40, 0xF1, 0x68, 0x75, 0x6E, 0x6B]"

lemma length_op_delimiter [simp]: "length op_delimiter = 6"
  by (simp add: op_delimiter_def)

interpretation op_frame: framing op_delimiter
  by unfold_locales (simp_all add: op_delimiter_def)

datatype StreamType = UPSTREAM | DOWNSREAM | UNKNOWN_STREAM

text \<open>
  The enumeration is written as an integer. A number outside the enumeration is read as it is;
  every use of a type in the code treats it as \<open>UNKNOWN\<close>.
\<close>

fun StreamType_to_int :: "StreamType \<Rightarrow> int" where
  "StreamType_to_int UPSTREAM = 0"
| "StreamType_to_int DOWNSREAM = 1"
| "StreamType_to_int UNKNOWN_STREAM = 2"

definition StreamType_of_int :: "int \<Rightarrow> StreamType" where
  "StreamType_of_int n = (if n = 0 then UPSTREAM else if n = 1 then DOWNSREAM else UNKNOWN_STREAM)"

lemma StreamType_of_to_int [simp]: "StreamType_of_int (StreamType_to_int t) = t"
  by (cases t) (simp_all add: StreamType_of_int_def)

section \<open>Login\<close>

record Login =
  lg_client_id :: uuid
  lg_session_id :: uuid
  lg_type :: StreamType
  lg_has_client_id :: bool
  lg_has_session_id :: bool
  lg_has_type :: bool

definition Login_new :: Login where
  "Login_new = \<lparr>lg_client_id = nil_uuid, lg_session_id = nil_uuid, lg_type = UNKNOWN_STREAM,
     lg_has_client_id = False, lg_has_session_id = False, lg_has_type = False\<rparr>"

definition Login_client_id :: "Login \<Rightarrow> exn + uuid" where
  "Login_client_id l = (if \<not> lg_has_client_id l then Inl (runtime_error ''There is no client id'')
     else Inr (lg_client_id l))"

definition Login_session_id :: "Login \<Rightarrow> exn + uuid" where
  "Login_session_id l = (if \<not> lg_has_session_id l then Inl (runtime_error ''There is no session id'')
     else Inr (lg_session_id l))"

definition Login_type :: "Login \<Rightarrow> exn + StreamType" where
  "Login_type l = (if \<not> lg_has_type l then Inl (runtime_error ''There is no type'') else Inr (lg_type l))"

definition Login_set_client_id :: "uuid \<Rightarrow> Login \<Rightarrow> Login" where
  "Login_set_client_id i l = l\<lparr>lg_has_client_id := True, lg_client_id := i\<rparr>"

definition Login_set_session_id :: "uuid \<Rightarrow> Login \<Rightarrow> Login" where
  "Login_set_session_id i l = l\<lparr>lg_has_session_id := True, lg_session_id := i\<rparr>"

definition Login_set_type :: "StreamType \<Rightarrow> Login \<Rightarrow> Login" where
  "Login_set_type t l = l\<lparr>lg_has_type := True, lg_type := t\<rparr>"

section \<open>Greeting\<close>

record Greeting =
  gr_ready :: bool
  gr_has_ready :: bool

definition Greeting_new :: Greeting where
  "Greeting_new = \<lparr>gr_ready = False, gr_has_ready = False\<rparr>"

definition Greeting_ready :: "Greeting \<Rightarrow> exn + bool" where
  "Greeting_ready g = (if \<not> gr_has_ready g then Inl (runtime_error ''There is no ready'') else Inr (gr_ready g))"

definition Greeting_set_ready :: "Greeting \<Rightarrow> Greeting" where
  "Greeting_set_ready g = g\<lparr>gr_has_ready := True, gr_ready := True\<rparr>"

section \<open>Event\<close>

record Event =
  ev_greeting :: Greeting
  ev_login :: Login
  ev_has_greeting :: bool
  ev_has_login :: bool

definition Event_new :: Event where
  "Event_new = \<lparr>ev_greeting = Greeting_new, ev_login = Login_new, ev_has_greeting = False, ev_has_login = False\<rparr>"

definition Event_greeting :: "Event \<Rightarrow> exn + Greeting" where
  "Event_greeting e = (if \<not> ev_has_greeting e then Inl (runtime_error ''There is no greeting'')
     else Inr (ev_greeting e))"

definition Event_login :: "Event \<Rightarrow> exn + Login" where
  "Event_login e = (if \<not> ev_has_login e then Inl (runtime_error ''There is no login'') else Inr (ev_login e))"

definition Event_set_login :: "Login \<Rightarrow> Event \<Rightarrow> Event" where
  "Event_set_login l e = e\<lparr>ev_has_login := True, ev_login := l\<rparr>"

definition Event_set_greeting :: "Greeting \<Rightarrow> Event \<Rightarrow> Event" where
  "Event_set_greeting g e = e\<lparr>ev_has_greeting := True, ev_greeting := g\<rparr>"

section \<open>Serialisation\<close>

datatype kind = KUuid | KInt | KBool
datatype atom = AUuid uuid | AInt int | ABool bool

fun kind_of :: "atom \<Rightarrow> kind" where
  "kind_of (AUuid _) = KUuid" | "kind_of (AInt _) = KInt" | "kind_of (ABool _) = KBool"

text \<open>
  The text archives: writing values, and reading values of the given kinds, where malformed
  text throws (\<open>None\<close>).
\<close>

record archive =
  text_oarchive :: "atom list \<Rightarrow> byte list"
  text_iarchive :: "kind list \<Rightarrow> byte list \<Rightarrow> atom list option"

text \<open>
  Boost.Serialization reads back what it wrote, and a text archive holds printable ASCII, so
  never the delimiter, whose second byte is not ASCII.
\<close>

definition archive_ok :: "archive \<Rightarrow> bool" where
  "archive_ok A \<longleftrightarrow> (\<forall>xs. text_iarchive A (map kind_of xs) (text_oarchive A xs) = Some xs) \<and>
     (\<forall>xs. \<forall>b \<in> set (text_oarchive A xs). b < 128)"

text \<open>The \<open>serialize\<close> templates, which name the fields in the order they are written and read.\<close>

definition Login_save :: "Login \<Rightarrow> atom list" where
  "Login_save l = [AUuid (lg_client_id l), AUuid (lg_session_id l), AInt (StreamType_to_int (lg_type l)),
     ABool (lg_has_client_id l), ABool (lg_has_session_id l), ABool (lg_has_type l)]"

fun Login_load :: "atom list \<Rightarrow> (Login \<times> atom list) option" where
  "Login_load (AUuid c # AUuid s # AInt t # ABool hc # ABool hs # ABool ht # rest) =
     Some (\<lparr>lg_client_id = c, lg_session_id = s, lg_type = StreamType_of_int t,
       lg_has_client_id = hc, lg_has_session_id = hs, lg_has_type = ht\<rparr>, rest)"
| "Login_load _ = None"

definition Greeting_save :: "Greeting \<Rightarrow> atom list" where
  "Greeting_save g = [ABool (gr_ready g), ABool (gr_has_ready g)]"

fun Greeting_load :: "atom list \<Rightarrow> (Greeting \<times> atom list) option" where
  "Greeting_load (ABool r # ABool h # rest) = Some (\<lparr>gr_ready = r, gr_has_ready = h\<rparr>, rest)"
| "Greeting_load _ = None"

definition Event_save :: "Event \<Rightarrow> atom list" where
  "Event_save e = Login_save (ev_login e) @ Greeting_save (ev_greeting e) @
     [ABool (ev_has_login e), ABool (ev_has_greeting e)]"

definition Event_kinds :: "kind list" where
  "Event_kinds = [KUuid, KUuid, KInt, KBool, KBool, KBool] @ [KBool, KBool] @ [KBool, KBool]"

definition Event_load :: "atom list \<Rightarrow> Event option" where
  "Event_load xs =
     (case Login_load xs of
        None \<Rightarrow> None
      | Some (l, ys) \<Rightarrow>
          (case Greeting_load ys of
             Some (g, [ABool hl, ABool hg]) \<Rightarrow>
               Some \<lparr>ev_greeting = g, ev_login = l, ev_has_greeting = hg, ev_has_login = hl\<rparr>
           | _ \<Rightarrow> None))"

lemma Event_load_save [simp]: "Event_load (Event_save e) = Some e"
  by (simp add: Event_load_def Event_save_def Login_save_def Greeting_save_def)

lemma Event_kinds_save [simp]: "map kind_of (Event_save e) = Event_kinds"
  by (simp add: Event_kinds_def Event_save_def Login_save_def Greeting_save_def)

section \<open>Utilities\<close>

text \<open>The message in front of the delimiter; \<open>offset\<close> counts the delimiter.\<close>

definition BufferToSteam :: "byte list \<Rightarrow> nat \<Rightarrow> byte list" where
  "BufferToSteam buf offset = take (offset - length op_delimiter) buf"

definition CopyBuffer :: "byte list \<Rightarrow> byte list \<Rightarrow> nat \<Rightarrow> byte list \<times> nat" where
  "CopyBuffer target source sz =
     (let copied = min sz (length source) in (target @ take copied source, copied))"

definition SerializeToBuffer :: "archive \<Rightarrow> Event \<Rightarrow> byte list \<Rightarrow> byte list" where
  "SerializeToBuffer A source target = target @ text_oarchive A (Event_save source) @ op_delimiter"

definition DeserializeFromBuffer :: "archive \<Rightarrow> byte list \<Rightarrow> nat \<Rightarrow> exn + Event" where
  "DeserializeFromBuffer A source bytes =
     (case text_iarchive A Event_kinds (BufferToSteam source bytes) of
        None \<Rightarrow> Inl lib_error
      | Some xs \<Rightarrow> throw_none (Event_load xs))"

lemma op_clean_ascii:
  assumes "\<forall>b \<in> set p. b < 128"
  shows "read_until op_delimiter p = None"
proof -
  have "\<not> starts_with op_delimiter (drop i p)" for i
  proof
    assume "starts_with op_delimiter (drop i p)"
    then obtain t where "drop i p = op_delimiter @ t" by (auto simp: starts_with_iff)
    then have "0xF1 \<in> set (drop i p)" by (simp add: op_delimiter_def)
    then have "0xF1 \<in> set p" by (rule in_set_dropD)
    with assms have "(0xF1 :: byte) < 128" by blast
    then show False by simp
  qed
  then show ?thesis by (simp add: read_until_None_iff op_delimiter_def)
qed

text \<open>An event that was serialised at the front of a stream is read back, and ends where it was written.\<close>

lemma event_roundtrip:
  assumes "archive_ok A"
  shows "\<exists>n. read_until op_delimiter (SerializeToBuffer A e [] @ rest) = Some n \<and>
    DeserializeFromBuffer A (SerializeToBuffer A e [] @ rest) n = Inr e \<and>
    drop n (SerializeToBuffer A e [] @ rest) = rest \<and> n = length (SerializeToBuffer A e [])"
proof -
  let ?p = "text_oarchive A (Event_save e)"
  from assms have "\<forall>b \<in> set ?p. b < 128" by (simp add: archive_ok_def)
  from op_frame.read_until_frame [OF op_clean_ascii [OF this], of rest]
  have n: "read_until op_delimiter (?p @ op_delimiter @ rest) = Some (length ?p + length op_delimiter)" .
  have "text_iarchive A Event_kinds ?p = Some (Event_save e)"
    using assms unfolding archive_ok_def by (metis Event_kinds_save)
  with n show ?thesis
    by (simp add: SerializeToBuffer_def DeserializeFromBuffer_def BufferToSteam_def)
qed

text \<open>
  A concrete archive for the witnesses: numbers in unary, closed by a zero.
\<close>

definition sample_atom :: "atom \<Rightarrow> byte list" where
  "sample_atom a = (case a of
     AUuid i \<Rightarrow> replicate (unat i) 1 @ [0]
   | AInt n \<Rightarrow> [if n < 0 then 1 else 0] @ replicate (nat \<bar>n\<bar>) 1 @ [0]
   | ABool b \<Rightarrow> [if b then 1 else 0])"

fun sample_read :: "kind \<Rightarrow> byte list \<Rightarrow> (atom \<times> byte list) option" where
  "sample_read KUuid bs =
     (let k = length (takeWhile (\<lambda>b. b = 1) bs) in
      if k = length bs then None else Some (AUuid (of_nat k), drop (Suc k) bs))"
| "sample_read KInt [] = None"
| "sample_read KInt (s # bs) =
     (let k = length (takeWhile (\<lambda>b. b = 1) bs) in
      if k = length bs then None else Some (AInt (if s = 1 then - int k else int k), drop (Suc k) bs))"
| "sample_read KBool [] = None"
| "sample_read KBool (b # bs) = Some (ABool (b = 1), bs)"

fun sample_reads :: "kind list \<Rightarrow> byte list \<Rightarrow> atom list option" where
  "sample_reads [] bs = Some []"
| "sample_reads (k # ks) bs =
     (case sample_read k bs of
        None \<Rightarrow> None
      | Some (a, bs') \<Rightarrow> map_option ((#) a) (sample_reads ks bs'))"

definition sample_archive :: archive where
  "sample_archive = \<lparr>text_oarchive = (\<lambda>xs. concat (map sample_atom xs)), text_iarchive = sample_reads\<rparr>"

lemma takeWhile_ones: "takeWhile (\<lambda>b. b = (1 :: byte)) (replicate n 1 @ 0 # bs) = replicate n 1"
  by (induction n) simp_all

lemma sample_read_atom: "sample_read (kind_of a) (sample_atom a @ bs) = Some (a, bs)"
  by (cases a) (auto simp: sample_atom_def takeWhile_ones Let_def)

lemma sample_archive_ok: "archive_ok sample_archive"
proof -
  have "sample_reads (map kind_of xs) (concat (map sample_atom xs)) = Some xs" for xs
    by (induction xs) (simp_all add: sample_read_atom)
  moreover have "\<forall>b \<in> set (sample_atom a). b < 128" for a
    by (cases a) (auto simp: sample_atom_def)
  ultimately show ?thesis by (auto simp: archive_ok_def sample_archive_def)
qed

end
