(* ===== verification/Op_Session.thy ===== *)
theory Op_Session
  imports Op_Types
begin

text \<open>
  Sessions and managers of \<open>openproxy\<close>: \<open>Session.cpp\<close>, \<open>ClientMgr.cpp\<close> and \<open>ProxyMgr.cpp\<close>, over a
  heap of sessions as in \<open>opennat\<close>. The two managers throw where those of \<open>opennat\<close> answer with
  a flag; they are interpreted in the same contracts.
\<close>

named_theorems op_simps

section \<open>Session\<close>

text \<open>The constructor leaves \<open>bytesRead_\<close> and \<open>bytesWrite_\<close> uninitialised: \<open>rr\<close> and \<open>rw\<close>.\<close>

record OSession =
  o_buffRead :: "byte list"
  o_buffWrite :: "byte list"
  o_bytesRead :: nat
  o_bytesWrite :: nat
  o_clientId :: uuid
  o_id :: uuid
  o_isReady :: bool
  o_open :: bool
  o_type :: StreamType

type_synonym oheap = "addr \<Rightarrow> OSession"

definition OSession_Construct :: "nat \<Rightarrow> nat \<Rightarrow> OSession" where
  "OSession_Construct rr rw = \<lparr>o_buffRead = [], o_buffWrite = [], o_bytesRead = rr, o_bytesWrite = rw,
     o_clientId = nil_uuid, o_id = nil_uuid, o_isReady = False, o_open = False, o_type = UNKNOWN_STREAM\<rparr>"

definition OSession_SetBytesReadBuff :: "nat \<Rightarrow> OSession \<Rightarrow> OSession" where
  [simp]: "OSession_SetBytesReadBuff n s = s\<lparr>o_bytesRead := n\<rparr>"

definition OSession_SetBytesWriteBuff :: "nat \<Rightarrow> OSession \<Rightarrow> OSession" where
  [simp]: "OSession_SetBytesWriteBuff n s = s\<lparr>o_bytesWrite := n\<rparr>"

definition OSession_SetClientId :: "uuid \<Rightarrow> OSession \<Rightarrow> OSession" where
  [simp]: "OSession_SetClientId i s = s\<lparr>o_clientId := i\<rparr>"

definition OSession_SetId :: "uuid \<Rightarrow> OSession \<Rightarrow> OSession" where
  [simp]: "OSession_SetId i s = s\<lparr>o_id := i\<rparr>"

definition OSession_SetReady :: "bool \<Rightarrow> OSession \<Rightarrow> OSession" where
  [simp]: "OSession_SetReady b s = s\<lparr>o_isReady := b\<rparr>"

definition OSession_SetType :: "StreamType \<Rightarrow> OSession \<Rightarrow> OSession" where
  [simp]: "OSession_SetType t s = s\<lparr>o_type := t\<rparr>"

definition OSession_Stop :: "OSession \<Rightarrow> OSession" where
  "OSession_Stop s = (if o_open s then s\<lparr>o_isReady := False, o_open := False\<rparr> else s)"

lemma OSession_Stop_sel [simp]:
  "\<not> o_open (OSession_Stop s)" "o_id (OSession_Stop s) = o_id s" "o_type (OSession_Stop s) = o_type s"
  "o_buffRead (OSession_Stop s) = o_buffRead s" "o_buffWrite (OSession_Stop s) = o_buffWrite s"
  "o_bytesRead (OSession_Stop s) = o_bytesRead s" "o_bytesWrite (OSession_Stop s) = o_bytesWrite s"
  "o_clientId (OSession_Stop s) = o_clientId s" "OSession_Stop (OSession_Stop s) = OSession_Stop s"
  by (simp_all add: OSession_Stop_def)

section \<open>ClientMgr\<close>

type_synonym ClientMgr = "(uuid, addr) um"

definition ClientMgr_AddSession :: "oheap \<Rightarrow> addr \<Rightarrow> ClientMgr \<Rightarrow> exn + ClientMgr" where
  "ClientMgr_AddSession h a m =
     (let ret = um_insert (o_id (h a)) a m
      in if \<not> snd ret then Inl (runtime_error ''Unable to add given session'') else Inr (fst ret))"

definition ClientMgr_Find :: "uuid \<Rightarrow> ClientMgr \<Rightarrow> exn + addr" where
  "ClientMgr_Find i m =
     (case map_of m i of
        None \<Rightarrow> Inl (runtime_error ''Unable to find session with given id'')
      | Some a \<Rightarrow> Inr a)"

definition ClientMgr_RemoveSession :: "uuid \<Rightarrow> oheap \<times> ClientMgr \<Rightarrow> oheap \<times> ClientMgr" where
  "ClientMgr_RemoveSession i = (\<lambda>(h, m).
     (case map_of m i of
        None \<Rightarrow> (h, m)
      | Some a \<Rightarrow> (h(a := OSession_Stop (h a)), um_erase i m)))"

definition ClientMgr_Stop :: "oheap \<times> ClientMgr \<Rightarrow> oheap \<times> ClientMgr" where
  "ClientMgr_Stop = (\<lambda>(h, m). (fold (\<lambda>e h. h(snd e := OSession_Stop (h (snd e)))) m h, []))"

lemma ClientMgr_AddSession_iff [op_simps]:
  "ClientMgr_AddSession h a m = Inr n \<longleftrightarrow> map_of m (o_id (h a)) = None \<and> n = m @ [(o_id (h a), a)]"
  by (auto simp: ClientMgr_AddSession_def Let_def um_insert_def split: option.splits if_splits)

lemma ClientMgr_Find_iff [op_simps]: "ClientMgr_Find i m = Inr a \<longleftrightarrow> map_of m i = Some a"
  by (simp add: ClientMgr_Find_def split: option.splits)

lemma ostop_all_apply:
  "fold (\<lambda>e h. h(snd e := OSession_Stop (h (snd e)))) es h a =
     (if a \<in> snd ` set es then OSession_Stop (h a) else h a)"
  by (induction es arbitrary: h) auto

section \<open>ClientMgr meets the registry contract\<close>

type_synonym cmgr = "oheap \<times> ClientMgr"

definition cmgr_find :: "cmgr \<Rightarrow> uuid \<Rightarrow> addr option" where
  "cmgr_find s = map_of (snd s)"

definition cmgr_add :: "addr \<Rightarrow> cmgr \<Rightarrow> cmgr option" where
  "cmgr_add a s = (case ClientMgr_AddSession (fst s) a (snd s) of Inl _ \<Rightarrow> None | Inr m \<Rightarrow> Some (fst s, m))"

definition cmgr_key :: "cmgr \<Rightarrow> addr \<Rightarrow> uuid" where
  "cmgr_key s a = o_id (fst s a)"

definition cmgr_open :: "cmgr \<Rightarrow> addr set" where
  "cmgr_open s = {a. o_open (fst s a)}"

definition cmgr_ok :: "cmgr \<Rightarrow> bool" where
  "cmgr_ok s \<longleftrightarrow> um_ok (snd s)"

lemmas cmgr_defs = cmgr_find_def cmgr_add_def cmgr_key_def cmgr_open_def cmgr_ok_def

interpretation cmgr: session_registry cmgr_find cmgr_add ClientMgr_RemoveSession ClientMgr_Stop
  cmgr_key cmgr_open cmgr_ok
proof (unfold_locales, goal_cases)
  case (1 s a)
  show ?case
    by (cases "map_of (snd s) (o_id (fst s a))")
      (simp_all add: cmgr_defs ClientMgr_AddSession_def um_insert_def)
next
  case (2 s a t)
  then have none: "map_of (snd s) (o_id (fst s a)) = None" and t: "t = (fst s, snd s @ [(o_id (fst s a), a)])"
    by (auto simp: cmgr_add_def op_simps split: sum.splits)
  have "snd s @ [(o_id (fst s a), a)] = fst (um_insert (o_id (fst s a)) a (snd s))"
    using none by (simp add: um_insert_def)
  then have "um_ok (snd s @ [(o_id (fst s a), a)])"
    using 2(1) by (simp only: um_simps cmgr_ok_def)
  with none t show ?case by (auto simp: cmgr_defs fun_eq_iff map_add_def split: option.splits)
next
  case (3 s i)
  then show ?case
    by (cases s) (auto simp: cmgr_defs ClientMgr_RemoveSession_def um_simps fun_eq_iff split: option.splits)
next
  case (4 s)
  have "ran (map_of (snd s)) = snd ` set (snd s)"
    using 4 by (simp add: cmgr_ok_def um_ok_def ran_distinct)
  then show ?case
    by (cases s) (auto simp: cmgr_defs ClientMgr_Stop_def ostop_all_apply fun_eq_iff um_ok_def split: if_splits)
qed

section \<open>ProxyMgr\<close>

record OPair =
  pair_down :: "addr option"
  pair_up :: "addr option"

type_synonym OProxyMgr = "(uuid, OPair) um"

definition OProxyMgr_AddPair :: "uuid \<Rightarrow> OPair \<Rightarrow> OProxyMgr \<Rightarrow> exn + OProxyMgr" where
  "OProxyMgr_AddPair i p m =
     (let ret = um_insert i p m
      in if \<not> snd ret then Inl (runtime_error ''Session with given id is already in list'') else Inr (fst ret))"

definition OProxyMgr_AddSession :: "oheap \<Rightarrow> addr \<Rightarrow> OProxyMgr \<Rightarrow> exn + OProxyMgr" where
  "OProxyMgr_AddSession h a m =
     (case map_of m (o_id (h a)) of
        None \<Rightarrow>
          (if o_type (h a) = DOWNSREAM
           then Inr (fst (um_insert (o_id (h a)) \<lparr>pair_down = Some a, pair_up = None\<rparr> m))
           else if o_type (h a) = UPSTREAM
           then Inr (fst (um_insert (o_id (h a)) \<lparr>pair_down = None, pair_up = Some a\<rparr> m))
           else Inl (runtime_error ''Unknown session type''))
      | Some p \<Rightarrow>
          (if o_type (h a) = DOWNSREAM
           then (if pair_down p \<noteq> None
                 then Inl (runtime_error ''Down stream session has alredy initilized'')
                 else Inr (um_assign (o_id (h a)) (p\<lparr>pair_down := Some a\<rparr>) m))
           else if o_type (h a) = UPSTREAM
           then (if pair_up p \<noteq> None
                 then Inl (runtime_error ''Up stream session has alredy initilized'')
                 else Inr (um_assign (o_id (h a)) (p\<lparr>pair_up := Some a\<rparr>) m))
           else Inl (runtime_error ''Unknown session type'')))"

definition OProxyMgr_FindPair :: "uuid \<Rightarrow> OProxyMgr \<Rightarrow> exn + OPair" where
  "OProxyMgr_FindPair i m =
     (case map_of m i of
        None \<Rightarrow> Inl (runtime_error ''Unable to find session pair with given id'')
      | Some p \<Rightarrow> Inr p)"

definition ostop_opt :: "addr option \<Rightarrow> oheap \<Rightarrow> oheap" where
  "ostop_opt x h = (case x of None \<Rightarrow> h | Some a \<Rightarrow> h(a := OSession_Stop (h a)))"

definition OProxyMgr_RemoveSession :: "uuid \<Rightarrow> oheap \<times> OProxyMgr \<Rightarrow> oheap \<times> OProxyMgr" where
  "OProxyMgr_RemoveSession i = (\<lambda>(h, m).
     (case map_of m i of
        None \<Rightarrow> (h, m)
      | Some p \<Rightarrow> (ostop_opt (pair_up p) (ostop_opt (pair_down p) h), um_erase i m)))"

lemma OProxyMgr_FindPair_iff [op_simps]: "OProxyMgr_FindPair i m = Inr p \<longleftrightarrow> map_of m i = Some p"
  by (simp add: OProxyMgr_FindPair_def split: option.splits)

lemma ostop_opt_sel [simp]:
  "o_id (ostop_opt x h a) = o_id (h a)" "o_type (ostop_opt x h a) = o_type (h a)"
  "o_buffRead (ostop_opt x h a) = o_buffRead (h a)" "o_buffWrite (ostop_opt x h a) = o_buffWrite (h a)"
  "o_bytesRead (ostop_opt x h a) = o_bytesRead (h a)" "o_bytesWrite (ostop_opt x h a) = o_bytesWrite (h a)"
  "o_open (ostop_opt x h a) \<longleftrightarrow> o_open (h a) \<and> x \<noteq> Some a"
  by (auto simp: ostop_opt_def split: option.splits)

lemma OProxyMgr_RemoveSession_heap [simp]:
  "o_id (fst (OProxyMgr_RemoveSession i (h, m)) a) = o_id (h a)"
  "o_type (fst (OProxyMgr_RemoveSession i (h, m)) a) = o_type (h a)"
  "o_buffRead (fst (OProxyMgr_RemoveSession i (h, m)) a) = o_buffRead (h a)"
  "o_buffWrite (fst (OProxyMgr_RemoveSession i (h, m)) a) = o_buffWrite (h a)"
  "o_bytesRead (fst (OProxyMgr_RemoveSession i (h, m)) a) = o_bytesRead (h a)"
  "o_bytesWrite (fst (OProxyMgr_RemoveSession i (h, m)) a) = o_bytesWrite (h a)"
  by (simp_all add: OProxyMgr_RemoveSession_def split: option.splits)

section \<open>ProxyMgr meets the pair contract\<close>

type_synonym opmgr = "oheap \<times> OProxyMgr"

definition opmgr_pair :: "opmgr \<Rightarrow> uuid \<Rightarrow> (addr option \<times> addr option) option" where
  "opmgr_pair s i = map_option (\<lambda>p. (pair_down p, pair_up p)) (map_of (snd s) i)"

definition opmgr_add :: "addr \<Rightarrow> opmgr \<Rightarrow> opmgr option" where
  "opmgr_add a s = (case OProxyMgr_AddSession (fst s) a (snd s) of Inl _ \<Rightarrow> None | Inr m \<Rightarrow> Some (fst s, m))"

definition opmgr_key :: "opmgr \<Rightarrow> addr \<Rightarrow> uuid" where
  "opmgr_key s a = o_id (fst s a)"

definition side_of_stream :: "StreamType \<Rightarrow> side option" where
  "side_of_stream t = (case t of DOWNSREAM \<Rightarrow> Some Down | UPSTREAM \<Rightarrow> Some Up | UNKNOWN_STREAM \<Rightarrow> None)"

definition opmgr_side :: "opmgr \<Rightarrow> addr \<Rightarrow> side option" where
  "opmgr_side s a = side_of_stream (o_type (fst s a))"

definition opmgr_open :: "opmgr \<Rightarrow> addr set" where
  "opmgr_open s = {a. o_open (fst s a)}"

definition opmgr_ok :: "opmgr \<Rightarrow> bool" where
  "opmgr_ok s \<longleftrightarrow> um_ok (snd s)"

lemmas opmgr_defs = opmgr_pair_def opmgr_add_def opmgr_key_def opmgr_side_def opmgr_open_def opmgr_ok_def

lemma OProxyMgr_AddSession_spec:
  "(case put_side (side_of_stream (o_type (h a))) a (slot_of (opmgr_pair (h, m)) (o_id (h a))) of
      None \<Rightarrow> \<exists>e. OProxyMgr_AddSession h a m = Inl e
    | Some p \<Rightarrow> \<exists>n. OProxyMgr_AddSession h a m = Inr n \<and>
        opmgr_pair (h, n) = (opmgr_pair (h, m))(o_id (h a) \<mapsto> p) \<and> (um_ok m \<longrightarrow> um_ok n))"
proof (cases "map_of m (o_id (h a))")
  case None
  then show ?thesis
    by (cases "o_type (h a)")
      (auto simp: OProxyMgr_AddSession_def side_of_stream_def slot_of_def opmgr_pair_def um_simps fun_eq_iff)
next
  case (Some p)
  then show ?thesis
    by (cases "o_type (h a)"; cases "pair_down p"; cases "pair_up p")
      (auto simp: OProxyMgr_AddSession_def side_of_stream_def slot_of_def opmgr_pair_def um_simps fun_eq_iff)
qed

interpretation opmgr: pair_registry opmgr_pair opmgr_add OProxyMgr_RemoveSession
  opmgr_key opmgr_side opmgr_open opmgr_ok
proof (unfold_locales, goal_cases)
  case (1 s a)
  then show ?case
    using OProxyMgr_AddSession_spec [of "fst s" a "snd s"]
    by (auto simp: opmgr_add_def opmgr_key_def opmgr_side_def split: option.splits sum.splits)
next
  case (2 s a t)
  then show ?case
    using OProxyMgr_AddSession_spec [of "fst s" a "snd s"]
    by (auto simp: opmgr_add_def opmgr_key_def opmgr_side_def opmgr_open_def opmgr_ok_def
      fun_eq_iff split: option.splits sum.splits)
next
  case (3 s i)
  then show ?case
    by (cases s)
      (auto simp: opmgr_defs OProxyMgr_RemoveSession_def um_simps fun_eq_iff split: option.splits)
qed

end
