(* ===== verification/Op_Client.thy ===== *)
theory Op_Client
  imports Op_Session Nat_Core Send_Queue
begin

text \<open>
  \<open>openproxy/src/Client.cpp\<close>, handler by handler, in the style of the proxy. \<open>oc_step\<close> is the
  machine. The loop of the completion handler is total here: the manager holds no null
  session, so a session that is found ends it.
\<close>

section \<open>State\<close>

datatype oc_signal =
    Op_OnConnected uuid
  | Op_OnError uuid
  | Op_OnReady uuid
  | Op_OnReceive "byte list" uuid

datatype oc_task =
    CT_DoConnect addr endpoint
  | CT_DoSend addr "byte list"
  | CT_Login addr
  | CT_SendReady addr
  | CT_ReceiveReady addr
  | CT_Receive addr

datatype oc_op =
    CP_Resolve addr
  | CP_Connect addr endpoint
  | CP_Login addr "byte list"
  | CP_SendReady addr "byte list"
  | CP_ReceiveReady addr
  | CP_Receive addr
  | CP_Write addr "byte list"

type_synonym oc_entry = "uuid \<times> byte list"

record OClient =
  oc_heap :: oheap
  oc_fresh :: addr
  oc_clientId :: uuid
  oc_mgr :: ClientMgr
  oc_sendQueue :: "oc_entry list"
  oc_type :: StreamType
  oc_posted :: "oc_task list"
  oc_pending :: "oc_op list"
  oc_signals :: "oc_signal list"
  oc_wire :: "(addr \<times> byte list) list"
  oc_core :: Core

definition OClient_Construct :: "StreamType \<Rightarrow> uuid \<Rightarrow> OClient" where
  "OClient_Construct t i = \<lparr>oc_heap = (\<lambda>_. OSession_Construct 0 0), oc_fresh = 0, oc_clientId = i, oc_mgr = [],
     oc_sendQueue = [], oc_type = t, oc_posted = [], oc_pending = [], oc_signals = [], oc_wire = [],
     oc_core = Core_Run (Core_Construct 2)\<rparr>"

definition oc_session :: "addr \<Rightarrow> (OSession \<Rightarrow> OSession) \<Rightarrow> OClient \<Rightarrow> OClient" where
  "oc_session a f st = st\<lparr>oc_heap := (oc_heap st)(a := f (oc_heap st a))\<rparr>"

definition oc_post :: "oc_task \<Rightarrow> OClient \<Rightarrow> OClient" where
  "oc_post t st = st\<lparr>oc_posted := oc_posted st @ [t]\<rparr>"

definition oc_start :: "oc_op \<Rightarrow> OClient \<Rightarrow> OClient" where
  "oc_start x st = st\<lparr>oc_pending := oc_pending st @ [x]\<rparr>"

definition oc_emit :: "oc_signal \<Rightarrow> OClient \<Rightarrow> OClient" where
  "oc_emit x st = st\<lparr>oc_signals := oc_signals st @ [x]\<rparr>"

definition oc_remove :: "uuid \<Rightarrow> OClient \<Rightarrow> OClient" where
  "oc_remove i st =
     (let r = ClientMgr_RemoveSession i (oc_heap st, oc_mgr st) in st\<lparr>oc_heap := fst r, oc_mgr := snd r\<rparr>)"

text \<open>The error branch shared by the handlers of a registered session.\<close>

definition oc_fail :: "addr \<Rightarrow> OClient \<Rightarrow> OClient" where
  "oc_fail a st = (let i = o_id (oc_heap st a) in oc_remove i (oc_emit (Op_OnError i) st))"

section \<open>Connecting\<close>

definition OClient_Connect :: "nat \<times> nat \<Rightarrow> uuid \<Rightarrow> OClient \<Rightarrow> OClient" where
  "OClient_Connect raw sessionId st =
     (let a = oc_fresh st;
          s = OSession_SetType (oc_type st) (OSession_SetClientId (oc_clientId st)
                (OSession_SetId sessionId (OSession_Construct (fst raw) (snd raw))))
      in oc_start (CP_Resolve a) (st\<lparr>oc_heap := (oc_heap st)(a := s), oc_fresh := Suc a\<rparr>))"

definition OClient_HandleResolve :: "addr \<Rightarrow> error_code \<Rightarrow> endpoint \<Rightarrow> OClient \<Rightarrow> OClient" where
  "OClient_HandleResolve a ec ep st =
     (if failed ec then oc_emit (Op_OnError (o_id (oc_heap st a))) st
      else oc_post (CT_DoConnect a ep) st)"

text \<open>\<open>async_connect\<close> opens the socket.\<close>

definition OClient_DoConnect :: "addr \<Rightarrow> endpoint \<Rightarrow> OClient \<Rightarrow> OClient" where
  "OClient_DoConnect a ep st = oc_start (CP_Connect a ep) (oc_session a (\<lambda>s. s\<lparr>o_open := True\<rparr>) st)"

definition OClient_HandleConnect :: "addr \<Rightarrow> error_code \<Rightarrow> OClient \<Rightarrow> OClient" where
  "OClient_HandleConnect a ec st =
     (let i = o_id (oc_heap st a)
      in if failed ec then oc_emit (Op_OnError i) st
         else case ClientMgr_AddSession (oc_heap st) a (oc_mgr st) of
           Inl _ \<Rightarrow> oc_emit (Op_OnError i) st
         | Inr m \<Rightarrow> oc_post (CT_Login a) (oc_emit (Op_OnConnected i) (st\<lparr>oc_mgr := m\<rparr>)))"

definition OClient_Disconnect :: "OClient \<Rightarrow> OClient" where
  "OClient_Disconnect st =
     (let r = ClientMgr_Stop (oc_heap st, oc_mgr st) in st\<lparr>oc_heap := fst r, oc_mgr := snd r\<rparr>)"

definition OClient_IsConnected :: "uuid \<Rightarrow> OClient \<Rightarrow> bool" where
  "OClient_IsConnected i st = (case ClientMgr_Find i (oc_mgr st) of Inl _ \<Rightarrow> False | Inr _ \<Rightarrow> True)"

section \<open>Login and greeting\<close>

definition OClient_login_event :: "OSession \<Rightarrow> Event" where
  "OClient_login_event s =
     Event_set_login (Login_set_type (o_type s) (Login_set_session_id (o_id s)
       (Login_set_client_id (o_clientId s) Login_new))) Event_new"

definition OClient_ready_event :: Event where
  "OClient_ready_event = Event_set_greeting (Greeting_set_ready Greeting_new) Event_new"

definition OClient_Login :: "archive \<Rightarrow> addr \<Rightarrow> OClient \<Rightarrow> OClient" where
  "OClient_Login A a st =
     (let st1 = oc_session a (\<lambda>s. s\<lparr>o_buffWrite := SerializeToBuffer A (OClient_login_event s) (o_buffWrite s)\<rparr>) st
      in oc_start (CP_Login a (o_buffWrite (oc_heap st1 a))) st1)"

definition OClient_HandleLogin :: "addr \<Rightarrow> error_code \<Rightarrow> OClient \<Rightarrow> OClient" where
  "OClient_HandleLogin a ec st =
     (if failed ec then oc_fail a st
      else oc_post (CT_SendReady a) (oc_session a (\<lambda>s. s\<lparr>o_buffWrite := []\<rparr>) st))"

definition OClient_SendReady :: "archive \<Rightarrow> addr \<Rightarrow> OClient \<Rightarrow> OClient" where
  "OClient_SendReady A a st =
     (let st1 = oc_session a (\<lambda>s. s\<lparr>o_buffWrite := SerializeToBuffer A OClient_ready_event (o_buffWrite s)\<rparr>) st
      in oc_start (CP_SendReady a (o_buffWrite (oc_heap st1 a))) st1)"

definition OClient_HandleSendReady :: "addr \<Rightarrow> error_code \<Rightarrow> OClient \<Rightarrow> OClient" where
  "OClient_HandleSendReady a ec st =
     (if failed ec then oc_fail a st
      else oc_post (CT_ReceiveReady a) (oc_session a (\<lambda>s. s\<lparr>o_buffWrite := []\<rparr>) st))"

definition OClient_ReceiveReady :: "addr \<Rightarrow> OClient \<Rightarrow> OClient" where
  "OClient_ReceiveReady a st = oc_start (CP_ReceiveReady a) st"

definition OClient_HandleReceiveReady :: "archive \<Rightarrow> addr \<Rightarrow> error_code \<Rightarrow> nat \<Rightarrow> OClient \<Rightarrow> OClient" where
  "OClient_HandleReceiveReady A a ec bytes st =
     (if failed ec then oc_fail a st
      else case DeserializeFromBuffer A (o_buffWrite (oc_heap st a)) bytes of
        Inl _ \<Rightarrow> oc_fail a st
      | Inr event \<Rightarrow>
          (let st1 = oc_session a (\<lambda>s. s\<lparr>o_buffWrite := []\<rparr>) st
           in case Event_greeting event of
                Inl _ \<Rightarrow> oc_fail a st1
              | Inr greeting \<Rightarrow>
                  (case Greeting_ready greeting of
                     Inr True \<Rightarrow>
                       oc_emit (Op_OnReady (o_id (oc_heap st1 a)))
                         (oc_post (CT_Receive a) (oc_session a (OSession_SetReady True) st1))
                   | _ \<Rightarrow> oc_fail a st1)))"

section \<open>Receiving\<close>

definition OClient_Receive :: "addr \<Rightarrow> OClient \<Rightarrow> OClient" where
  "OClient_Receive a st = oc_start (CP_Receive a) st"

definition OClient_HandleReceive :: "addr \<Rightarrow> error_code \<Rightarrow> nat \<Rightarrow> OClient \<Rightarrow> OClient" where
  "OClient_HandleReceive a ec bytes st =
     (if failed ec then oc_fail a st
      else oc_post (CT_Receive a)
        (oc_emit (Op_OnReceive (BufferToSteam (o_buffRead (oc_heap st a)) bytes) (o_id (oc_heap st a)))
          (oc_session a (\<lambda>s. s\<lparr>o_buffRead := drop bytes (o_buffRead s)\<rparr>) st)))"

section \<open>Sending\<close>

text \<open>\<open>Send\<close> appends the delimiter to the data object of the caller: the second result.\<close>

definition OClient_Send :: "uuid \<Rightarrow> byte list \<Rightarrow> OClient \<Rightarrow> OClient \<times> byte list" where
  "OClient_Send sessionId dat st =
     (case ClientMgr_Find sessionId (oc_mgr st) of
        Inl _ \<Rightarrow> (st, dat)
      | Inr a \<Rightarrow>
          (if \<not> o_isReady (oc_heap st a) then (st, dat)
           else
             (let dat' = dat @ op_delimiter;
                  st' = st\<lparr>oc_sendQueue := oc_sendQueue st @ [(sessionId, dat')]\<rparr>
              in if length (oc_sendQueue st') > 1 then (st', dat')
                 else (oc_post (CT_DoSend a dat') st', dat'))))"

definition OClient_DoSend :: "addr \<Rightarrow> byte list \<Rightarrow> OClient \<Rightarrow> OClient" where
  "OClient_DoSend a dat st = oc_start (CP_Write a dat) st"

fun OClient_next :: "ClientMgr \<Rightarrow> oc_entry list \<Rightarrow> addr option \<times> oc_entry list" where
  "OClient_next m [] = (None, [])"
| "OClient_next m (e # r) =
     (case ClientMgr_Find (fst e) m of
        Inr a \<Rightarrow> (Some a, e # r)
      | Inl _ \<Rightarrow> if r = [] then (None, []) else OClient_next m r)"

definition OClient_HandleDoSend :: "error_code \<Rightarrow> OClient \<Rightarrow> OClient" where
  "OClient_HandleDoSend ec st =
     (case tl (oc_sendQueue st) of
        [] \<Rightarrow> st\<lparr>oc_sendQueue := []\<rparr>
      | q \<Rightarrow>
          (case OClient_next (oc_mgr st) q of
             (None, q') \<Rightarrow> st\<lparr>oc_sendQueue := q'\<rparr>
           | (Some a, q') \<Rightarrow> oc_post (CT_DoSend a (snd (hd q'))) (st\<lparr>oc_sendQueue := q'\<rparr>)))"

section \<open>The machine\<close>

datatype oc_event =
    OE_Connect uuid "nat \<times> nat"
  | OE_Disconnect
  | OE_Send uuid "byte list"
  | OE_Run nat
  | OE_Resolved nat error_code endpoint
  | OE_Connected nat error_code
  | OE_Read nat error_code "byte list"
  | OE_Written nat error_code

definition oc_run_task :: "archive \<Rightarrow> oc_task \<Rightarrow> OClient \<Rightarrow> OClient" where
  "oc_run_task A t st =
     (case t of
        CT_DoConnect a ep \<Rightarrow> OClient_DoConnect a ep st
      | CT_DoSend a dat \<Rightarrow> OClient_DoSend a dat st
      | CT_Login a \<Rightarrow> OClient_Login A a st
      | CT_SendReady a \<Rightarrow> OClient_SendReady A a st
      | CT_ReceiveReady a \<Rightarrow> OClient_ReceiveReady a st
      | CT_Receive a \<Rightarrow> OClient_Receive a st)"

definition oc_drop :: "nat \<Rightarrow> OClient \<Rightarrow> OClient" where
  "oc_drop i st = st\<lparr>oc_pending := remove_at i (oc_pending st)\<rparr>"

definition oc_log :: "addr \<Rightarrow> byte list \<Rightarrow> error_code \<Rightarrow> OClient \<Rightarrow> OClient" where
  "oc_log a bs ec st = (if failed ec then st else st\<lparr>oc_wire := oc_wire st @ [(a, bs)]\<rparr>)"

definition oc_read_ready :: "archive \<Rightarrow> nat \<Rightarrow> addr \<Rightarrow> error_code \<Rightarrow> byte list \<Rightarrow> OClient \<Rightarrow> OClient" where
  "oc_read_ready A i a ec bs st =
     (if failed ec then OClient_HandleReceiveReady A a ec 0 (oc_drop i st)
      else if \<not> o_open (oc_heap st a) then st
      else
        (let st1 = oc_session a (\<lambda>s. s\<lparr>o_buffWrite := o_buffWrite s @ bs\<rparr>) st
         in case read_until op_delimiter (o_buffWrite (oc_heap st1 a)) of
              None \<Rightarrow> st1
            | Some n \<Rightarrow> OClient_HandleReceiveReady A a ec_ok n (oc_drop i st1)))"

definition oc_read_data :: "nat \<Rightarrow> addr \<Rightarrow> error_code \<Rightarrow> byte list \<Rightarrow> OClient \<Rightarrow> OClient" where
  "oc_read_data i a ec bs st =
     (if failed ec then OClient_HandleReceive a ec 0 (oc_drop i st)
      else if \<not> o_open (oc_heap st a) then st
      else
        (let st1 = oc_session a (\<lambda>s. s\<lparr>o_buffRead := o_buffRead s @ bs\<rparr>) st
         in case read_until op_delimiter (o_buffRead (oc_heap st1 a)) of
              None \<Rightarrow> st1
            | Some n \<Rightarrow> OClient_HandleReceive a ec_ok n (oc_drop i st1)))"

definition oc_complete :: "archive \<Rightarrow> nat \<Rightarrow> oc_event \<Rightarrow> OClient \<Rightarrow> OClient" where
  "oc_complete A i e st =
     (case (e, oc_pending st ! i) of
        (OE_Resolved _ ec ep, CP_Resolve a) \<Rightarrow> OClient_HandleResolve a ec ep (oc_drop i st)
      | (OE_Connected _ ec, CP_Connect a ep) \<Rightarrow>
          (if failed ec \<or> o_open (oc_heap st a) then OClient_HandleConnect a ec (oc_drop i st) else st)
      | (OE_Read _ ec bs, CP_ReceiveReady a) \<Rightarrow> oc_read_ready A i a ec bs st
      | (OE_Read _ ec bs, CP_Receive a) \<Rightarrow> oc_read_data i a ec bs st
      | (OE_Written _ ec, CP_Login a bs) \<Rightarrow>
          (if failed ec \<or> o_open (oc_heap st a)
           then OClient_HandleLogin a ec (oc_log a bs ec (oc_drop i st)) else st)
      | (OE_Written _ ec, CP_SendReady a bs) \<Rightarrow>
          (if failed ec \<or> o_open (oc_heap st a)
           then OClient_HandleSendReady a ec (oc_log a bs ec (oc_drop i st)) else st)
      | (OE_Written _ ec, CP_Write a bs) \<Rightarrow>
          (if failed ec \<or> o_open (oc_heap st a)
           then OClient_HandleDoSend ec (oc_log a bs ec (oc_drop i st)) else st)
      | _ \<Rightarrow> st)"

fun oc_step :: "archive \<Rightarrow> oc_event \<Rightarrow> OClient \<Rightarrow> OClient" where
  "oc_step A (OE_Connect i raw) st = OClient_Connect raw i st"
| "oc_step A OE_Disconnect st = OClient_Disconnect st"
| "oc_step A (OE_Send i dat) st = fst (OClient_Send i dat st)"
| "oc_step A (OE_Run i) st =
     (if isRunning (oc_core st) \<and> i < length (oc_posted st)
      then oc_run_task A (oc_posted st ! i) (st\<lparr>oc_posted := remove_at i (oc_posted st)\<rparr>) else st)"
| "oc_step A (OE_Resolved i ec ep) st =
     (if isRunning (oc_core st) \<and> i < length (oc_pending st) then oc_complete A i (OE_Resolved i ec ep) st else st)"
| "oc_step A (OE_Connected i ec) st =
     (if isRunning (oc_core st) \<and> i < length (oc_pending st) then oc_complete A i (OE_Connected i ec) st else st)"
| "oc_step A (OE_Read i ec bs) st =
     (if isRunning (oc_core st) \<and> i < length (oc_pending st) then oc_complete A i (OE_Read i ec bs) st else st)"
| "oc_step A (OE_Written i ec) st =
     (if isRunning (oc_core st) \<and> i < length (oc_pending st) then oc_complete A i (OE_Written i ec) st else st)"

definition oc_steps :: "archive \<Rightarrow> oc_event list \<Rightarrow> OClient \<Rightarrow> OClient" where
  "oc_steps A es st = fold (oc_step A) es st"

inductive oc_reachable :: "archive \<Rightarrow> OClient \<Rightarrow> bool" for A where
  start: "oc_reachable A (OClient_Construct t i)"
| step: "oc_reachable A st \<Longrightarrow> oc_reachable A (oc_step A e st)"

end
