(* ===== verification/Op_Client_Props.thy ===== *)
theory Op_Client_Props
  imports Op_Client
begin

text \<open>
  Lemmas about the \<open>openproxy\<close> client: the frames of its helpers, the loop over the queue and
  the interpretation of the queue contract, in which only entries of ready sessions are
  admitted, and the invariant that at most one write of the queue is in flight.
\<close>

section \<open>Frames\<close>

lemma oc_session_sel [simp]:
  "oc_heap (oc_session a f st) = (oc_heap st)(a := f (oc_heap st a))"
  "oc_fresh (oc_session a f st) = oc_fresh st" "oc_clientId (oc_session a f st) = oc_clientId st"
  "oc_mgr (oc_session a f st) = oc_mgr st" "oc_sendQueue (oc_session a f st) = oc_sendQueue st"
  "oc_type (oc_session a f st) = oc_type st" "oc_posted (oc_session a f st) = oc_posted st"
  "oc_pending (oc_session a f st) = oc_pending st" "oc_signals (oc_session a f st) = oc_signals st"
  "oc_wire (oc_session a f st) = oc_wire st" "oc_core (oc_session a f st) = oc_core st"
  by (simp_all add: oc_session_def)

lemma oc_post_sel [simp]:
  "oc_heap (oc_post t st) = oc_heap st" "oc_fresh (oc_post t st) = oc_fresh st"
  "oc_clientId (oc_post t st) = oc_clientId st" "oc_mgr (oc_post t st) = oc_mgr st"
  "oc_sendQueue (oc_post t st) = oc_sendQueue st" "oc_type (oc_post t st) = oc_type st"
  "oc_posted (oc_post t st) = oc_posted st @ [t]" "oc_pending (oc_post t st) = oc_pending st"
  "oc_signals (oc_post t st) = oc_signals st" "oc_wire (oc_post t st) = oc_wire st"
  "oc_core (oc_post t st) = oc_core st"
  by (simp_all add: oc_post_def)

lemma oc_start_sel [simp]:
  "oc_heap (oc_start x st) = oc_heap st" "oc_fresh (oc_start x st) = oc_fresh st"
  "oc_clientId (oc_start x st) = oc_clientId st" "oc_mgr (oc_start x st) = oc_mgr st"
  "oc_sendQueue (oc_start x st) = oc_sendQueue st" "oc_type (oc_start x st) = oc_type st"
  "oc_posted (oc_start x st) = oc_posted st" "oc_pending (oc_start x st) = oc_pending st @ [x]"
  "oc_signals (oc_start x st) = oc_signals st" "oc_wire (oc_start x st) = oc_wire st"
  "oc_core (oc_start x st) = oc_core st"
  by (simp_all add: oc_start_def)

lemma oc_emit_sel [simp]:
  "oc_heap (oc_emit x st) = oc_heap st" "oc_fresh (oc_emit x st) = oc_fresh st"
  "oc_clientId (oc_emit x st) = oc_clientId st" "oc_mgr (oc_emit x st) = oc_mgr st"
  "oc_sendQueue (oc_emit x st) = oc_sendQueue st" "oc_type (oc_emit x st) = oc_type st"
  "oc_posted (oc_emit x st) = oc_posted st" "oc_pending (oc_emit x st) = oc_pending st"
  "oc_signals (oc_emit x st) = oc_signals st @ [x]" "oc_wire (oc_emit x st) = oc_wire st"
  "oc_core (oc_emit x st) = oc_core st"
  by (simp_all add: oc_emit_def)

lemma oc_drop_sel [simp]:
  "oc_heap (oc_drop i st) = oc_heap st" "oc_mgr (oc_drop i st) = oc_mgr st"
  "oc_sendQueue (oc_drop i st) = oc_sendQueue st" "oc_posted (oc_drop i st) = oc_posted st"
  "oc_pending (oc_drop i st) = remove_at i (oc_pending st)" "oc_signals (oc_drop i st) = oc_signals st"
  "oc_core (oc_drop i st) = oc_core st"
  by (simp_all add: oc_drop_def)

lemma oc_log_sel [simp]:
  "oc_heap (oc_log a bs ec st) = oc_heap st" "oc_mgr (oc_log a bs ec st) = oc_mgr st"
  "oc_sendQueue (oc_log a bs ec st) = oc_sendQueue st" "oc_posted (oc_log a bs ec st) = oc_posted st"
  "oc_pending (oc_log a bs ec st) = oc_pending st" "oc_signals (oc_log a bs ec st) = oc_signals st"
  "oc_core (oc_log a bs ec st) = oc_core st"
  by (simp_all add: oc_log_def)

section \<open>The queue\<close>

definition oc_live :: "OClient \<Rightarrow> oc_entry \<Rightarrow> bool" where
  "oc_live st e \<longleftrightarrow> map_of (oc_mgr st) (fst e) \<noteq> None"

definition oc_admit :: "OClient \<Rightarrow> oc_entry \<Rightarrow> bool" where
  "oc_admit st e \<longleftrightarrow> (case map_of (oc_mgr st) (fst e) of None \<Rightarrow> False | Some a \<Rightarrow> o_isReady (oc_heap st a))"

definition oc_enqueue :: "oc_entry \<Rightarrow> OClient \<Rightarrow> OClient" where
  "oc_enqueue e st =
     (case map_of (oc_mgr st) (fst e) of
        None \<Rightarrow> st
      | Some a \<Rightarrow>
          if \<not> o_isReady (oc_heap st a) then st
          else (if oc_sendQueue st = [] then oc_post (CT_DoSend a (snd e)) else id)
            (st\<lparr>oc_sendQueue := oc_sendQueue st @ [e]\<rparr>))"

lemma OClient_Send_enqueue: "fst (OClient_Send i dat st) = oc_enqueue (i, dat @ op_delimiter) st"
  by (auto simp: OClient_Send_def oc_enqueue_def ClientMgr_Find_def Let_def split: option.splits)

fun oc_task_out :: "oc_task \<Rightarrow> byte list list" where
  "oc_task_out (CT_DoSend a m) = [m]"
| "oc_task_out _ = []"

fun oc_op_out :: "oc_op \<Rightarrow> byte list list" where
  "oc_op_out (CP_Write a m) = [m]"
| "oc_op_out _ = []"

definition oc_inflight :: "OClient \<Rightarrow> byte list list" where
  "oc_inflight st = concat (map oc_op_out (oc_pending st)) @ concat (map oc_task_out (oc_posted st))"

definition oc_one_write :: "OClient \<Rightarrow> bool" where
  "oc_one_write st \<longleftrightarrow> oc_inflight st = map snd (take 1 (oc_sendQueue st))"

definition oc_finish :: "OClient \<Rightarrow> OClient option" where
  "oc_finish st =
     Some (OClient_HandleDoSend ec_ok
       (st\<lparr>oc_posted := filter (\<lambda>t. oc_task_out t = []) (oc_posted st),
           oc_pending := filter (\<lambda>x. oc_op_out x = []) (oc_pending st)\<rparr>))"

lemma oc_live_cong: "oc_mgr t = oc_mgr st \<Longrightarrow> oc_live t = oc_live st"
  by (simp add: oc_live_def fun_eq_iff)

lemma oc_admit_cong: "oc_mgr t = oc_mgr st \<Longrightarrow> oc_heap t = oc_heap st \<Longrightarrow> oc_admit t = oc_admit st"
  by (rule ext) (simp add: oc_admit_def split: option.split)

lemma OClient_next_eq:
  "snd (OClient_next m q) = dropWhile (\<lambda>e. map_of m (fst e) = None) q \<and>
   (case fst (OClient_next m q) of
      None \<Rightarrow> snd (OClient_next m q) = []
    | Some a \<Rightarrow> snd (OClient_next m q) \<noteq> [] \<and> map_of m (fst (hd (snd (OClient_next m q)))) = Some a)"
proof (induction q)
  case (Cons e r)
  show ?case
  proof (cases "map_of m (fst e)")
    case None
    then have eq: "OClient_next m (e # r) = OClient_next m r"
      by (cases r) (simp_all add: ClientMgr_Find_def)
    show ?thesis unfolding eq using None Cons by simp
  next
    case (Some a)
    then show ?thesis by (simp add: ClientMgr_Find_def)
  qed
qed simp

lemma OClient_HandleDoSend_frame [simp]:
  "oc_mgr (OClient_HandleDoSend ec st) = oc_mgr st" "oc_heap (OClient_HandleDoSend ec st) = oc_heap st"
  "oc_pending (OClient_HandleDoSend ec st) = oc_pending st" "oc_core (OClient_HandleDoSend ec st) = oc_core st"
  by (simp_all add: OClient_HandleDoSend_def split: list.splits prod.splits option.splits)

lemma OClient_HandleDoSend_idle:
  assumes "oc_inflight st = []" and t_def: "t = OClient_HandleDoSend ec st"
  shows "oc_sendQueue t = dropWhile (\<lambda>e. \<not> oc_live st e) (tl (oc_sendQueue st)) \<and>
    oc_inflight t = map snd (take 1 (oc_sendQueue t))"
proof (cases "tl (oc_sendQueue st)")
  case Nil
  with assms show ?thesis by (simp add: OClient_HandleDoSend_def oc_inflight_def)
next
  case (Cons e r)
  obtain x q' where n: "OClient_next (oc_mgr st) (e # r) = (x, q')" by (cases "OClient_next (oc_mgr st) (e # r)")
  have drop: "q' = dropWhile (\<lambda>e. \<not> oc_live st e) (e # r)"
    using OClient_next_eq [of "oc_mgr st" "e # r"] n by (simp add: oc_live_def)
  note next_case = conjunct2 [OF OClient_next_eq [of "oc_mgr st" "e # r"], unfolded n]
  show ?thesis
  proof (cases x)
    case None
    with n have "t = st\<lparr>oc_sendQueue := q'\<rparr>" by (simp add: t_def OClient_HandleDoSend_def Cons)
    with next_case None assms(1) drop Cons show ?thesis by (simp add: oc_inflight_def)
  next
    case (Some a)
    with n have t: "t = oc_post (CT_DoSend a (snd (hd q'))) (st\<lparr>oc_sendQueue := q'\<rparr>)"
      by (simp add: t_def OClient_HandleDoSend_def Cons)
    have "q' \<noteq> []" using next_case Some by (simp del: OClient_next.simps)
    then have "oc_inflight t = map snd (take 1 q')"
      using assms(1) t by (cases q') (simp_all add: oc_inflight_def)
    then show ?thesis using t drop Cons by simp
  qed
qed

interpretation oc_queue: guarded_queue oc_sendQueue oc_inflight snd oc_live oc_admit oc_enqueue oc_finish
proof (unfold_locales, goal_cases)
  case (1 s m)
  then show ?case by (simp add: oc_admit_def oc_live_def split: option.splits)
next
  case (2 s m)
  then show ?case by (auto simp: oc_inflight_def oc_enqueue_def oc_admit_def split: option.splits)
next
  case (3 s m)
  then show ?case by (auto simp: oc_enqueue_def oc_admit_def split: option.splits)
next
  case (4 m s)
  have "oc_mgr (oc_enqueue m s) = oc_mgr s \<and> oc_heap (oc_enqueue m s) = oc_heap s"
    by (simp add: oc_enqueue_def split: option.splits)
  then show ?case using oc_live_cong oc_admit_cong by blast
next
  case (5 s m q d t)
  let ?s = "s\<lparr>oc_posted := filter (\<lambda>t. oc_task_out t = []) (oc_posted s),
              oc_pending := filter (\<lambda>x. oc_op_out x = []) (oc_pending s)\<rparr>"
  have idle: "oc_inflight ?s = []" by (simp add: oc_inflight_def)
  have live: "oc_live ?s = oc_live s" by (rule oc_live_cong) simp
  from 5(3) have t: "t = OClient_HandleDoSend ec_ok ?s" by (simp add: oc_finish_def)
  have "oc_live t = oc_live s" "oc_admit t = oc_admit s"
    by (rule oc_live_cong oc_admit_cong; simp add: t)+
  with OClient_HandleDoSend_idle [OF idle t] 5(1) show ?case by (simp add: live)
next
  case (6 s m q)
  show ?case by (simp add: oc_finish_def)
qed

lemma oc_one_write_iff: "oc_one_write st = oc_queue.one_write st"
  by (simp add: oc_one_write_def oc_queue.one_write_def)

section \<open>One write in flight\<close>

lemma oc_one_write_frame [simp]:
  "oc_one_write (oc_session a f st) = oc_one_write st"
  "oc_one_write (oc_emit x st) = oc_one_write st"
  "oc_task_out t = [] \<Longrightarrow> oc_one_write (oc_post t st) = oc_one_write st"
  "oc_op_out y = [] \<Longrightarrow> oc_one_write (oc_start y st) = oc_one_write st"
  "oc_one_write (st\<lparr>oc_mgr := m\<rparr>) = oc_one_write st"
  "oc_one_write (st\<lparr>oc_heap := h\<rparr>) = oc_one_write st"
  "oc_one_write (st\<lparr>oc_heap := h, oc_mgr := m\<rparr>) = oc_one_write st"
  "oc_one_write (st\<lparr>oc_heap := h, oc_fresh := n\<rparr>) = oc_one_write st"
  "oc_one_write (oc_log a bs ec st) = oc_one_write st"
  "oc_one_write (oc_remove i st) = oc_one_write st"
  "oc_one_write (oc_fail a st) = oc_one_write st"
  by (simp_all add: oc_one_write_def oc_inflight_def oc_remove_def oc_fail_def Let_def)

lemma oc_one_write_drop [simp]:
  "i < length (oc_pending st) \<Longrightarrow> oc_op_out (oc_pending st ! i) = [] \<Longrightarrow> oc_one_write (oc_drop i st) = oc_one_write st"
  by (simp add: oc_one_write_def oc_inflight_def oc_drop_def concat_map_remove_at)

lemma oc_one_write_handlers [simp]:
  "oc_one_write (OClient_Connect raw j st) = oc_one_write st"
  "oc_one_write (OClient_HandleResolve a ec ep st) = oc_one_write st"
  "oc_one_write (OClient_DoConnect a ep st) = oc_one_write st"
  "oc_one_write (OClient_HandleConnect a ec st) = oc_one_write st"
  "oc_one_write (OClient_Disconnect st) = oc_one_write st"
  "oc_one_write (OClient_Login A a st) = oc_one_write st"
  "oc_one_write (OClient_HandleLogin a ec st) = oc_one_write st"
  "oc_one_write (OClient_SendReady A a st) = oc_one_write st"
  "oc_one_write (OClient_HandleSendReady a ec st) = oc_one_write st"
  "oc_one_write (OClient_ReceiveReady a st) = oc_one_write st"
  "oc_one_write (OClient_HandleReceiveReady A a ec n st) = oc_one_write st"
  "oc_one_write (OClient_Receive a st) = oc_one_write st"
  "oc_one_write (OClient_HandleReceive a ec n st) = oc_one_write st"
  by (simp_all add: OClient_Connect_def OClient_HandleResolve_def OClient_DoConnect_def OClient_HandleConnect_def
      OClient_Disconnect_def OClient_Login_def OClient_HandleLogin_def OClient_SendReady_def
      OClient_HandleSendReady_def OClient_ReceiveReady_def OClient_HandleReceiveReady_def OClient_Receive_def
      OClient_HandleReceive_def Let_def split: sum.splits bool.splits)

lemma oc_written_idle:
  assumes "oc_one_write st" and i: "i < length (oc_pending st)" and w: "oc_pending st ! i = CP_Write a m"
  obtains e q where "oc_sendQueue st = e # q" "m = snd e" "oc_inflight (oc_log a m ec (oc_drop i st)) = []"
proof -
  have "oc_sendQueue st \<noteq> []"
  proof
    assume "oc_sendQueue st = []"
    with assms(1) have "concat (map oc_op_out (oc_pending st)) = []" by (simp add: oc_one_write_def oc_inflight_def)
    moreover have "oc_pending st ! i \<in> set (oc_pending st)" using i by simp
    ultimately show False using w by (auto simp: concat_eq_Nil_conv)
  qed
  then obtain e q where q: "oc_sendQueue st = e # q" by (cases "oc_sendQueue st") auto
  have "m \<in> set (oc_inflight st)" using i w nth_mem [OF i] by (force simp: oc_inflight_def)
  with assms(1) q have m: "m = snd e" by (simp add: oc_one_write_def)
  have "oc_inflight (oc_log a m ec (oc_drop i st)) = []"
    using concat_map_drop_one [of i "oc_pending st" oc_op_out m "concat (map oc_task_out (oc_posted st))" "snd e"]
      assms(1) i w q by (simp add: oc_one_write_def oc_inflight_def oc_log_def oc_drop_def)
  from that [OF q m this] show thesis .
qed

lemma oc_one_write_Written:
  assumes "oc_one_write st" and "i < length (oc_pending st)" and "oc_pending st ! i = CP_Write a m"
  shows "oc_one_write (OClient_HandleDoSend ec (oc_log a m ec (oc_drop i st)))"
  using oc_written_idle [OF assms, of ec] OClient_HandleDoSend_idle [OF _ refl]
  by (metis oc_one_write_def)

lemma oc_one_write_run_task:
  assumes inv: "oc_one_write st" and i: "i < length (oc_posted st)"
  shows "oc_one_write (oc_run_task A (oc_posted st ! i) (st\<lparr>oc_posted := remove_at i (oc_posted st)\<rparr>))"
proof (cases "oc_task_out (oc_posted st ! i) = []")
  case True
  then have "oc_one_write (st\<lparr>oc_posted := remove_at i (oc_posted st)\<rparr>)"
    using inv i by (simp add: oc_one_write_def oc_inflight_def concat_map_remove_at)
  with True show ?thesis by (cases "oc_posted st ! i") (simp_all add: oc_run_task_def)
next
  case False
  then obtain a m where t: "oc_posted st ! i = CT_DoSend a m" by (cases "oc_posted st ! i") simp_all
  have sp: "concat (map oc_task_out (oc_posted st)) =
      concat (map oc_task_out (take i (oc_posted st))) @ [m] @ concat (map oc_task_out (drop (Suc i) (oc_posted st)))"
    using arg_cong [OF split_nth [OF i], of "\<lambda>l. concat (map oc_task_out l)"] t by simp
  obtain e where e: "map snd (take 1 (oc_sendQueue st)) = [e]"
    using inv sp by (cases "oc_sendQueue st") (auto simp: oc_one_write_def oc_inflight_def)
  with inv sp have "concat (map oc_op_out (oc_pending st)) = []" "concat (map oc_task_out (take i (oc_posted st))) = []"
    "concat (map oc_task_out (drop (Suc i) (oc_posted st))) = []" "m = e"
    by (auto simp: oc_one_write_def oc_inflight_def append_eq_Cons_conv)
  with e t show ?thesis
    by (simp add: oc_run_task_def OClient_DoSend_def oc_one_write_def oc_inflight_def remove_at_def del: concat_eq_Nil_conv)
qed

lemma oc_one_write_read:
  assumes "oc_one_write st" and "i < length (oc_pending st)"
  shows "oc_pending st ! i = CP_ReceiveReady a \<Longrightarrow> oc_one_write (oc_read_ready A i a ec bs st)"
    and "oc_pending st ! i = CP_Receive a \<Longrightarrow> oc_one_write (oc_read_data i a ec bs st)"
  using assms by (simp_all add: oc_read_ready_def oc_read_data_def Let_def split: option.splits)

lemma oc_one_write_complete:
  assumes "oc_one_write st" and "i < length (oc_pending st)"
  shows "oc_one_write (oc_complete A i e st)"
  using assms
  by (cases e; cases "oc_pending st ! i")
    (simp_all add: oc_complete_def oc_one_write_read oc_one_write_Written)

lemma oc_one_write_step:
  assumes "oc_one_write st"
  shows "oc_one_write (oc_step A e st)"
proof (cases e)
  case (OE_Send j dat)
  with assms show ?thesis by (simp add: OClient_Send_enqueue oc_one_write_iff oc_queue.one_write_enqueue)
qed (use assms in \<open>simp_all add: oc_one_write_complete oc_one_write_run_task\<close>)

lemma oc_reachable_one_write: "oc_reachable A st \<Longrightarrow> oc_one_write st"
  by (induction rule: oc_reachable.induct)
    (simp_all add: oc_one_write_step, simp add: oc_one_write_def oc_inflight_def OClient_Construct_def)

end
