(* ===== verification/Op_Proxy.thy ===== *)
theory Op_Proxy
  imports Op_Session Nat_Core
begin

text \<open>
  \<open>openproxy/src/Proxy.cpp\<close>, handler by handler. The state holds the sessions, the pairs, what
  is posted to the strand and what is pending; \<open>px_step\<close> runs one posted function or completes
  one pending operation. The core is that of \<open>opennat\<close>, whose \<open>Core.cpp\<close> has the same body.
  A null session that is dereferenced is \<open>Crash\<close>.
\<close>

section \<open>State\<close>

datatype px_task = PT_Initialize addr | PT_Receive addr

text \<open>A write holds its target, the session whose buffer it sends from, and the bytes.\<close>

datatype px_op =
    PO_Accept addr
  | PO_Initialize addr
  | PO_Receive addr
  | PO_Send addr addr "byte list"
  | PO_SendReady addr addr "byte list"

record OProxy =
  px_heap :: oheap
  px_fresh :: addr
  px_mgr :: OProxyMgr
  px_posted :: "px_task list"
  px_pending :: "px_op list"
  px_acceptor :: bool
  px_wire :: "(addr \<times> byte list) list"
  px_core :: Core

definition Proxy_Construct :: OProxy where
  "Proxy_Construct = \<lparr>px_heap = (\<lambda>_. OSession_Construct 0 0), px_fresh = 0, px_mgr = [], px_posted = [],
     px_pending = [], px_acceptor = False, px_wire = [], px_core = Core_Run (Core_Construct 30)\<rparr>"

definition px_session :: "addr \<Rightarrow> (OSession \<Rightarrow> OSession) \<Rightarrow> OProxy \<Rightarrow> OProxy" where
  "px_session a f st = st\<lparr>px_heap := (px_heap st)(a := f (px_heap st a))\<rparr>"

definition px_post :: "px_task \<Rightarrow> OProxy \<Rightarrow> OProxy" where
  "px_post t st = st\<lparr>px_posted := px_posted st @ [t]\<rparr>"

definition px_start :: "px_op \<Rightarrow> OProxy \<Rightarrow> OProxy" where
  "px_start x st = st\<lparr>px_pending := px_pending st @ [x]\<rparr>"

definition px_remove :: "uuid \<Rightarrow> OProxy \<Rightarrow> OProxy" where
  "px_remove i st =
     (let r = OProxyMgr_RemoveSession i (px_heap st, px_mgr st) in st\<lparr>px_heap := fst r, px_mgr := snd r\<rparr>)"

section \<open>Accepting\<close>

text \<open>\<open>raw\<close> are the uninitialised counters of the new session.\<close>

definition Proxy_Accept :: "nat \<times> nat \<Rightarrow> OProxy \<Rightarrow> OProxy" where
  "Proxy_Accept raw st =
     px_start (PO_Accept (px_fresh st))
       (st\<lparr>px_heap := (px_heap st)(px_fresh st := OSession_Construct (fst raw) (snd raw)),
           px_fresh := Suc (px_fresh st)\<rparr>)"

text \<open>\<open>remote\<close> tells whether the query of the remote endpoint succeeds.\<close>

definition Proxy_HandleAccept :: "addr \<Rightarrow> error_code \<Rightarrow> bool \<Rightarrow> nat \<times> nat \<Rightarrow> OProxy \<Rightarrow> OProxy" where
  "Proxy_HandleAccept a ec remote raw st =
     Proxy_Accept raw
       (if failed ec then st
        else
          (let st1 = px_session a (\<lambda>s. s\<lparr>o_open := True\<rparr>) st
           in if remote then px_post (PT_Initialize a) st1 else st1))"

datatype start_result = Open_fails | Bind_fails | Listens

definition Proxy_Start :: "start_result \<Rightarrow> nat \<times> nat \<Rightarrow> OProxy \<Rightarrow> OProxy" where
  "Proxy_Start r raw st =
     (if px_acceptor st then st
      else case r of
        Open_fails \<Rightarrow> st
      | Bind_fails \<Rightarrow> st\<lparr>px_acceptor := True\<rparr>
      | Listens \<Rightarrow> Proxy_Accept raw (st\<lparr>px_acceptor := True\<rparr>))"

definition Proxy_Stop :: "OProxy \<Rightarrow> OProxy" where
  "Proxy_Stop st = st\<lparr>px_core := Core_Stop (px_core st)\<rparr>"

section \<open>Relaying\<close>

text \<open>
  The bytes are those of the buffer when the write starts: \<open>transfer_exactly\<close> sends at most
  the buffer, and at most its argument.
\<close>

definition Proxy_Send :: "addr option \<Rightarrow> addr \<Rightarrow> OProxy \<Rightarrow> OProxy run" where
  "Proxy_Send dest src st =
     (case dest of
        None \<Rightarrow> Crash
      | Some t \<Rightarrow> Done (px_start (PO_Send t src
          (take (o_bytesRead (px_heap st src)) (o_buffRead (px_heap st src)))) st))"

definition Proxy_Receive :: "addr \<Rightarrow> OProxy \<Rightarrow> OProxy" where
  "Proxy_Receive a st = px_start (PO_Receive a) st"

definition Proxy_HandleReceive :: "addr \<Rightarrow> error_code \<Rightarrow> nat \<Rightarrow> OProxy \<Rightarrow> OProxy run" where
  "Proxy_HandleReceive a ec bytes st =
     (if failed ec then Done (px_remove (o_id (px_heap st a)) st)
      else case OProxyMgr_FindPair (o_id (px_heap st a)) (px_mgr st) of
        Inl _ \<Rightarrow> Done (px_remove (o_id (px_heap st a)) st)
      | Inr p \<Rightarrow>
          (case o_type (px_heap st a) of
             DOWNSREAM \<Rightarrow> Proxy_Send (pair_up p) a (px_session a (OSession_SetBytesReadBuff bytes) st)
           | UPSTREAM \<Rightarrow> Proxy_Send (pair_down p) a (px_session a (OSession_SetBytesReadBuff bytes) st)
           | UNKNOWN_STREAM \<Rightarrow> Done (px_remove (o_id (px_heap st a)) st)))"

definition Proxy_HandleSend :: "addr \<Rightarrow> addr \<Rightarrow> error_code \<Rightarrow> nat \<Rightarrow> OProxy \<Rightarrow> OProxy" where
  "Proxy_HandleSend dest src ec bytes st =
     (if failed ec then px_remove (o_id (px_heap st dest)) st
      else Proxy_Receive src
        (px_session src (\<lambda>s. s\<lparr>o_buffRead := drop bytes (o_buffRead s)\<rparr>) st))"

section \<open>Initialization\<close>

definition Proxy_SendReady :: "addr option \<Rightarrow> addr option \<Rightarrow> OProxy \<Rightarrow> OProxy run" where
  "Proxy_SendReady dest src st =
     (case (dest, src) of
        (Some t, Some f) \<Rightarrow> Done (px_start (PO_SendReady t f
          (take (o_bytesWrite (px_heap st f)) (o_buffWrite (px_heap st f)))) st)
      | _ \<Rightarrow> Crash)"

definition Proxy_HandleSendReady :: "addr \<Rightarrow> addr \<Rightarrow> error_code \<Rightarrow> OProxy \<Rightarrow> OProxy" where
  "Proxy_HandleSendReady dest src ec st =
     (if failed ec then px_remove (o_id (px_heap st dest)) st
      else px_session dest (OSession_SetReady True)
        (px_session src (\<lambda>s. s\<lparr>o_buffWrite := []\<rparr>) st))"

definition Proxy_Initialize :: "addr \<Rightarrow> OProxy \<Rightarrow> OProxy" where
  "Proxy_Initialize a st = px_start (PO_Initialize a) st"

text \<open>A login request: the ids are set before the registration, which may throw.\<close>

definition Proxy_Login :: "addr \<Rightarrow> nat \<Rightarrow> Login \<Rightarrow> OProxy \<Rightarrow> OProxy \<times> (exn + unit)" where
  "Proxy_Login a bytes l st =
     (let st1 = px_session a (\<lambda>s. s\<lparr>o_buffWrite := drop bytes (o_buffWrite s)\<rparr>) st
      in case (Login_client_id l, Login_session_id l, Login_type l) of
           (Inr c, Inr i, Inr t) \<Rightarrow>
             (let st2 = px_session a (OSession_SetType t \<circ> OSession_SetId i \<circ> OSession_SetClientId c) st1
              in case OProxyMgr_AddSession (px_heap st2) a (px_mgr st2) of
                   Inl e \<Rightarrow> (st2, Inl e)
                 | Inr m \<Rightarrow> (px_post (PT_Initialize a) (st2\<lparr>px_mgr := m\<rparr>), Inr ()))
         | _ \<Rightarrow> (st1, Inl (runtime_error ''Invalid login request'')))"

text \<open>A greeting: each side is sent the greeting of the other when both are registered.\<close>

definition Proxy_Greeting :: "addr \<Rightarrow> nat \<Rightarrow> OProxy \<Rightarrow> (OProxy \<times> (exn + unit)) run" where
  "Proxy_Greeting a bytes st =
     (let st1 = px_session a (OSession_SetBytesWriteBuff bytes) st
      in case OProxyMgr_FindPair (o_id (px_heap st1 a)) (px_mgr st1) of
           Inl e \<Rightarrow> Done (st1, Inl e)
         | Inr p \<Rightarrow>
             (let finish = (\<lambda>st. Done (px_post (PT_Receive a) st, Inr ()))
              in case o_type (px_heap st1 a) of
                   DOWNSREAM \<Rightarrow>
                     (if pair_up p = None then finish st1
                      else bind_run (Proxy_SendReady (pair_up p) (Some a) st1)
                        (\<lambda>st2. bind_run (Proxy_SendReady (pair_down p) (pair_up p) st2) finish))
                 | UPSTREAM \<Rightarrow>
                     (if pair_down p = None then finish st1
                      else bind_run (Proxy_SendReady (pair_down p) (Some a) st1)
                        (\<lambda>st2. bind_run (Proxy_SendReady (pair_up p) (pair_down p) st2) finish))
                 | UNKNOWN_STREAM \<Rightarrow> Done (st1, Inl (runtime_error ''Unknown session type''))))"

definition Proxy_InitializeCatch :: "addr \<Rightarrow> OProxy \<times> (exn + unit) \<Rightarrow> OProxy" where
  "Proxy_InitializeCatch a r =
     (case r of (st, Inl _) \<Rightarrow> px_remove (o_id (px_heap st a)) st | (st, Inr _) \<Rightarrow> st)"

definition Proxy_HandleInitialize :: "archive \<Rightarrow> addr \<Rightarrow> error_code \<Rightarrow> nat \<Rightarrow> OProxy \<Rightarrow> OProxy run" where
  "Proxy_HandleInitialize A a ec bytes st =
     bind_run
       (if failed ec then Done (st, Inl lib_error)
        else case DeserializeFromBuffer A (o_buffWrite (px_heap st a)) bytes of
          Inl e \<Rightarrow> Done (st, Inl e)
        | Inr event \<Rightarrow>
            (if ev_has_login event then Done (Proxy_Login a bytes (ev_login event) st)
             else if ev_has_greeting event then Proxy_Greeting a bytes st
             else Done (px_session a (\<lambda>s. s\<lparr>o_buffWrite := drop bytes (o_buffWrite s)\<rparr>) st,
                        Inl (runtime_error ''Unknown event type''))))
       (\<lambda>r. Done (Proxy_InitializeCatch a r))"

section \<open>The machine\<close>

datatype px_event =
    PE_Run nat
  | PE_Accept nat error_code bool "nat \<times> nat"
  | PE_Read nat error_code "byte list"
  | PE_Write nat error_code

definition px_run_task :: "px_task \<Rightarrow> OProxy \<Rightarrow> OProxy" where
  "px_run_task t st = (case t of PT_Initialize a \<Rightarrow> Proxy_Initialize a st | PT_Receive a \<Rightarrow> Proxy_Receive a st)"

definition px_drop :: "nat \<Rightarrow> OProxy \<Rightarrow> OProxy" where
  "px_drop i st = st\<lparr>px_pending := remove_at i (px_pending st)\<rparr>"

text \<open>
  A read appends a chunk to the buffer of its session and completes when the delimiter is in
  it; an operation on a closed socket ends with an error only.
\<close>

definition px_read_init :: "archive \<Rightarrow> nat \<Rightarrow> addr \<Rightarrow> error_code \<Rightarrow> byte list \<Rightarrow> OProxy \<Rightarrow> OProxy run" where
  "px_read_init A i a ec bs st =
     (if failed ec then Proxy_HandleInitialize A a ec 0 (px_drop i st)
      else if \<not> o_open (px_heap st a) then Done st
      else
        (let st1 = px_session a (\<lambda>s. s\<lparr>o_buffWrite := o_buffWrite s @ bs\<rparr>) st
         in case read_until op_delimiter (o_buffWrite (px_heap st1 a)) of
              None \<Rightarrow> Done st1
            | Some n \<Rightarrow> Proxy_HandleInitialize A a ec_ok n (px_drop i st1)))"

definition px_read_data :: "nat \<Rightarrow> addr \<Rightarrow> error_code \<Rightarrow> byte list \<Rightarrow> OProxy \<Rightarrow> OProxy run" where
  "px_read_data i a ec bs st =
     (if failed ec then Proxy_HandleReceive a ec 0 (px_drop i st)
      else if \<not> o_open (px_heap st a) then Done st
      else
        (let st1 = px_session a (\<lambda>s. s\<lparr>o_buffRead := o_buffRead s @ bs\<rparr>) st
         in case read_until op_delimiter (o_buffRead (px_heap st1 a)) of
              None \<Rightarrow> Done st1
            | Some n \<Rightarrow> Proxy_HandleReceive a ec_ok n (px_drop i st1)))"

definition px_log :: "addr \<Rightarrow> byte list \<Rightarrow> error_code \<Rightarrow> OProxy \<Rightarrow> OProxy" where
  "px_log a bs ec st = (if failed ec then st else st\<lparr>px_wire := px_wire st @ [(a, bs)]\<rparr>)"

definition px_complete :: "archive \<Rightarrow> nat \<Rightarrow> px_event \<Rightarrow> OProxy \<Rightarrow> OProxy run" where
  "px_complete A i e st =
     (case (e, px_pending st ! i) of
        (PE_Accept _ ec remote raw, PO_Accept a) \<Rightarrow> Done (Proxy_HandleAccept a ec remote raw (px_drop i st))
      | (PE_Read _ ec bs, PO_Initialize a) \<Rightarrow> px_read_init A i a ec bs st
      | (PE_Read _ ec bs, PO_Receive a) \<Rightarrow> px_read_data i a ec bs st
      | (PE_Write _ ec, PO_Send t f bs) \<Rightarrow>
          Done (if failed ec \<or> o_open (px_heap st t)
            then Proxy_HandleSend t f ec (length bs) (px_log t bs ec (px_drop i st)) else st)
      | (PE_Write _ ec, PO_SendReady t f bs) \<Rightarrow>
          Done (if failed ec \<or> o_open (px_heap st t)
            then Proxy_HandleSendReady t f ec (px_log t bs ec (px_drop i st)) else st)
      | _ \<Rightarrow> Done st)"

fun px_step :: "archive \<Rightarrow> px_event \<Rightarrow> OProxy \<Rightarrow> OProxy run" where
  "px_step A (PE_Run i) st =
     (if isRunning (px_core st) \<and> i < length (px_posted st)
      then Done (px_run_task (px_posted st ! i) (st\<lparr>px_posted := remove_at i (px_posted st)\<rparr>))
      else Done st)"
| "px_step A (PE_Accept i ec remote raw) st =
     (if isRunning (px_core st) \<and> i < length (px_pending st)
      then px_complete A i (PE_Accept i ec remote raw) st else Done st)"
| "px_step A (PE_Read i ec bs) st =
     (if isRunning (px_core st) \<and> i < length (px_pending st)
      then px_complete A i (PE_Read i ec bs) st else Done st)"
| "px_step A (PE_Write i ec) st =
     (if isRunning (px_core st) \<and> i < length (px_pending st)
      then px_complete A i (PE_Write i ec) st else Done st)"

fun px_steps :: "archive \<Rightarrow> px_event list \<Rightarrow> OProxy \<Rightarrow> OProxy run" where
  "px_steps A [] st = Done st"
| "px_steps A (e # es) st = bind_run (px_step A e st) (px_steps A es)"

inductive px_reachable :: "archive \<Rightarrow> OProxy \<Rightarrow> bool" for A where
  start: "px_reachable A (Proxy_Start r raw Proxy_Construct)"
| step: "px_reachable A st \<Longrightarrow> px_step A e st = Done t \<Longrightarrow> px_reachable A t"

end
