(* ===== verification/Op_Proxy_Inv.thy ===== *)
theory Op_Proxy_Inv
  imports Op_Proxy
begin

text \<open>
  Invariants of the proxy over every step of its machine: a session has at most one driver
  (what reads from it, or writes its data on), and the bytes of a pending write are the front
  of the buffer they were taken from.
\<close>

section \<open>Frames\<close>

lemma px_session_sel [simp]:
  "px_heap (px_session a f st) = (px_heap st)(a := f (px_heap st a))"
  "px_fresh (px_session a f st) = px_fresh st" "px_mgr (px_session a f st) = px_mgr st"
  "px_posted (px_session a f st) = px_posted st" "px_pending (px_session a f st) = px_pending st"
  "px_acceptor (px_session a f st) = px_acceptor st" "px_wire (px_session a f st) = px_wire st"
  "px_core (px_session a f st) = px_core st"
  by (simp_all add: px_session_def)

lemma px_post_sel [simp]:
  "px_heap (px_post t st) = px_heap st" "px_fresh (px_post t st) = px_fresh st" "px_mgr (px_post t st) = px_mgr st"
  "px_posted (px_post t st) = px_posted st @ [t]" "px_pending (px_post t st) = px_pending st"
  "px_acceptor (px_post t st) = px_acceptor st" "px_wire (px_post t st) = px_wire st"
  "px_core (px_post t st) = px_core st"
  by (simp_all add: px_post_def)

lemma px_start_sel [simp]:
  "px_heap (px_start x st) = px_heap st" "px_fresh (px_start x st) = px_fresh st" "px_mgr (px_start x st) = px_mgr st"
  "px_posted (px_start x st) = px_posted st" "px_pending (px_start x st) = px_pending st @ [x]"
  "px_acceptor (px_start x st) = px_acceptor st" "px_wire (px_start x st) = px_wire st"
  "px_core (px_start x st) = px_core st"
  by (simp_all add: px_start_def)

lemma px_remove_sel [simp]:
  "px_fresh (px_remove i st) = px_fresh st" "px_posted (px_remove i st) = px_posted st"
  "px_pending (px_remove i st) = px_pending st" "px_acceptor (px_remove i st) = px_acceptor st"
  "px_wire (px_remove i st) = px_wire st" "px_core (px_remove i st) = px_core st"
  "o_buffRead (px_heap (px_remove i st) a) = o_buffRead (px_heap st a)"
  "o_buffWrite (px_heap (px_remove i st) a) = o_buffWrite (px_heap st a)"
  "o_bytesWrite (px_heap (px_remove i st) a) = o_bytesWrite (px_heap st a)"
  "o_id (px_heap (px_remove i st) a) = o_id (px_heap st a)"
  "o_type (px_heap (px_remove i st) a) = o_type (px_heap st a)"
  by (simp_all add: px_remove_def Let_def)

lemma px_log_sel [simp]:
  "px_heap (px_log a bs ec st) = px_heap st" "px_fresh (px_log a bs ec st) = px_fresh st"
  "px_mgr (px_log a bs ec st) = px_mgr st" "px_posted (px_log a bs ec st) = px_posted st"
  "px_pending (px_log a bs ec st) = px_pending st" "px_core (px_log a bs ec st) = px_core st"
  "px_acceptor (px_log a bs ec st) = px_acceptor st"
  by (simp_all add: px_log_def)

lemma px_drop_sel [simp]:
  "px_heap (px_drop i st) = px_heap st" "px_fresh (px_drop i st) = px_fresh st" "px_mgr (px_drop i st) = px_mgr st"
  "px_posted (px_drop i st) = px_posted st" "px_pending (px_drop i st) = remove_at i (px_pending st)"
  "px_wire (px_drop i st) = px_wire st" "px_core (px_drop i st) = px_core st"
  "px_acceptor (px_drop i st) = px_acceptor st"
  by (simp_all add: px_drop_def)

section \<open>Drivers\<close>

fun px_task_owner :: "px_task \<Rightarrow> addr" where
  "px_task_owner (PT_Initialize a) = a" | "px_task_owner (PT_Receive a) = a"

fun px_op_owner :: "px_op \<Rightarrow> addr option" where
  "px_op_owner (PO_Accept a) = Some a" | "px_op_owner (PO_Initialize a) = Some a"
| "px_op_owner (PO_Receive a) = Some a" | "px_op_owner (PO_Send t f bs) = Some f"
| "px_op_owner (PO_SendReady t f bs) = None"

definition px_load :: "addr \<Rightarrow> OProxy \<Rightarrow> nat" where
  "px_load a st = length (filter (\<lambda>t. px_task_owner t = a) (px_posted st)) +
     length (filter (\<lambda>x. px_op_owner x = Some a) (px_pending st))"

text \<open>The bytes of a pending relay write.\<close>

definition px_stable :: "OProxy \<Rightarrow> bool" where
  "px_stable st \<longleftrightarrow> (\<forall>t f bs. PO_Send t f bs \<in> set (px_pending st) \<longrightarrow>
     take (length bs) (o_buffRead (px_heap st f)) = bs)"

definition px_inv :: "OProxy \<Rightarrow> bool" where
  "px_inv st \<longleftrightarrow> (\<forall>a. px_load a st \<le> (if a < px_fresh st then 1 else 0)) \<and> px_stable st"

lemma px_load_frame [simp]:
  "px_load b (px_session a f st) = px_load b st"
  "px_load b (px_remove i st) = px_load b st"
  "px_load b (px_log a bs ec st) = px_load b st"
  "px_load b (px_post t st) = px_load b st + (if px_task_owner t = b then 1 else 0)"
  "px_load b (px_start x st) = px_load b st + (if px_op_owner x = Some b then 1 else 0)"
  "px_load b (st\<lparr>px_mgr := m\<rparr>) = px_load b st"
  "px_load b (st\<lparr>px_heap := h, px_fresh := n\<rparr>) = px_load b st"
  "px_load b (st\<lparr>px_acceptor := acc\<rparr>) = px_load b st"
  by (simp_all add: px_load_def)

lemma px_load_drop:
  "i < length (px_pending st) \<Longrightarrow>
   px_load a (px_drop i st) = px_load a st - (if px_op_owner (px_pending st ! i) = Some a then 1 else 0)"
proof -
  assume i: "i < length (px_pending st)"
  have "length (filter (\<lambda>x. px_op_owner x = Some a) (px_pending st)) \<ge> 1"
    if "px_op_owner (px_pending st ! i) = Some a"
  proof -
    from i that have "px_pending st ! i \<in> set (filter (\<lambda>x. px_op_owner x = Some a) (px_pending st))" by simp
    then show ?thesis by (cases "filter (\<lambda>x. px_op_owner x = Some a) (px_pending st)") auto
  qed
  then show ?thesis using i by (simp add: px_load_def filter_remove_at)
qed

lemma px_load_take_task:
  "i < length (px_posted st) \<Longrightarrow>
   px_load a (st\<lparr>px_posted := remove_at i (px_posted st)\<rparr>) =
     px_load a st - (if px_task_owner (px_posted st ! i) = a then 1 else 0)"
proof -
  assume i: "i < length (px_posted st)"
  have "length (filter (\<lambda>x. px_task_owner x = a) (px_posted st)) \<ge> 1"
    if "px_task_owner (px_posted st ! i) = a"
  proof -
    from i that have "px_posted st ! i \<in> set (filter (\<lambda>x. px_task_owner x = a) (px_posted st))" by simp
    then show ?thesis by (cases "filter (\<lambda>x. px_task_owner x = a) (px_posted st)") auto
  qed
  then show ?thesis using i by (simp add: px_load_def filter_remove_at)
qed

text \<open>
  What a handler that owns session \<open>a\<close> may do: it drives at most \<open>a\<close> again, starts no relay
  write but one of bytes at the front of the buffer of \<open>a\<close>, and leaves the buffers of all
  other sessions alone.
\<close>

definition px_good :: "addr \<Rightarrow> OProxy \<Rightarrow> OProxy \<Rightarrow> bool" where
  "px_good a st t \<longleftrightarrow> px_fresh t = px_fresh st \<and>
     (\<forall>b. px_load b t \<le> px_load b st + (if b = a then 1 else 0)) \<and>
     (\<forall>b. b \<noteq> a \<longrightarrow> o_buffRead (px_heap t b) = o_buffRead (px_heap st b)) \<and>
     (\<forall>d f bs. PO_Send d f bs \<in> set (px_pending t) \<longrightarrow> PO_Send d f bs \<in> set (px_pending st) \<or>
        f = a \<and> take (length bs) (o_buffRead (px_heap t a)) = bs)"

lemma px_owned_send:
  "PO_Send d f bs \<in> set (px_pending st) \<Longrightarrow> px_load f st \<ge> 1"
proof -
  assume "PO_Send d f bs \<in> set (px_pending st)"
  then have "PO_Send d f bs \<in> set (filter (\<lambda>x. px_op_owner x = Some f) (px_pending st))" by simp
  then have "length (filter (\<lambda>x. px_op_owner x = Some f) (px_pending st)) \<ge> 1"
    by (cases "filter (\<lambda>x. px_op_owner x = Some f) (px_pending st)") auto
  then show ?thesis by (simp add: px_load_def)
qed

lemma px_good_inv:
  assumes "px_inv st" and "px_load a st = 0" and "a < px_fresh st" and "px_good a st t"
  shows "px_inv t"
proof -
  have "px_load b t \<le> (if b < px_fresh t then 1 else 0)" for b
  proof -
    have "px_load b t \<le> px_load b st + (if b = a then 1 else 0)" "px_fresh t = px_fresh st"
      using assms(4) by (simp_all add: px_good_def)
    moreover have "px_load b st \<le> (if b < px_fresh st then 1 else 0)" using assms(1) by (simp add: px_inv_def)
    ultimately show ?thesis using assms(2,3) by (cases "b = a") auto
  qed
  moreover have "px_stable t"
    unfolding px_stable_def
  proof (intro allI impI)
    fix d f bs
    assume "PO_Send d f bs \<in> set (px_pending t)"
    with assms(4) consider "PO_Send d f bs \<in> set (px_pending st)" |
      "f = a" "take (length bs) (o_buffRead (px_heap t a)) = bs"
      unfolding px_good_def by blast
    then show "take (length bs) (o_buffRead (px_heap t f)) = bs"
    proof cases
      case 1
      with assms(2) have "f \<noteq> a" using px_owned_send [OF 1] by auto
      with assms(4) have "o_buffRead (px_heap t f) = o_buffRead (px_heap st f)" by (simp add: px_good_def)
      with 1 assms(1) show ?thesis by (simp add: px_inv_def px_stable_def)
    next
      case 2
      then show ?thesis by simp
    qed
  qed
  ultimately show ?thesis by (simp add: px_inv_def)
qed

section \<open>The handlers\<close>

lemma take_min_length [simp]: "take (min (length xs) n) xs = take n xs"
  by (simp add: min_def)

lemma px_load_bound: "px_inv st \<Longrightarrow> px_load a st \<le> (if a < px_fresh st then 1 else 0)"
  by (simp add: px_inv_def)

lemma px_good_simps:
  "px_good a st (px_remove i st)"
  "px_good a st (px_session a f st)"
  "px_good a st (Proxy_Receive a st)"
  "px_good a st (Proxy_Initialize a st)"
  "px_task_owner x = a \<Longrightarrow> px_good a st (px_post x st)"
  by (auto simp: px_good_def Proxy_Receive_def Proxy_Initialize_def)

lemma px_good_SendReady:
  "Proxy_SendReady d f st = Done t \<Longrightarrow>
   px_load b t = px_load b st \<and> px_fresh t = px_fresh st \<and> px_heap t = px_heap st \<and>
   (PO_Send x y bs \<in> set (px_pending t) \<longleftrightarrow> PO_Send x y bs \<in> set (px_pending st))"
  by (auto simp: Proxy_SendReady_def split: option.splits)

lemma HandleReceive_good:
  assumes "Proxy_HandleReceive a ec n st = Done t"
  shows "px_good a st t"
  using assms
  by (auto simp: Proxy_HandleReceive_def Proxy_Send_def px_good_simps px_good_def
      split: if_splits sum.splits StreamType.splits option.splits)

lemma HandleSend_good: "px_good a st (Proxy_HandleSend d a ec n st)"
  by (auto simp: Proxy_HandleSend_def Proxy_Receive_def px_good_def)

lemma Login_good: "px_good a st (fst (Proxy_Login a n l st))"
  by (auto simp: Proxy_Login_def px_good_def Let_def split: sum.splits)

lemma Greeting_good:
  assumes "Proxy_Greeting a n st = Done r"
  shows "px_good a st (fst r)"
proof (cases "OProxyMgr_FindPair (o_id (px_heap st a)) (px_mgr st)")
  case (Inl e)
  with assms show ?thesis by (auto simp: Proxy_Greeting_def px_good_def Let_def)
next
  case (Inr p)
  have fin: "px_good a st (px_post (PT_Receive a) u)"
    if "Proxy_SendReady x y (px_session a (OSession_SetBytesWriteBuff n) st) = Done s"
      "Proxy_SendReady v w s = Done u" for x y v w s u
    using px_good_SendReady [OF that(1)] px_good_SendReady [OF that(2)]
    by (auto simp: px_good_def)
  have "px_good a st (px_post (PT_Receive a) (px_session a (OSession_SetBytesWriteBuff n) st))"
    by (auto simp: px_good_def)
  with fin Inr assms show ?thesis
    by (cases "o_type (px_heap st a)")
      (auto simp: Proxy_Greeting_def Let_def px_good_simps split: if_splits)
qed

lemma HandleInitialize_good:
  assumes "Proxy_HandleInitialize A a ec n st = Done t"
  shows "px_good a st t"
proof -
  have catch: "px_good a st (Proxy_InitializeCatch a r)" if "px_good a st (fst r)" for r
    using that by (cases r; cases "snd r") (simp_all add: Proxy_InitializeCatch_def px_good_def)
  have refl: "px_good a st st" by (simp add: px_good_def)
  from assms obtain r where t: "t = Proxy_InitializeCatch a r"
    and r: "(if failed ec then Done (st, Inl lib_error)
        else case DeserializeFromBuffer A (o_buffWrite (px_heap st a)) n of
          Inl e \<Rightarrow> Done (st, Inl e)
        | Inr event \<Rightarrow>
            (if ev_has_login event then Done (Proxy_Login a n (ev_login event) st)
             else if ev_has_greeting event then Proxy_Greeting a n st
             else Done (px_session a (\<lambda>s. s\<lparr>o_buffWrite := drop n (o_buffWrite s)\<rparr>) st,
                        Inl (runtime_error ''Unknown event type'')))) = Done r"
    unfolding Proxy_HandleInitialize_def bind_run_Done by auto
  from r have "px_good a st (fst r)"
    using Login_good [of a st n] Greeting_good [of a n st] refl px_good_simps(2) [of a st]
    by (auto split: if_splits sum.splits)
  then show ?thesis unfolding t by (rule catch)
qed

section \<open>The invariant\<close>

lemma px_inv_same:
  assumes "px_inv st" and "px_fresh t = px_fresh st" and "\<And>b. px_load b t \<le> px_load b st"
    and "\<And>b. o_buffRead (px_heap t b) = o_buffRead (px_heap st b)"
    and "\<And>d f bs. PO_Send d f bs \<in> set (px_pending t) \<Longrightarrow> PO_Send d f bs \<in> set (px_pending st)"
  shows "px_inv t"
  using assms(1,2,4,5) order.trans [OF assms(3) px_load_bound [OF assms(1)]]
  unfolding px_inv_def px_stable_def by simp blast

lemma px_inv_drop: "px_inv st \<Longrightarrow> i < length (px_pending st) \<Longrightarrow> px_inv (px_drop i st)"
  using mset_remove_at [of i "px_pending st"] by (elim px_inv_same) (auto simp: px_load_drop)

lemma px_inv_chunk:
  assumes "px_inv st"
  shows "px_inv (px_session a (\<lambda>s. s\<lparr>o_buffRead := o_buffRead s @ bs\<rparr>) st)"
proof -
  have "take (length xs) (ys @ bs) = xs" if "take (length xs) ys = xs" for xs ys :: "byte list"
    using that by (metis append_take_drop_id append_assoc append_eq_conv_conj)
  with assms show ?thesis by (auto simp: px_inv_def px_stable_def)
qed

lemma px_inv_start: "px_inv (Proxy_Start r raw Proxy_Construct)"
  by (cases r) (simp_all add: px_inv_def px_stable_def Proxy_Start_def Proxy_Construct_def Proxy_Accept_def px_load_def)

lemma px_load_fresh: "px_inv st \<Longrightarrow> px_load (px_fresh st) st = 0"
  unfolding px_inv_def by (metis le_zero_eq less_irrefl)

lemma px_owner_pending:
  assumes "px_inv st" and "i < length (px_pending st)" and "px_op_owner (px_pending st ! i) = Some a"
  shows "px_load a (px_drop i st) = 0 \<and> a < px_fresh st"
proof -
  from assms(2,3) have "px_pending st ! i \<in> set (filter (\<lambda>x. px_op_owner x = Some a) (px_pending st))" by simp
  then have "px_load a st \<ge> 1" by (cases "filter (\<lambda>x. px_op_owner x = Some a) (px_pending st)") (auto simp: px_load_def)
  moreover have "px_load a st \<le> (if a < px_fresh st then 1 else 0)" using assms(1) by (simp add: px_inv_def)
  ultimately show ?thesis using assms(2,3) by (simp add: px_load_drop split: if_splits)
qed

lemma px_inv_Accept:
  assumes "px_inv st"
  shows "px_inv (Proxy_Accept raw st)"
proof -
  have "px_load b (Proxy_Accept raw st) \<le> (if b < px_fresh (Proxy_Accept raw st) then 1 else 0)" for b
    using px_load_bound [OF assms, of b] px_load_fresh [OF assms]
    by (cases "b = px_fresh st") (simp_all add: Proxy_Accept_def less_Suc_eq)
  moreover have "px_stable (Proxy_Accept raw st)"
    unfolding px_stable_def
  proof (intro allI impI)
    fix d f bs
    assume s: "PO_Send d f bs \<in> set (px_pending (Proxy_Accept raw st))"
    then have "PO_Send d f bs \<in> set (px_pending st)" by (simp add: Proxy_Accept_def)
    with px_owned_send [OF this] px_load_fresh [OF assms] assms
    show "take (length bs) (o_buffRead (px_heap (Proxy_Accept raw st) f)) = bs"
      by (auto simp: Proxy_Accept_def px_inv_def px_stable_def)
  qed
  ultimately show ?thesis by (simp add: px_inv_def)
qed

text \<open>One step of each kind.\<close>

lemma px_inv_run_task:
  assumes "px_inv st" and "i < length (px_posted st)"
  shows "px_inv (px_run_task (px_posted st ! i) (st\<lparr>px_posted := remove_at i (px_posted st)\<rparr>))"
proof -
  let ?s = "st\<lparr>px_posted := remove_at i (px_posted st)\<rparr>" and ?a = "px_task_owner (px_posted st ! i)"
  have inv: "px_inv ?s"
    by (rule px_inv_same [OF assms(1)]) (simp_all add: px_load_take_task assms(2))
  have "px_posted st ! i \<in> set (filter (\<lambda>x. px_task_owner x = ?a) (px_posted st))" using assms(2) by simp
  then have "px_load ?a st \<ge> 1"
    by (cases "filter (\<lambda>x. px_task_owner x = ?a) (px_posted st)") (auto simp: px_load_def)
  with px_load_bound [OF assms(1), of ?a] assms(2) have "px_load ?a ?s = 0" "?a < px_fresh ?s"
    by (simp_all add: px_load_take_task split: if_splits)
  moreover have "px_good ?a ?s (px_run_task (px_posted st ! i) ?s)"
    by (cases "px_posted st ! i") (simp_all add: px_run_task_def px_good_simps)
  ultimately show ?thesis using px_good_inv [OF inv] by blast
qed

text \<open>A completed operation of session \<open>a\<close>, whose handler starts from \<open>s\<close>.\<close>

lemma px_inv_handler:
  assumes "px_inv st" and "i < length (px_pending st)" and "px_op_owner (px_pending st ! i) = Some a"
    and "px_good a (px_drop i st) t"
  shows "px_inv t"
  using px_good_inv [OF px_inv_drop [OF assms(1,2)] _ _ assms(4)] px_owner_pending [OF assms(1-3)] by simp

lemma px_inv_log [simp]: "px_inv (px_log a bs ec st) = px_inv st"
  by (simp add: px_inv_def px_stable_def)

lemma px_good_log [simp]: "px_good a (px_log b bs ec st) t = px_good a st t"
  by (simp add: px_good_def)

lemma px_drop_session [simp]: "px_drop i (px_session a f st) = px_session a f (px_drop i st)"
  by (simp add: px_drop_def px_session_def)

lemma px_inv_buffWrite: "px_inv st \<Longrightarrow> px_inv (px_session a (\<lambda>s. s\<lparr>o_buffWrite := f s\<rparr>) st)"
  by (elim px_inv_same) simp_all

lemma px_inv_read_init:
  assumes "px_inv st" and i: "i < length (px_pending st)" and "px_pending st ! i = PO_Initialize a"
    and t: "px_read_init A i a ec bs st = Done t"
  shows "px_inv t"
proof -
  let ?s = "px_session a (\<lambda>s. s\<lparr>o_buffWrite := o_buffWrite s @ bs\<rparr>) st"
  have o: "px_op_owner (px_pending st ! i) = Some a" using assms(3) by simp
  have inv: "px_inv ?s" using assms(1) by (rule px_inv_buffWrite)
  show ?thesis
  proof (cases "failed ec")
    case True
    with t have "Proxy_HandleInitialize A a ec 0 (px_drop i st) = Done t" by (simp add: px_read_init_def)
    then show ?thesis by (rule px_inv_handler [OF assms(1) i o HandleInitialize_good])
  next
    case ok: False
    show ?thesis
    proof (cases "o_open (px_heap st a)")
      case False
      with ok t assms(1) show ?thesis by (simp add: px_read_init_def)
    next
      case True
      show ?thesis
      proof (cases "read_until op_delimiter (o_buffWrite (px_heap ?s a))")
        case None
        with ok True t inv show ?thesis by (simp add: px_read_init_def Let_def)
      next
        case (Some n)
        with ok True t have "Proxy_HandleInitialize A a ec_ok n (px_drop i ?s) = Done t"
          by (simp add: px_read_init_def Let_def)
        from px_inv_handler [OF inv _ _ HandleInitialize_good [OF this]] i o show ?thesis by simp
      qed
    qed
  qed
qed

lemma px_inv_read_data:
  assumes "px_inv st" and i: "i < length (px_pending st)" and "px_pending st ! i = PO_Receive a"
    and t: "px_read_data i a ec bs st = Done t"
  shows "px_inv t"
proof -
  let ?s = "px_session a (\<lambda>s. s\<lparr>o_buffRead := o_buffRead s @ bs\<rparr>) st"
  have o: "px_op_owner (px_pending st ! i) = Some a" using assms(3) by simp
  have inv: "px_inv ?s" by (rule px_inv_chunk) fact
  show ?thesis
  proof (cases "failed ec")
    case True
    with t have "Proxy_HandleReceive a ec 0 (px_drop i st) = Done t" by (simp add: px_read_data_def)
    then show ?thesis by (rule px_inv_handler [OF assms(1) i o HandleReceive_good])
  next
    case ok: False
    show ?thesis
    proof (cases "o_open (px_heap st a)")
      case False
      with ok t assms(1) show ?thesis by (simp add: px_read_data_def)
    next
      case True
      show ?thesis
      proof (cases "read_until op_delimiter (o_buffRead (px_heap ?s a))")
        case None
        with ok True t inv show ?thesis by (simp add: px_read_data_def Let_def)
      next
        case (Some n)
        with ok True t have "Proxy_HandleReceive a ec_ok n (px_drop i ?s) = Done t"
          by (simp add: px_read_data_def Let_def)
        from px_inv_handler [OF inv _ _ HandleReceive_good [OF this]] i o show ?thesis by simp
      qed
    qed
  qed
qed

lemma px_inv_HandleSendReady: "px_inv st \<Longrightarrow> px_inv (Proxy_HandleSendReady d f ec st)"
  by (elim px_inv_same) (auto simp: Proxy_HandleSendReady_def split: if_splits)

lemma px_inv_complete:
  assumes inv: "px_inv st" and i: "i < length (px_pending st)" and t: "px_complete A i e st = Done t"
  shows "px_inv t"
proof (cases "px_pending st ! i")
  case (PO_Accept a)
  have good: "px_good a (px_drop i st) (px_drop i st)" by (simp add: px_good_def)
  show ?thesis
  proof (cases e)
    case (PE_Accept j ec remote raw)
    have "px_inv (if failed ec then px_drop i st
        else (let st1 = px_session a (\<lambda>s. s\<lparr>o_open := True\<rparr>) (px_drop i st)
              in if remote then px_post (PT_Initialize a) st1 else st1))"
      by (rule px_inv_handler [OF inv i]) (auto simp: PO_Accept px_good_def Let_def)
    from px_inv_Accept [OF this, of raw] t PO_Accept PE_Accept show ?thesis
      by (simp add: px_complete_def Proxy_HandleAccept_def)
  qed (use t PO_Accept inv in \<open>auto simp: px_complete_def\<close>)
next
  case (PO_Initialize a)
  with t inv show ?thesis
    by (cases e) (auto simp: px_complete_def intro: px_inv_read_init [OF inv i PO_Initialize])
next
  case (PO_Receive a)
  with t inv show ?thesis
    by (cases e) (auto simp: px_complete_def intro: px_inv_read_data [OF inv i PO_Receive])
next
  case (PO_Send d f bs)
  have "px_inv (Proxy_HandleSend d f ec (length bs) (px_log d bs ec (px_drop i st)))" for ec
    by (rule px_inv_handler [OF inv i]) (use PO_Send HandleSend_good [of f "px_log d bs ec (px_drop i st)"] in simp_all)
  with t inv PO_Send show ?thesis by (cases e) (auto simp: px_complete_def split: if_splits)
next
  case (PO_SendReady d f bs)
  have "px_inv (Proxy_HandleSendReady d f ec (px_log d bs ec (px_drop i st)))" for ec
    by (rule px_inv_HandleSendReady) (simp add: px_inv_drop inv i)
  with t inv PO_SendReady show ?thesis by (cases e) (auto simp: px_complete_def split: if_splits)
qed

lemma px_inv_step: "px_inv st \<Longrightarrow> px_step A e st = Done t \<Longrightarrow> px_inv t"
  by (cases e) (auto intro: px_inv_run_task px_inv_complete split: if_splits)

lemma px_reachable_inv: "px_reachable A st \<Longrightarrow> px_inv st"
  by (induction rule: px_reachable.induct) (auto intro: px_inv_start px_inv_step)

end
