(* ===== verification/Op_Proxy_Claims.thy ===== *)
theory Op_Proxy_Claims
  imports Op_Proxy_Inv
begin

text \<open>
  The properties of the \<open>openproxy\<close> server: what the relay passes on, the exchange of the
  greetings, and how a login that is refused hurts the session it asked for.
\<close>

section \<open>The relay\<close>

definition opposite :: "StreamType \<Rightarrow> OPair \<Rightarrow> addr option" where
  "opposite t p = (case t of DOWNSREAM \<Rightarrow> pair_up p | UPSTREAM \<Rightarrow> pair_down p | UNKNOWN_STREAM \<Rightarrow> None)"

lemma px_new_send_HandleReceive:
  assumes "Proxy_HandleReceive a ec n st = Done t" and "PO_Send d f bs \<in> set (px_pending t)"
    and "PO_Send d f bs \<notin> set (px_pending st)"
  shows "f = a \<and> (\<exists>p. map_of (px_mgr t) (o_id (px_heap t a)) = Some p \<and> opposite (o_type (px_heap t a)) p = Some d) \<and>
    bs = take n (o_buffRead (px_heap t a))"
  using assms
  by (auto simp: Proxy_HandleReceive_def Proxy_Send_def opposite_def op_simps
      split: if_splits sum.splits StreamType.splits option.splits)

lemma HandleReceive_heap:
  "Proxy_HandleReceive a ec n st = Done t \<Longrightarrow>
   o_buffRead (px_heap t b) = o_buffRead (px_heap st b) \<and> px_fresh t = px_fresh st"
  by (auto simp: Proxy_HandleReceive_def Proxy_Send_def split: if_splits sum.splits StreamType.splits option.splits)

lemma Greeting_no_send:
  "Proxy_Greeting a n st = Done r \<Longrightarrow> PO_Send d f bs \<in> set (px_pending (fst r)) \<Longrightarrow> PO_Send d f bs \<in> set (px_pending st)"
  by (auto simp: Proxy_Greeting_def Let_def px_good_SendReady split: sum.splits StreamType.splits if_splits)

lemma Login_frame:
  "Proxy_Login a n l st = (u, r) \<Longrightarrow> px_pending u = px_pending st \<and> px_fresh u = px_fresh st \<and>
    o_buffRead (px_heap u b) = o_buffRead (px_heap st b)"
  by (auto simp: Proxy_Login_def Let_def split: sum.splits)

lemma HandleInitialize_no_send:
  assumes "Proxy_HandleInitialize A a ec n st = Done t" and "PO_Send d f bs \<in> set (px_pending t)"
  shows "PO_Send d f bs \<in> set (px_pending st)"
proof -
  have catch: "px_pending (Proxy_InitializeCatch a r) = px_pending (fst r)" for r
    by (cases r; cases "snd r") (simp_all add: Proxy_InitializeCatch_def)
  from assms show ?thesis
    unfolding Proxy_HandleInitialize_def bind_run_Done
    by (auto simp: catch dest: Greeting_no_send Login_frame split: if_splits sum.splits)
qed

text \<open>C9: whenever a step starts a relay write, its bytes are the first message in the buffer of the
  session it comes from, delimiter included, and its target is the opposite side of the pair
  registered under that session's own id.\<close>

theorem Proxy_relays_to_opposite:
  assumes "px_step A e st = Done t" and "PO_Send d f bs \<in> set (px_pending t)"
    and "PO_Send d f bs \<notin> set (px_pending st)"
  shows "\<exists>p n. map_of (px_mgr t) (o_id (px_heap t f)) = Some p \<and> opposite (o_type (px_heap t f)) p = Some d \<and>
    read_until op_delimiter (o_buffRead (px_heap t f)) = Some n \<and> bs = take n (o_buffRead (px_heap t f))"
proof -
  let ?new = "\<lambda>u. PO_Send d f bs \<in> set (px_pending u) \<longrightarrow> PO_Send d f bs \<in> set (px_pending st)"
  have drop: "x \<in> set (px_pending (px_drop i st)) \<Longrightarrow> i < length (px_pending st) \<Longrightarrow> x \<in> set (px_pending st)" for x i
    using mset_remove_at [of i "px_pending st"] by auto
  obtain i ec chunk where e: "e = PE_Read i ec chunk" and i: "i < length (px_pending st)" "isRunning (px_core st)"
    using assms drop
    by (cases e) (auto simp: px_run_task_def Proxy_Initialize_def Proxy_Receive_def px_complete_def
        Proxy_HandleAccept_def Proxy_Accept_def Let_def Proxy_HandleSend_def Proxy_HandleSendReady_def
        split: if_splits px_task.splits px_op.splits)
  then have c: "px_complete A i (PE_Read i ec chunk) st = Done t" using assms(1) by simp
  show ?thesis
  proof (cases "\<exists>a. px_pending st ! i = PO_Receive a")
    case False
    with c assms(2,3) drop i have False
      by (auto simp: px_complete_def px_read_init_def Let_def dest!: HandleInitialize_no_send
          split: px_op.splits if_splits option.splits)
    then show ?thesis ..
  next
    case True
    then obtain a where a: "px_pending st ! i = PO_Receive a" by blast
    let ?s = "px_session a (\<lambda>s. s\<lparr>o_buffRead := o_buffRead s @ chunk\<rparr>) st"
    from c a have r: "px_read_data i a ec chunk st = Done t" by (simp add: px_complete_def)
    have ok: "\<not> failed ec"
    proof
      assume "failed ec"
      with r have "t = px_remove (o_id (px_heap st a)) (px_drop i st)"
        by (simp add: px_read_data_def Proxy_HandleReceive_def)
      with assms(2,3) drop i show False by auto
    qed
    with r assms(2,3) obtain n where n: "read_until op_delimiter (o_buffRead (px_heap ?s a)) = Some n"
        "Proxy_HandleReceive a ec_ok n (px_drop i ?s) = Done t"
      by (auto simp: px_read_data_def Let_def split: if_splits option.splits)
    have "PO_Send d f bs \<notin> set (px_pending (px_drop i ?s))" using assms(3) drop i(1) by auto
    from px_new_send_HandleReceive [OF n(2) assms(2) this] HandleReceive_heap [OF n(2)] n(1) show ?thesis by auto
  qed
qed


text \<open>The bytes a step reads from session \<open>b\<close> for the relay, and what it completes of its writes.\<close>

definition px_in :: "px_event \<Rightarrow> OProxy \<Rightarrow> addr \<Rightarrow> byte list" where
  "px_in e st b = (case e of
     PE_Read i ec bs \<Rightarrow>
       (if isRunning (px_core st) \<and> i < length (px_pending st) \<and> px_pending st ! i = PO_Receive b \<and>
          \<not> failed ec \<and> o_open (px_heap st b) then bs else [])
   | _ \<Rightarrow> [])"

definition px_out :: "px_event \<Rightarrow> OProxy \<Rightarrow> addr \<Rightarrow> (addr \<times> byte list) list" where
  "px_out e st b = (case e of
     PE_Write i ec \<Rightarrow>
       (if isRunning (px_core st) \<and> i < length (px_pending st) \<and> \<not> failed ec then
          (case px_pending st ! i of
             PO_Send d f bs \<Rightarrow> if f = b \<and> o_open (px_heap st d) then [(d, bs)] else []
           | _ \<Rightarrow> [])
        else [])
   | _ \<Rightarrow> [])"

inductive px_history ::
  "archive \<Rightarrow> OProxy \<Rightarrow> (addr \<Rightarrow> byte list) \<Rightarrow> (addr \<Rightarrow> (addr \<times> byte list) list) \<Rightarrow> bool" for A where
  start: "px_history A (Proxy_Start r raw Proxy_Construct) (\<lambda>_. []) (\<lambda>_. [])"
| step: "px_history A st inp out \<Longrightarrow> px_step A e st = Done t \<Longrightarrow>
    px_history A t (\<lambda>b. inp b @ px_in e st b) (\<lambda>b. out b @ px_out e st b)"

lemma px_history_reachable: "px_history A st inp out \<Longrightarrow> px_reachable A st"
  by (induction rule: px_history.induct) (auto intro: px_reachable.intros)

lemma Greeting_heap:
  "Proxy_Greeting a n st = Done r \<Longrightarrow> o_buffRead (px_heap (fst r) b) = o_buffRead (px_heap st b) \<and> px_fresh (fst r) = px_fresh st"
  by (auto simp: Proxy_Greeting_def Let_def px_good_SendReady split: sum.splits StreamType.splits if_splits)

lemma HandleInitialize_heap:
  assumes "Proxy_HandleInitialize A a ec n st = Done t"
  shows "o_buffRead (px_heap t b) = o_buffRead (px_heap st b) \<and> px_fresh t = px_fresh st"
proof -
  have catch: "o_buffRead (px_heap (Proxy_InitializeCatch a r) b) = o_buffRead (px_heap (fst r) b) \<and>
      px_fresh (Proxy_InitializeCatch a r) = px_fresh (fst r)" for r
    by (cases r; cases "snd r") (simp_all add: Proxy_InitializeCatch_def)
  from assms obtain r where t: "t = Proxy_InitializeCatch a r"
    and "o_buffRead (px_heap (fst r) b) = o_buffRead (px_heap st b) \<and> px_fresh (fst r) = px_fresh st"
    unfolding Proxy_HandleInitialize_def bind_run_Done
    using Greeting_heap [of a n st _ b] Login_frame [of a n _ st _ _ b]
    by (auto split: if_splits sum.splits)
  with catch [of r] show ?thesis by simp
qed

text \<open>What a step reads and writes on is the difference it makes to the buffer.\<close>

lemma px_step_flow:
  assumes inv: "px_inv st" and step: "px_step A e st = Done t"
  shows "px_fresh st \<le> px_fresh t \<and>
    (o_buffRead (px_heap st b) @ px_in e st b = concat (map snd (px_out e st b)) @ o_buffRead (px_heap t b) \<or>
     b = px_fresh st \<and> o_buffRead (px_heap t b) = [])"
proof (cases e)
  case (PE_Run i)
  with step show ?thesis
    by (auto simp: px_in_def px_out_def px_run_task_def Proxy_Initialize_def Proxy_Receive_def
        split: if_splits px_task.splits)
next
  case (PE_Accept i ec remote raw)
  with step show ?thesis
    by (auto simp: px_in_def px_out_def px_complete_def Proxy_HandleAccept_def Proxy_Accept_def Let_def
        OSession_Construct_def split: if_splits px_op.splits)
next
  case (PE_Read i ec bs)
  show ?thesis
  proof (cases "isRunning (px_core st) \<and> i < length (px_pending st)")
    case False
    with step PE_Read have "t = st" by (metis px_step.simps(3) run.inject)
    moreover from False PE_Read have "px_in e st b = []" "px_out e st b = []"
      by (auto simp: px_in_def px_out_def)
    ultimately show ?thesis by simp
  next
    case True
    with step PE_Read have c: "px_complete A i (PE_Read i ec bs) st = Done t" by simp
    show ?thesis
    proof (cases "px_pending st ! i")
      case (PO_Initialize a)
      with c True show ?thesis
        unfolding PE_Read px_in_def px_out_def
        by (auto simp: px_complete_def px_read_init_def Let_def dest!: HandleInitialize_heap [where b = b]
            split: if_splits option.splits)
    next
      case (PO_Receive a)
      with c True show ?thesis
        unfolding PE_Read px_in_def px_out_def
        by (auto simp: px_complete_def px_read_data_def Let_def dest!: HandleReceive_heap [where b = b]
            split: if_splits option.splits)
    next
      case (PO_Accept a)
      with c have "t = st" by (simp add: px_complete_def)
      moreover from PO_Accept have "px_in e st b = []" "px_out e st b = []" by (simp_all add: PE_Read px_in_def px_out_def)
      ultimately show ?thesis by simp
    next
      case (PO_Send d f bs)
      with c have "t = st" by (simp add: px_complete_def)
      moreover from PO_Send have "px_in e st b = []" "px_out e st b = []" by (simp_all add: PE_Read px_in_def px_out_def)
      ultimately show ?thesis by simp
    next
      case (PO_SendReady d f bs)
      with c have "t = st" by (simp add: px_complete_def)
      moreover from PO_SendReady have "px_in e st b = []" "px_out e st b = []" by (simp_all add: PE_Read px_in_def px_out_def)
      ultimately show ?thesis by simp
    qed
  qed
next
  case (PE_Write i ec)
  show ?thesis
  proof (cases "isRunning (px_core st) \<and> i < length (px_pending st)")
    case False
    with step PE_Write have "t = st" by (metis px_step.simps(4) run.inject)
    moreover from False PE_Write have "px_in e st b = []" "px_out e st b = []"
      by (auto simp: px_in_def px_out_def)
    ultimately show ?thesis by simp
  next
    case True
    with step PE_Write have c: "px_complete A i (PE_Write i ec) st = Done t" by simp
    show ?thesis
    proof (cases "px_pending st ! i")
      case (PO_Send d f bs)
      then have "PO_Send d f bs \<in> set (px_pending st)" using True by (metis nth_mem)
      with inv have "take (length bs) (o_buffRead (px_heap st f)) = bs" by (auto simp: px_inv_def px_stable_def)
      then have "bs @ drop (length bs) (o_buffRead (px_heap st f)) = o_buffRead (px_heap st f)"
        by (metis append_take_drop_id)
      with PO_Send c True show ?thesis
        unfolding PE_Write px_in_def px_out_def
        by (auto simp: px_complete_def Proxy_HandleSend_def Proxy_Receive_def split: if_splits)
    next
      case (PO_SendReady d f bs)
      with c True show ?thesis
        unfolding PE_Write px_in_def px_out_def
        by (auto simp: px_complete_def Proxy_HandleSendReady_def split: if_splits)
    next
      case (PO_Accept a)
      with c have "t = st" by (simp add: px_complete_def)
      moreover from PO_Accept have "px_in e st b = []" "px_out e st b = []" by (simp_all add: PE_Write px_in_def px_out_def)
      ultimately show ?thesis by simp
    next
      case (PO_Initialize a)
      with c have "t = st" by (simp add: px_complete_def)
      moreover from PO_Initialize have "px_in e st b = []" "px_out e st b = []" by (simp_all add: PE_Write px_in_def px_out_def)
      ultimately show ?thesis by simp
    next
      case (PO_Receive a)
      with c have "t = st" by (simp add: px_complete_def)
      moreover from PO_Receive have "px_in e st b = []" "px_out e st b = []" by (simp_all add: PE_Write px_in_def px_out_def)
      ultimately show ?thesis by simp
    qed
  qed
qed

text \<open>Nothing is read or written for a session that is not made yet.\<close>

lemma px_flow_fresh:
  assumes "px_inv st" and "px_fresh st \<le> b"
  shows "px_in e st b = [] \<and> px_out e st b = []"
proof -
  have owner: "px_op_owner (px_pending st ! i) \<noteq> Some b" if "i < length (px_pending st)" for i
    using px_owner_pending [OF assms(1) that] assms(2) by fastforce
  have "px_pending st ! i \<noteq> PO_Receive b" "px_pending st ! i \<noteq> PO_Send d b bs" if "i < length (px_pending st)" for i d bs
    using owner [OF that] by auto
  then show ?thesis
    by (auto simp: px_in_def px_out_def split: px_event.splits px_op.splits)
qed

lemma px_relay_exact:
  assumes "px_history A st inp out"
  shows "inp b = concat (map snd (out b)) @ o_buffRead (px_heap st b)"
proof -
  from assms have "inp b = concat (map snd (out b)) @ o_buffRead (px_heap st b) \<and> (px_fresh st \<le> b \<longrightarrow> inp b = [])"
  proof (induction rule: px_history.induct)
    case (start r raw)
    show ?case
      by (cases r) (simp_all add: Proxy_Start_def Proxy_Construct_def Proxy_Accept_def OSession_Construct_def)
  next
    case (step st inp out e t)
    have inv: "px_inv st" using step.hyps(1) by (intro px_reachable_inv px_history_reachable)
    note flow = px_step_flow [OF inv step.hyps(2), of b]
    show ?case
    proof (cases "px_fresh st \<le> b")
      case True
      with step.IH have "concat (map snd (out b)) = []" "o_buffRead (px_heap st b) = []" "inp b = []"
        by (metis append_is_Nil_conv)+
      with px_flow_fresh [OF inv True, of e] flow show ?thesis by auto
    next
      case False
      then show ?thesis using flow step.IH by auto
    qed
  qed
  then show ?thesis ..
qed

text \<open>C8: the relay loses, duplicates and reorders nothing: in every history of the proxy the bytes that
  were read from a session for the relay are the bytes that were written on for it, in that
  order, followed by what is still in its buffer.\<close>

theorem Proxy_relay_exact:
  assumes "px_history A st inp out"
  shows "inp b = concat (map snd (out b)) @ o_buffRead (px_heap st b)"
  by (rule px_relay_exact [OF assms])

end
