(* ===== verification/Op_Claims.thy ===== *)
theory Op_Claims
  imports Op_Client_Props Op_Proxy_Claims
begin

text \<open>
  The properties of the \<open>openproxy\<close> client, and of the client and the proxy together: queueing,
  receiving a stream, and the exchange of login and greetings that makes a session ready.
\<close>

section \<open>The client's queue\<close>

text \<open>From every reachable state of the client in which the sessions of the queued messages are
  registered, any sequence of sends and write completions returns and writes first in, first
  out what was accepted; a message is accepted exactly when its session is registered and
  ready.\<close>

theorem OClient_send_fifo:
  assumes "oc_reachable A st" and "list_all (oc_live st) (oc_sendQueue st)"
  shows "\<exists>t log. oc_queue.run ops (st, []) = Some (t, log) \<and>
    log @ oc_sendQueue t = oc_sendQueue st @ oc_queue.accepted (oc_admit st) ops"
  using oc_queue.run_fifo [of st ops "[]"] oc_reachable_one_write [OF assms(1)] assms(2)
  by (auto simp: oc_one_write_iff list_all_iff)

section \<open>Receiving a stream\<close>

text \<open>The strand runs what is posted, and the read that it starts looks at the buffer.\<close>

definition oc_turns :: "nat \<Rightarrow> oc_event list" where
  "oc_turns k = concat (replicate k [OE_Run 0, OE_Read 0 ec_ok []])"

fun oc_schedule :: "byte list \<Rightarrow> byte list list \<Rightarrow> oc_event list" where
  "oc_schedule buf [] = []"
| "oc_schedule buf (c # cs) =
     (let r = deframe op_delimiter (buf @ c)
      in (OE_Read 0 ec_ok c # oc_turns (length (fst r))) @ oc_schedule (snd r) cs)"

definition oc_reading :: "addr \<Rightarrow> OClient \<Rightarrow> bool" where
  "oc_reading a st \<longleftrightarrow> isRunning (oc_core st) \<and> oc_pending st = [CP_Receive a] \<and> oc_posted st = [] \<and> o_open (oc_heap st a)"

lemma oc_steps_simps [simp]:
  "oc_steps A [] st = st"
  "oc_steps A (e # es) st = oc_steps A es (oc_step A e st)"
  "oc_steps A (es @ fs) st = oc_steps A fs (oc_steps A es st)"
  by (simp_all add: oc_steps_def)

lemma oc_receive_chunk:
  assumes "oc_reading a st" and "deframe op_delimiter (o_buffRead (oc_heap st a) @ c) = (ps, rest)"
  shows "\<exists>t. oc_steps A (OE_Read 0 ec_ok c # oc_turns (length ps)) st = t \<and> oc_reading a t \<and>
    o_buffRead (oc_heap t a) = rest \<and> o_id (oc_heap t a) = o_id (oc_heap st a) \<and>
    oc_signals t = oc_signals st @ map (\<lambda>p. Op_OnReceive p (o_id (oc_heap st a))) ps"
  using assms
proof (induction ps arbitrary: st c)
  case Nil
  have none: "read_until op_delimiter (o_buffRead (oc_heap st a) @ c) = None"
  proof (rule ccontr)
    assume "read_until op_delimiter (o_buffRead (oc_heap st a) @ c) \<noteq> None"
    then obtain n where "read_until op_delimiter (o_buffRead (oc_heap st a) @ c) = Some n" by blast
    from deframe_Some [OF this op_frame.delim_nonempty] Nil(2) show False by (simp add: Let_def)
  qed
  with Nil(2) have rest: "rest = o_buffRead (oc_heap st a) @ c" by simp
  with none Nil(1) show ?case
    by (simp add: oc_turns_def oc_reading_def oc_complete_def oc_read_data_def Let_def)
next
  case (Cons p ps)
  let ?buf = "o_buffRead (oc_heap st a) @ c"
  from Cons.prems(2) obtain n where n: "read_until op_delimiter ?buf = Some n"
    and p: "p = take (n - length op_delimiter) ?buf" and r: "deframe op_delimiter (drop n ?buf) = (ps, rest)"
    by (auto simp: deframe.simps [of op_delimiter ?buf] Let_def prod_eq_iff split: option.splits if_splits)
  define s where "s = oc_steps A [OE_Read 0 ec_ok c, OE_Run 0] st"
  from Cons.prems(1) n p have s: "oc_reading a s" "o_buffRead (oc_heap s a) = drop n ?buf"
      "o_id (oc_heap s a) = o_id (oc_heap st a)" "oc_signals s = oc_signals st @ [Op_OnReceive p (o_id (oc_heap st a))]"
    by (simp_all add: s_def oc_reading_def oc_complete_def oc_read_data_def OClient_HandleReceive_def BufferToSteam_def
        remove_at_def oc_run_task_def OClient_Receive_def Let_def)
  from Cons.IH [OF s(1), of "[]"] s(2) r obtain t where
    t: "oc_steps A (OE_Read 0 ec_ok [] # oc_turns (length ps)) s = t" "oc_reading a t"
      "o_buffRead (oc_heap t a) = rest" "o_id (oc_heap t a) = o_id (oc_heap s a)"
      "oc_signals t = oc_signals s @ map (\<lambda>p. Op_OnReceive p (o_id (oc_heap s a))) ps" by auto
  have "oc_steps A (OE_Read 0 ec_ok c # oc_turns (length (p # ps))) st = t"
    using t(1) by (simp add: oc_turns_def s_def)
  with t s show ?case by auto
qed

lemma oc_receive_chunks:
  assumes "oc_reading a st"
  shows "oc_signals (oc_steps A (oc_schedule (o_buffRead (oc_heap st a)) cs) st) =
    oc_signals st @ map (\<lambda>p. Op_OnReceive p (o_id (oc_heap st a))) (fst (feed op_delimiter (o_buffRead (oc_heap st a)) cs))"
  using assms
proof (induction cs arbitrary: st)
  case Nil
  show ?case by simp
next
  case (Cons c cs)
  obtain ps rest where d: "deframe op_delimiter (o_buffRead (oc_heap st a) @ c) = (ps, rest)" by fastforce
  from oc_receive_chunk [OF Cons.prems d, of A] Cons.IH show ?case
    by (auto simp: d Let_def)
qed

text \<open>A client that reads hands its program exactly the messages that were framed by the other side,
  in order, however the network cuts the stream into chunks.\<close>

theorem OClient_receives_stream:
  assumes "isRunning (oc_core st)" and "oc_pending st = [CP_Receive a]" and "oc_posted st = []"
    and "o_open (oc_heap st a)" and "o_buffRead (oc_heap st a) = []"
    and "list_all (\<lambda>p. read_until op_delimiter p = None) ps"
    and "concat cs = concat (map (\<lambda>p. p @ op_delimiter) ps)"
  shows "oc_signals (oc_steps A (oc_schedule [] cs) st) =
    oc_signals st @ map (\<lambda>p. Op_OnReceive p (o_id (oc_heap st a))) ps"
  using oc_receive_chunks [of a st A cs] assms op_frame.feed_frames [of ps cs]
  by (simp add: oc_reading_def list_all_iff)

section \<open>Making a session\<close>

text \<open>The bytes of the two requests of a client.\<close>

definition login_bytes :: "archive \<Rightarrow> uuid \<Rightarrow> uuid \<Rightarrow> StreamType \<Rightarrow> byte list" where
  "login_bytes A c i t = SerializeToBuffer A (OClient_login_event
     ((OSession_Construct 0 0)\<lparr>o_clientId := c, o_id := i, o_type := t\<rparr>)) []"

definition greeting_bytes :: "archive \<Rightarrow> byte list" where
  "greeting_bytes A = SerializeToBuffer A OClient_ready_event []"

lemma login_event_sel [simp]:
  "ev_has_login (OClient_login_event s)" "ev_has_greeting (OClient_login_event s) = False"
  "Login_client_id (ev_login (OClient_login_event s)) = Inr (o_clientId s)"
  "Login_session_id (ev_login (OClient_login_event s)) = Inr (o_id s)"
  "Login_type (ev_login (OClient_login_event s)) = Inr (o_type s)"
  by (simp_all add: OClient_login_event_def Event_set_login_def Login_set_type_def Login_set_session_id_def
      Login_set_client_id_def Login_client_id_def Login_session_id_def Login_type_def Event_new_def)

lemma ready_event_sel [simp]:
  "\<not> ev_has_login OClient_ready_event" "ev_has_greeting OClient_ready_event"
  "Event_greeting OClient_ready_event = Inr (Greeting_set_ready Greeting_new)"
  "Greeting_ready (Greeting_set_ready Greeting_new) = Inr True"
  by (simp_all add: OClient_ready_event_def Event_set_greeting_def Event_new_def Event_greeting_def
      Greeting_ready_def Greeting_set_ready_def)

lemma greeting_bytes_read:
  assumes "archive_ok A"
  shows "read_until op_delimiter (greeting_bytes A @ rest) = Some (length (greeting_bytes A))"
    and "DeserializeFromBuffer A (greeting_bytes A @ rest) (length (greeting_bytes A)) = Inr OClient_ready_event"
  using event_roundtrip [OF assms, of OClient_ready_event rest] by (auto simp: greeting_bytes_def)

text \<open>Two clients that have logged in, and of which the first has greeted.\<close>

definition both_logged_in :: "px_event list" where
  "both_logged_in =
     [PE_Accept 0 ec_ok True (0, 0), PE_Accept 0 ec_ok True (0, 0), PE_Run 0, PE_Run 0,
      PE_Read 1 ec_ok (login_bytes sample_archive 1 3 DOWNSREAM), PE_Run 0,
      PE_Read 1 ec_ok (login_bytes sample_archive 2 3 UPSTREAM), PE_Run 0,
      PE_Read 1 ec_ok (greeting_bytes sample_archive)]"

definition px_script :: "px_event list \<Rightarrow> OProxy" where
  "px_script es = (case px_steps sample_archive es (Proxy_Start Listens (0, 0) Proxy_Construct) of
     Done st \<Rightarrow> st | _ \<Rightarrow> Proxy_Construct)"

text \<open>A session that was made: the sessions 0 and 1 are read for the relay.\<close>

definition session_made :: "px_event list" where
  "session_made =
     [PE_Accept 0 ec_ok True (0, 0), PE_Accept 0 ec_ok True (0, 0), PE_Run 0, PE_Run 0,
      PE_Read 1 ec_ok (login_bytes sample_archive 1 3 DOWNSREAM), PE_Run 0, PE_Read 2 ec_ok (greeting_bytes sample_archive), PE_Run 0,
      PE_Read 1 ec_ok (login_bytes sample_archive 2 3 UPSTREAM), PE_Run 0, PE_Read 2 ec_ok (greeting_bytes sample_archive),
      PE_Write 2 ec_ok, PE_Write 2 ec_ok, PE_Run 0]"

lemma px_steps_append: "px_steps A (es @ fs) st = bind_run (px_steps A es st) (px_steps A fs)"
proof (induction es arbitrary: st)
  case (Cons e es)
  then have "px_steps A (es @ fs) = (\<lambda>s. bind_run (px_steps A es s) (px_steps A fs))" by blast
  then show ?case by (simp add: bind_run_assoc)
qed simp

lemma px_script_step:
  assumes "case px_steps sample_archive (es @ [e]) (Proxy_Start Listens (0, 0) Proxy_Construct) of Done st \<Rightarrow> True | _ \<Rightarrow> False"
  shows "px_step sample_archive e (px_script es) = Done (px_script (es @ [e]))"
proof -
  from assms have "px_steps sample_archive (es @ [e]) (Proxy_Start Listens (0, 0) Proxy_Construct) = Done (px_script (es @ [e]))"
    by (simp add: px_script_def split: run.splits)
  then obtain s where "px_steps sample_archive es (Proxy_Start Listens (0, 0) Proxy_Construct) = Done s"
      "px_step sample_archive e s = Done (px_script (es @ [e]))"
    unfolding px_steps_append by (auto simp del: px_step.simps)
  then show ?thesis by (simp add: px_script_def del: px_step.simps)
qed

lemma px_reachable_steps: "px_reachable A st \<Longrightarrow> px_steps A es st = Done t \<Longrightarrow> px_reachable A t"
  by (induction es arbitrary: st) (auto intro: px_reachable.step)

lemma px_script_reachable:
  assumes "case px_steps sample_archive es (Proxy_Start Listens (0, 0) Proxy_Construct) of Done st \<Rightarrow> True | _ \<Rightarrow> False"
  shows "px_reachable sample_archive (px_script es)"
proof -
  from assms have "px_steps sample_archive es (Proxy_Start Listens (0, 0) Proxy_Construct) = Done (px_script es)"
    by (simp add: px_script_def split: run.splits)
  from px_reachable_steps [OF px_reachable.start this] show ?thesis .
qed

lemma px_history_exists: "px_reachable A st \<Longrightarrow> \<exists>inp out. px_history A st inp out"
  by (induction rule: px_reachable.induct) (blast intro: px_history.intros)+

text \<open>Concrete states for the witnesses.\<close>

definition connected_client :: "(addr \<Rightarrow> oc_op) \<Rightarrow> OClient" where
  "connected_client x = (OClient_Construct DOWNSREAM 1)\<lparr>
     oc_heap := (\<lambda>_. (OSession_Construct 0 0)\<lparr>o_open := True, o_isReady := True, o_id := 3\<rparr>), oc_fresh := 1,
     oc_mgr := [(3, 0)], oc_pending := [x 0]\<rparr>"

definition intruded_proxy :: OProxy where
  "intruded_proxy = (let st = px_script (session_made @ [PE_Accept 0 ec_ok True (0, 0), PE_Run 0])
     in st\<lparr>px_pending := [PO_Initialize 2]\<rparr>)"


text \<open>The greeting of the other side makes a client session ready, and the client goes on to read
  data. But it empties the buffer of the greeting altogether: what had arrived behind the
  greeting, the first data of the other side, is dropped and never read.\<close>

theorem OClient_ready_drops_data:
  assumes "archive_ok A" and "isRunning (oc_core st)" and "i < length (oc_pending st)"
    and "oc_pending st ! i = CP_ReceiveReady a" and "o_open (oc_heap st a)" and "o_buffWrite (oc_heap st a) = []"
    and "t = oc_step A (OE_Read i ec_ok (greeting_bytes A @ early)) st"
  shows "oc_signals t = oc_signals st @ [Op_OnReady (o_id (oc_heap st a))] \<and> o_isReady (oc_heap t a) \<and>
    oc_posted t = oc_posted st @ [CT_Receive a] \<and>
    o_buffWrite (oc_heap t a) = [] \<and> o_buffRead (oc_heap t a) = o_buffRead (oc_heap st a)"
  using assms(2-) greeting_bytes_read [OF assms(1), of early]
  by (simp add: oc_complete_def oc_read_ready_def OClient_HandleReceiveReady_def Let_def)


theorem OClient_ready_drops_data_witness:
  "o_buffRead (oc_heap (oc_step sample_archive (OE_Read 0 ec_ok (greeting_bytes sample_archive @ [9, 9])) (connected_client CP_ReceiveReady)) 0) = [] \<and>
   o_buffWrite (oc_heap (oc_step sample_archive (OE_Read 0 ec_ok (greeting_bytes sample_archive @ [9, 9])) (connected_client CP_ReceiveReady)) 0) = []"
  using OClient_ready_drops_data [OF sample_archive_ok, of "connected_client CP_ReceiveReady" 0 0 _ "[9, 9]"]
  by (simp add: connected_client_def OClient_Construct_def OSession_Construct_def Core_Run_def Core_Construct_def)

text \<open>One read of the proxy that delivers a login or a greeting.\<close>

lemma px_session_twice: "px_session a f (px_session a g st) = px_session a (\<lambda>s. f (g s)) st"
  by (simp add: px_session_def)

lemma px_session_cong: "f (px_heap st a) = g (px_heap st a) \<Longrightarrow> px_session a f st = px_session a g st"
  by (simp add: px_session_def)

lemma px_login_step:
  assumes "archive_ok A" and "isRunning (px_core st)" and "i < length (px_pending st)"
    and "px_pending st ! i = PO_Initialize a" and "o_open (px_heap st a)" and "o_buffWrite (px_heap st a) = []"
    and s_def: "s = px_session a (\<lambda>s. s\<lparr>o_clientId := c, o_id := k, o_type := t, o_buffWrite := []\<rparr>) (px_drop i st)"
  shows "px_step A (PE_Read i ec_ok (login_bytes A c k t)) st =
    Done (case OProxyMgr_AddSession (px_heap s) a (px_mgr s) of
       Inl e \<Rightarrow> px_remove k s | Inr m \<Rightarrow> px_post (PT_Initialize a) (s\<lparr>px_mgr := m\<rparr>))"
proof -
  let ?l = "login_bytes A c k t"
  let ?ev = "OClient_login_event ((OSession_Construct 0 0)\<lparr>o_clientId := c, o_id := k, o_type := t\<rparr>)"
  let ?u = "px_session a (\<lambda>s. s\<lparr>o_buffWrite := o_buffWrite s @ ?l\<rparr>) (px_drop i st)"
  from event_roundtrip [OF assms(1), of ?ev "[]"]
  have r: "read_until op_delimiter ?l = Some (length ?l)" "DeserializeFromBuffer A ?l (length ?l) = Inr ?ev"
    by (auto simp: login_bytes_def)
  have "px_session a (OSession_SetType t \<circ> OSession_SetId k \<circ> OSession_SetClientId c)
      (px_session a (\<lambda>s. s\<lparr>o_buffWrite := drop (length ?l) (o_buffWrite s)\<rparr>) ?u) = s"
    unfolding s_def px_session_twice by (rule px_session_cong) (simp add: assms(6))
  then have eq: "Proxy_InitializeCatch a (Proxy_Login a (length ?l) (ev_login ?ev) ?u) =
      (case OProxyMgr_AddSession (px_heap s) a (px_mgr s) of
         Inl e \<Rightarrow> px_remove (o_id (px_heap s a)) s | Inr m \<Rightarrow> px_post (PT_Initialize a) (s\<lparr>px_mgr := m\<rparr>))"
    unfolding Proxy_Login_def Let_def
    by (simp only: login_event_sel sum.case prod.case OSession_Construct_def OSession.simps)
      (simp add: Proxy_InitializeCatch_def split: sum.split)
  have k: "o_id (px_heap s a) = k" by (simp add: s_def)
  have step: "px_step A (PE_Read i ec_ok ?l) st = Done (Proxy_InitializeCatch a (Proxy_Login a (length ?l) (ev_login ?ev) ?u))"
    using assms(2-6) r by (simp add: px_complete_def px_read_init_def Proxy_HandleInitialize_def Let_def)
  show ?thesis unfolding step eq k ..
qed

text \<open>A login that asks for a taken side of a session is refused, but the refusal closes the session:
  both sockets of the pair that was there are closed and the pair is removed, while the client
  that was refused stays connected.\<close>

theorem Proxy_refused_login_closes_session:
  assumes "archive_ok A" and "isRunning (px_core st)" and "i < length (px_pending st)"
    and "px_pending st ! i = PO_Initialize a" and "o_open (px_heap st a)" and "o_buffWrite (px_heap st a) = []"
    and "map_of (px_mgr st) k = Some p" and "pair_down p = Some d" and "pair_up p = Some u" and "a \<noteq> d" and "a \<noteq> u"
  shows "\<exists>t. px_step A (PE_Read i ec_ok (login_bytes A c k DOWNSREAM)) st = Done t \<and>
    \<not> o_open (px_heap t d) \<and> \<not> o_open (px_heap t u) \<and> map_of (px_mgr t) k = None \<and>
    o_open (px_heap t a) \<and> px_pending t = remove_at i (px_pending st) \<and> px_posted t = px_posted st"
proof -
  let ?s = "px_session a (\<lambda>s. s\<lparr>o_clientId := c, o_id := k, o_type := DOWNSREAM, o_buffWrite := []\<rparr>) (px_drop i st)"
  from assms(7,8) have "OProxyMgr_AddSession (px_heap ?s) a (px_mgr ?s) =
      Inl (runtime_error ''Down stream session has alredy initilized'')"
    by (simp add: OProxyMgr_AddSession_def)
  with px_login_step [OF assms(1-6) refl, of c k DOWNSREAM]
  have "px_step A (PE_Read i ec_ok (login_bytes A c k DOWNSREAM)) st = Done (px_remove k ?s)" by simp
  moreover have "map_of (um_erase k (px_mgr st)) k = None" by (simp add: um_simps)
  ultimately show ?thesis
    using assms(5,7-11) by (auto simp: px_remove_def OProxyMgr_RemoveSession_def Let_def)
qed


theorem Proxy_refused_login_closes_session_witness:
  "\<exists>t. px_step sample_archive (PE_Read 0 ec_ok (login_bytes sample_archive 9 3 DOWNSREAM)) intruded_proxy = Done t \<and>
    map_of (px_mgr t) 3 = None \<and> o_open (px_heap t 2)"
proof -
  have "isRunning (px_core intruded_proxy)" "0 < length (px_pending intruded_proxy)"
    "px_pending intruded_proxy ! 0 = PO_Initialize 2" "o_open (px_heap intruded_proxy 2)"
    "o_buffWrite (px_heap intruded_proxy 2) = []"
    "map_of (px_mgr intruded_proxy) 3 = Some \<lparr>pair_down = Some 0, pair_up = Some 1\<rparr>" by code_simp+
  from Proxy_refused_login_closes_session [OF sample_archive_ok this, of 0 1 9] show ?thesis by auto
qed











section \<open>Greetings that race\<close>

text \<open>When both clients have logged in before the first greets, the greetings race with the writes
  they start. If the second greets before the writes of the first have completed, it is sent
  the greeting of the first twice; if a part of its greeting arrives before, that part is
  thrown away with the buffer, the rest is not understood, and the session is closed.\<close>

theorem Proxy_greetings_race:
  "px_wire (px_script (both_logged_in @ [PE_Read 1 ec_ok (greeting_bytes sample_archive),
       PE_Write 1 ec_ok, PE_Write 1 ec_ok, PE_Write 1 ec_ok, PE_Write 1 ec_ok])) =
     [(1, greeting_bytes sample_archive), (0, []), (0, greeting_bytes sample_archive), (1, greeting_bytes sample_archive)] \<and>
   (let st = px_script (both_logged_in @ [PE_Read 1 ec_ok (take 3 (greeting_bytes sample_archive)),
         PE_Write 3 ec_ok, PE_Read 1 ec_ok (drop 3 (greeting_bytes sample_archive))])
    in \<not> o_open (px_heap st 0) \<and> \<not> o_open (px_heap st 1) \<and> px_mgr st = [])"
  by code_simp

section \<open>Witnesses for the relay and the client\<close>

theorem Proxy_relays_to_opposite_witness:
  "\<exists>p n. map_of (px_mgr (px_script (session_made @ [PE_Read 1 ec_ok (5 # op_delimiter)]))) 3 = Some p \<and>
    opposite DOWNSREAM p = Some 1 \<and> 5 # op_delimiter = take n (o_buffRead (px_heap (px_script (session_made @ [PE_Read 1 ec_ok (5 # op_delimiter)])) 0))"
proof -
  let ?t = "px_script (session_made @ [PE_Read 1 ec_ok (5 # op_delimiter)])"
  have "px_step sample_archive (PE_Read 1 ec_ok (5 # op_delimiter)) (px_script session_made) = Done ?t"
    by (rule px_script_step) code_simp
  moreover have "px_pending ?t = [PO_Accept 2, PO_Receive 1, PO_Send 1 0 (5 # op_delimiter)]"
    "px_pending (px_script session_made) = [PO_Accept 2, PO_Receive 0, PO_Receive 1]"
    "o_id (px_heap ?t 0) = 3" "o_type (px_heap ?t 0) = DOWNSREAM" by code_simp+
  ultimately show ?thesis
    using Proxy_relays_to_opposite [of sample_archive "PE_Read 1 ec_ok (5 # op_delimiter)" "px_script session_made" ?t 1 0 "5 # op_delimiter"]
    by auto
qed

theorem Proxy_relay_exact_witness:
  "\<exists>inp out. px_history sample_archive (px_script session_made) inp out \<and>
    inp 0 = concat (map snd (out 0)) @ o_buffRead (px_heap (px_script session_made) 0)"
proof -
  have "px_reachable sample_archive (px_script session_made)" by (rule px_script_reachable) code_simp
  then obtain inp out where "px_history sample_archive (px_script session_made) inp out"
    using px_history_exists by blast
  with Proxy_relay_exact [OF this, of 0] show ?thesis by blast
qed

text \<open>A client that has gone through login and greeting.\<close>

definition ready_client :: OClient where
  "ready_client = oc_steps sample_archive
     [OE_Connect 3 (0, 0), OE_Resolved 0 ec_ok default_endpoint, OE_Run 0, OE_Connected 0 ec_ok, OE_Run 0,
      OE_Written 0 ec_ok, OE_Run 0, OE_Written 0 ec_ok, OE_Run 0, OE_Read 0 ec_ok (greeting_bytes sample_archive)]
     (OClient_Construct DOWNSREAM 1)"

lemma oc_reachable_steps: "oc_reachable A st \<Longrightarrow> oc_reachable A (oc_steps A es st)"
  by (induction es arbitrary: st) (simp_all add: oc_reachable.step)

theorem OClient_send_fifo_witness:
  "\<exists>t log. oc_queue.run [Enqueue (3, [7]), Enqueue (4, [8]), Enqueue (3, [9]), Complete] (ready_client, []) = Some (t, log) \<and>
    log @ oc_sendQueue t = [(3, [7]), (3, [9])]"
proof -
  have "oc_reachable sample_archive ready_client"
    unfolding ready_client_def by (rule oc_reachable_steps, rule oc_reachable.start)
  moreover have "oc_admit ready_client (3, [7])" "\<not> oc_admit ready_client (4, [8])" "oc_admit ready_client (3, [9])"
    "oc_sendQueue ready_client = []" by code_simp+
  ultimately show ?thesis
    using OClient_send_fifo [of sample_archive ready_client "[Enqueue (3, [7]), Enqueue (4, [8]), Enqueue (3, [9]), Complete]"]
    by simp
qed

theorem OClient_receives_stream_witness:
  "oc_signals (oc_steps sample_archive (oc_schedule [] [[5], op_delimiter @ [6], op_delimiter]) (connected_client CP_Receive)) =
    [Op_OnReceive [5] 3, Op_OnReceive [6] 3]"
  using OClient_receives_stream [of "connected_client CP_Receive" 0 "[[5], [6]]" "[[5], op_delimiter @ [6], op_delimiter]" sample_archive]
  by (simp add: connected_client_def OClient_Construct_def OSession_Construct_def Core_Run_def Core_Construct_def
      op_delimiter_def starts_with_def)

end
