(* ===== verification/Icmp_Header.thy ===== *)
theory Icmp_Header
  imports Asio
begin

text \<open>
  The packet headers of the ICMP scanner (\<open>icmp_header.hpp\<close>, \<open>ipv4_header.hpp\<close>): a header is
  the bytes of its array, read from a \<open>std::istream\<close> and written as they are. The checksum is
  computed on a 32-bit sum, as in the code, and is shown equal to the one's-complement sum of
  RFC 1071, stated over natural numbers with the end-around carry of each addition.
\<close>

section \<open>Input streams\<close>

text \<open>
  The bytes that are left and the fail state. \<open>read\<close> into an array at an offset does nothing
  on a failed stream, and fails when it runs out of bytes; what it got is in the array then.
\<close>

record istream =
  is_data :: "byte list"
  is_fail :: bool

definition istream_of :: "byte list \<Rightarrow> istream" where
  "istream_of bs = \<lparr>is_data = bs, is_fail = False\<rparr>"

definition is_read :: "nat \<Rightarrow> nat \<Rightarrow> byte list \<times> istream \<Rightarrow> byte list \<times> istream" where
  "is_read off n r =
     (case r of (rep, s) \<Rightarrow>
        if is_fail s then (rep, s)
        else
          (let got = take n (is_data s)
           in (take off rep @ got @ drop (off + length got) rep,
               \<lparr>is_data = drop n (is_data s), is_fail = length (is_data s) < n\<rparr>)))"

text \<open>\<open>operator>>\<close> into a \<open>std::string\<close>: white space is skipped, the word ends before the next.\<close>

definition is_space :: "byte \<Rightarrow> bool" where
  "is_space b \<longleftrightarrow> b = 32 \<or> (9 \<le> b \<and> b \<le> 13)"

definition is_word :: "istream \<Rightarrow> byte list \<times> istream" where
  "is_word s =
     (if is_fail s then ([], s)
      else
        (let r = dropWhile is_space (is_data s); w = takeWhile (\<lambda>b. \<not> is_space b) r
         in (w, \<lparr>is_data = drop (length w) r, is_fail = (w = [])\<rparr>)))"

lemma is_read_ok:
  "n \<le> length bs \<Longrightarrow> is_read off n (rep, istream_of bs) =
     (take off rep @ take n bs @ drop (off + n) rep, istream_of (drop n bs))"
  by (simp add: is_read_def istream_of_def min_absorb2)

lemma is_word_all:
  "w \<noteq> [] \<Longrightarrow> list_all (\<lambda>b. \<not> is_space b) w \<Longrightarrow> fst (is_word (istream_of w)) = w"
  by (cases w) (simp_all add: is_word_def istream_of_def Let_def list_all_iff takeWhile_eq_all_conv)

section \<open>Two bytes in network order\<close>

definition decode :: "nat \<Rightarrow> nat \<Rightarrow> byte list \<Rightarrow> u16" where
  "decode a b rep = push_bit 8 (ucast (rep ! a)) + ucast (rep ! b)"

definition encode :: "nat \<Rightarrow> nat \<Rightarrow> u16 \<Rightarrow> byte list \<Rightarrow> byte list" where
  "encode a b n rep = rep[a := ucast (drop_bit 8 n), b := ucast (n AND 0xFF)]"

lemma length_encode [simp]: "length (encode a b n rep) = length rep"
  by (simp add: encode_def)

lemma unat_byte: "unat (x :: byte) \<le> 255"
  using unsigned_less [of x, where 'a = nat] by simp

lemma unat_u16: "unat (x :: u16) \<le> 65535"
  using unsigned_less [of x, where 'a = nat] by simp

lemma unat_be16: "unat (push_bit 8 (ucast (x :: byte)) + ucast (y :: byte) :: u16) = 256 * unat x + unat y"
  using unat_byte [of x] unat_byte [of y]
  by (simp add: push_bit_eq_mult unat_word_ariths unsigned_ucast_eq take_bit_eq_mod mult.commute)

lemma unat_decode: "unat (decode a b rep) = 256 * unat (rep ! a) + unat (rep ! b)"
  by (simp add: decode_def unat_be16)

lemma be16_halves: "push_bit 8 (ucast (ucast (drop_bit 8 n) :: byte)) + ucast (ucast (n AND 0xFF) :: byte) = (n :: u16)"
proof -
  have n: "unat n < 65536" using unat_u16 [of n] by simp
  have tb: "n AND 0xFF = take_bit 8 n"
    by (simp add: take_bit_eq_mask mask_eq_exp_minus_1)
  have "unat (n AND 0xFF) = unat n mod 256"
    unfolding tb unsigned_take_bit_eq by (simp only: take_bit_eq_mod) simp
  then have lo: "unat (ucast (n AND 0xFF) :: byte) = unat n mod 256"
    by (simp add: unsigned_ucast_eq take_bit_eq_mod)
  have "unat (drop_bit 8 n) = unat n div 256"
    unfolding unat_drop_bit_eq by (simp add: drop_bit_eq_div)
  moreover have "unat n div 256 < 256" using n by (simp add: less_mult_imp_div_less)
  ultimately have "unat (ucast (drop_bit 8 n) :: byte) = unat n div 256"
    by (simp only: unsigned_ucast_eq take_bit_eq_mod) simp
  with lo show ?thesis
    unfolding word_unat_eq_iff unat_be16 by simp
qed

lemma decode_encode [simp]:
  "a < length rep \<Longrightarrow> b < length rep \<Longrightarrow> a \<noteq> b \<Longrightarrow> decode a b (encode a b n rep) = n"
  by (simp add: decode_def encode_def be16_halves)

lemma decode_encode_other [simp]:
  "c \<notin> {a, b} \<Longrightarrow> d \<notin> {a, b} \<Longrightarrow> decode c d (encode a b n rep) = decode c d rep"
  by (simp add: decode_def encode_def)


section \<open>\<open>icmp_header\<close>\<close>

type_synonym icmp_header = "byte list"

definition echo_reply :: byte where "echo_reply = 0"
definition echo_request :: byte where "echo_request = 8"

definition icmp_header_new :: icmp_header where
  "icmp_header_new = replicate 8 0"

definition icmp_type :: "icmp_header \<Rightarrow> byte" where "icmp_type rep = rep ! 0"
definition icmp_code :: "icmp_header \<Rightarrow> byte" where "icmp_code rep = rep ! 1"
definition icmp_checksum :: "icmp_header \<Rightarrow> u16" where "icmp_checksum rep = decode 2 3 rep"
definition icmp_identifier :: "icmp_header \<Rightarrow> u16" where "icmp_identifier rep = decode 4 5 rep"
definition icmp_sequence_number :: "icmp_header \<Rightarrow> u16" where "icmp_sequence_number rep = decode 6 7 rep"

definition icmp_set_type :: "byte \<Rightarrow> icmp_header \<Rightarrow> icmp_header" where "icmp_set_type n rep = rep[0 := n]"
definition icmp_set_code :: "byte \<Rightarrow> icmp_header \<Rightarrow> icmp_header" where "icmp_set_code n rep = rep[1 := n]"
definition icmp_set_checksum :: "u16 \<Rightarrow> icmp_header \<Rightarrow> icmp_header" where "icmp_set_checksum n rep = encode 2 3 n rep"
definition icmp_set_identifier :: "u16 \<Rightarrow> icmp_header \<Rightarrow> icmp_header" where "icmp_set_identifier n rep = encode 4 5 n rep"
definition icmp_set_sequence_number :: "u16 \<Rightarrow> icmp_header \<Rightarrow> icmp_header" where
  "icmp_set_sequence_number n rep = encode 6 7 n rep"

definition icmp_read :: "istream \<Rightarrow> icmp_header \<times> istream" where
  "icmp_read s = is_read 0 8 (icmp_header_new, s)"

text \<open>What \<open>operator<<\<close> puts on the stream.\<close>

definition icmp_write :: "icmp_header \<Rightarrow> byte list" where
  "icmp_write rep = take 8 rep"

lemmas icmp_get_defs = icmp_type_def icmp_code_def icmp_checksum_def icmp_identifier_def icmp_sequence_number_def
lemmas icmp_set_defs = icmp_set_type_def icmp_set_code_def icmp_set_checksum_def icmp_set_identifier_def
  icmp_set_sequence_number_def

lemma length_icmp_set [simp]:
  "length icmp_header_new = 8" "length (icmp_set_type t h) = length h" "length (icmp_set_code c h) = length h"
  "length (icmp_set_checksum k h) = length h" "length (icmp_set_identifier k h) = length h"
  "length (icmp_set_sequence_number k h) = length h"
  by (simp_all add: icmp_set_defs icmp_header_new_def)

lemma encode_nth [simp]: "c \<notin> {a, b} \<Longrightarrow> encode a b n rep ! c = rep ! c"
  by (simp add: encode_def)

lemma decode_update [simp]: "c \<notin> {a, b} \<Longrightarrow> decode a b (rep[c := x]) = decode a b rep"
  by (simp add: decode_def)

text \<open>Each setter is read back and leaves the other fields.\<close>

lemma icmp_fields [simp]:
  assumes "length h = 8"
  shows "icmp_type (icmp_set_type t h) = t" "icmp_identifier (icmp_set_type t h) = icmp_identifier h"
    "icmp_code (icmp_set_type t h) = icmp_code h" "icmp_checksum (icmp_set_type t h) = icmp_checksum h"
    "icmp_sequence_number (icmp_set_type t h) = icmp_sequence_number h"
    "icmp_identifier (icmp_set_identifier k h) = k" "icmp_type (icmp_set_identifier k h) = icmp_type h"
    "icmp_code (icmp_set_identifier k h) = icmp_code h" "icmp_checksum (icmp_set_identifier k h) = icmp_checksum h"
    "icmp_sequence_number (icmp_set_identifier k h) = icmp_sequence_number h"
    "icmp_checksum (icmp_set_checksum k h) = k" "icmp_type (icmp_set_checksum k h) = icmp_type h"
    "icmp_code (icmp_set_checksum k h) = icmp_code h" "icmp_identifier (icmp_set_checksum k h) = icmp_identifier h"
    "icmp_sequence_number (icmp_set_checksum k h) = icmp_sequence_number h"
  using assms by (simp_all add: icmp_get_defs icmp_set_defs)

section \<open>The checksum\<close>

fun checksum_loop :: "byte list \<Rightarrow> u32 \<Rightarrow> u32" where
  "checksum_loop [] acc = acc"
| "checksum_loop [x] acc = acc + push_bit 8 (ucast x)"
| "checksum_loop (x # y # r) acc = checksum_loop r (acc + push_bit 8 (ucast x) + ucast y)"

definition checksum_fold :: "u32 \<Rightarrow> u32" where
  "checksum_fold acc =
     (let sum1 = drop_bit 16 acc + (acc AND 0xFFFF) in sum1 + drop_bit 16 sum1)"

definition compute_checksum :: "icmp_header \<Rightarrow> byte list \<Rightarrow> icmp_header" where
  "compute_checksum h body =
     (let acc = push_bit 8 (ucast (icmp_type h)) + ucast (icmp_code h)
            + ucast (icmp_identifier h) + ucast (icmp_sequence_number h)
      in icmp_set_checksum (ucast (NOT (checksum_fold (checksum_loop body acc)))) h)"

text \<open>
  RFC 1071: the packet is a sequence of 16-bit words in network order, an odd last byte is
  padded with zero, and the words are added with end-around carry. A receiver accepts the
  packet when the sum, the checksum field included, is all ones.
\<close>

fun be_words :: "byte list \<Rightarrow> nat list" where
  "be_words [] = []"
| "be_words [x] = [256 * unat x]"
| "be_words (x # y # r) = (256 * unat x + unat y) # be_words r"

definition ones_add :: "nat \<Rightarrow> nat \<Rightarrow> nat" where
  "ones_add a b = (let s = a + b in if 65535 < s then s - 65535 else s)"

definition rfc1071_sum :: "byte list \<Rightarrow> nat" where
  "rfc1071_sum bs = foldl ones_add 0 (be_words bs)"

text \<open>The one's-complement value of a natural number: zero, or a residue in 1 .. 65535.\<close>

definition ones_norm :: "nat \<Rightarrow> nat" where
  "ones_norm n = (if n = 0 then 0 else (n - 1) mod 65535 + 1)"

lemma ones_norm_le: "ones_norm n \<le> 65535"
  by (simp add: ones_norm_def Suc_le_eq)

lemma ones_norm_small: "n \<le> 65535 \<Longrightarrow> ones_norm n = n"
  by (simp add: ones_norm_def)

lemma ones_norm_period: "0 < n \<Longrightarrow> ones_norm (n + 65535 * k) = ones_norm n"
  by (cases n) (simp_all add: ones_norm_def)

lemma ones_norm_split: "\<exists>k. n = ones_norm n + 65535 * k"
  by (cases n) (auto simp: ones_norm_def intro!: exI [of _ "(n - 1) div 65535"])

lemma ones_norm_eq_0 [simp]: "ones_norm n = 0 \<longleftrightarrow> n = 0"
  by (simp add: ones_norm_def)

lemma ones_norm_add: "ones_norm (ones_norm n + m) = ones_norm (n + m)"
proof (cases "n = 0")
  case False
  obtain k where "n = ones_norm n + 65535 * k" using ones_norm_split by blast
  with False ones_norm_period [of "ones_norm n + m" k] show ?thesis
    by (metis add.assoc add.commute add_gr_0 neq0_conv ones_norm_eq_0)
qed (simp add: ones_norm_def)

lemma ones_add_norm: "a \<le> 65535 \<Longrightarrow> b \<le> 65535 \<Longrightarrow> ones_add a b = ones_norm (a + b)"
  using ones_norm_period [of "a + b - 65535" 1]
  by (auto simp: ones_add_def Let_def ones_norm_small)

lemma be_words_le: "list_all (\<lambda>w. w \<le> 65535) (be_words bs)"
proof (induction bs rule: be_words.induct)
  case (2 x)
  show ?case using unat_byte [of x] by simp
next
  case (3 x y r)
  then show ?case using unat_byte [of x] unat_byte [of y] by simp
qed simp

lemma foldl_ones_add:
  "list_all (\<lambda>w. w \<le> 65535) ws \<Longrightarrow> foldl ones_add (ones_norm a) ws = ones_norm (a + sum_list ws)"
proof (induction ws arbitrary: a)
  case (Cons w ws)
  then have "ones_add (ones_norm a) w = ones_norm (a + w)"
    by (simp add: ones_add_norm ones_norm_le ones_norm_add)
  with Cons show ?case by (simp add: add.assoc)
qed simp

lemma rfc1071_sum_norm: "rfc1071_sum bs = ones_norm (sum_list (be_words bs))"
  using foldl_ones_add [OF be_words_le, of 0 bs] by (simp add: rfc1071_sum_def ones_norm_def)

text \<open>The 32-bit loop adds the same words as long as the sum stays below \<open>2 ^ 32\<close>.\<close>

lemma unat_be32: "unat (push_bit 8 (ucast (x :: byte)) + ucast (y :: byte) :: u32) = 256 * unat x + unat y"
  using unat_byte [of x] unat_byte [of y]
  by (simp add: push_bit_eq_mult unat_word_ariths unsigned_ucast_eq take_bit_eq_mod mult.commute)

lemma unat_add_u32: "unat (a :: u32) + unat b < 4294967296 \<Longrightarrow> unat (a + b) = unat a + unat b"
  by (simp add: unat_word_ariths)

lemma unat_checksum_loop:
  "unat acc + sum_list (be_words bs) < 4294967296 \<Longrightarrow>
   unat (checksum_loop bs acc) = unat acc + sum_list (be_words bs)"
proof (induction bs acc rule: checksum_loop.induct)
  case (2 x acc)
  then show ?case using unat_be32 [of x 0] unat_add_u32 [of acc "push_bit 8 (ucast x)"] by simp
next
  case (3 x y r acc)
  have w: "unat (push_bit 8 (ucast x) + ucast y :: u32) = 256 * unat x + unat y"
    by (rule unat_be32)
  have "unat (acc + (push_bit 8 (ucast x) + ucast y)) = unat acc + (256 * unat x + unat y)"
    using unat_add_u32 [of acc "push_bit 8 (ucast x) + ucast y"] w "3.prems" by simp
  with 3 show ?case by (simp add: add.assoc)
qed simp

lemma unat_not_u16: "unat (ucast (NOT (w :: u32)) :: u16) = 65535 - unat w mod 65536"
proof -
  have "NOT w = - 1 - w" by (simp add: not_eq_complement)
  moreover have "w \<le> - 1" by simp
  ultimately have n: "unat (NOT w) = 4294967295 - unat w"
    by (simp add: unat_sub unsigned_minus_1_eq_mask mask_eq_exp_minus_1)
  have "unat w < 4294967296" using unsigned_less [of w, where 'a = nat] by simp
  then have "4294967295 - unat w = (65535 - unat w mod 65536) + 65536 * (65535 - unat w div 65536)"
    using mult_div_mod_eq [of 65536 "unat w"] by linarith
  then have "(4294967295 - unat w) mod 65536 = (65535 - unat w mod 65536) mod 65536"
    by (simp only: mod_mult_self2)
  then have "(4294967295 - unat w) mod 65536 = 65535 - unat w mod 65536"
    by simp
  with n show ?thesis by (simp add: unsigned_ucast_eq take_bit_eq_mod)
qed

text \<open>Folding the carries twice gives the one's-complement value of the sum.\<close>

lemma fold_carries:
  assumes "S < 4294967296"
  defines "s1 \<equiv> S div 65536 + S mod 65536"
  shows "s1 + s1 div 65536 < 4294967296" and "(s1 + s1 div 65536) mod 65536 = ones_norm S"
proof -
  have d: "S div 65536 \<le> 65535" and m: "S mod 65536 \<le> 65535" using assms(1) by simp_all
  then have le: "s1 \<le> 131070" unfolding s1_def by linarith
  then show "s1 + s1 div 65536 < 4294967296" by linarith
  have S: "S = s1 + 65535 * (S div 65536)"
    unfolding s1_def using mult_div_mod_eq [of 65536 S] by linarith
  have norm: "ones_norm S = ones_norm s1"
  proof (cases "s1 = 0")
    case True
    then have "S div 65536 = 0" by (simp add: s1_def)
    with S True show ?thesis by simp
  next
    case False
    with S ones_norm_period [of s1 "S div 65536"] show ?thesis by simp
  qed
  show "(s1 + s1 div 65536) mod 65536 = ones_norm S"
  proof (cases "s1 \<le> 65535")
    case True
    then show ?thesis by (simp add: norm ones_norm_small)
  next
    case False
    with le have e: "s1 div 65536 = 1" by linarith
    have "ones_norm s1 = ones_norm (s1 - 65535 + 65535 * 1)" using False by simp
    also have "\<dots> = ones_norm (s1 - 65535)" using False by (intro ones_norm_period) simp
    also have "\<dots> = s1 - 65535" using le by (intro ones_norm_small) simp
    also have "\<dots> = (s1 + 1) mod 65536"
    proof -
      have "s1 + 1 = (s1 - 65535) + 65536 * 1" using False by simp
      moreover have "s1 - 65535 < 65536" using le by simp
      ultimately show ?thesis by (metis mod_less mod_mult_self2)
    qed
    finally show ?thesis using norm e by simp
  qed
qed

lemma unat_checksum_fold: "unat (ucast (NOT (checksum_fold s)) :: u16) = 65535 - ones_norm (unat s)"
proof -
  let ?S = "unat s" let ?s1 = "?S div 65536 + ?S mod 65536"
  have S: "?S < 4294967296" using unsigned_less [of s, where 'a = nat] by simp
  have hi: "unat (drop_bit 16 w) = unat w div 65536" for w :: u32
    unfolding unat_drop_bit_eq by (simp add: drop_bit_eq_div)
  have tb: "s AND 0xFFFF = take_bit 16 s"
    by (simp add: take_bit_eq_mask mask_eq_exp_minus_1)
  have lo: "unat (s AND 0xFFFF) = ?S mod 65536"
    unfolding tb unsigned_take_bit_eq by (simp only: take_bit_eq_mod) simp
  have "?s1 < 4294967296" using fold_carries(1) [OF S] by linarith
  then have s1: "unat (drop_bit 16 s + (s AND 0xFFFF)) = ?s1"
    unfolding hi [symmetric] lo [symmetric] by (rule unat_add_u32)
  let ?w = "drop_bit 16 s + (s AND 0xFFFF)"
  have "unat ?w + unat (drop_bit 16 ?w) < 4294967296"
    using fold_carries(1) [OF S] by (simp only: hi s1)
  then have "unat (checksum_fold s) = ?s1 + ?s1 div 65536"
    unfolding checksum_fold_def Let_def by (simp only: unat_add_u32 hi s1)
  with fold_carries(2) [OF S] show ?thesis by (simp add: unat_not_u16)
qed

text \<open>The words of a packet: the four of the header, then those of the body.\<close>

lemma be_words_header:
  "length h = 8 \<Longrightarrow> sum_list (be_words (h @ body)) =
     256 * unat (icmp_type h) + unat (icmp_code h) + unat (icmp_checksum h)
     + unat (icmp_identifier h) + unat (icmp_sequence_number h) + sum_list (be_words body)"
proof -
  assume "length h = 8"
  then have e: "h = [h ! 0, h ! 1, h ! 2, h ! 3, h ! 4, h ! 5, h ! 6, h ! 7]"
    using map_nth [of h] by (simp add: upt_rec numeral_eq_Suc)
  have "sum_list (be_words ([a0, a1, a2, a3, a4, a5, a6, a7] @ body)) =
      256 * unat a0 + unat a1 + (256 * unat a2 + unat a3) + (256 * unat a4 + unat a5)
      + (256 * unat a6 + unat a7) + sum_list (be_words body)" for a0 a1 a2 a3 a4 a5 a6 a7
    by simp
  from this [of "h ! 0" "h ! 1" "h ! 2" "h ! 3" "h ! 4" "h ! 5" "h ! 6" "h ! 7", folded e] show ?thesis
    by (simp only: icmp_get_defs unat_decode)
qed

lemma sum_be_words: "sum_list (be_words bs) \<le> 65535 * ((length bs + 1) div 2)"
proof (induction bs rule: be_words.induct)
  case (2 x)
  show ?case using unat_byte [of x] by simp
next
  case (3 x y r)
  then show ?case using unat_byte [of x] unat_byte [of y] by simp
qed simp

text \<open>The checksum is the complement of the sum of the packet with a zero checksum field.\<close>

lemma compute_checksum_value:
  assumes h: "length h = 8" and b: "length body \<le> 131068"
  shows "unat (icmp_checksum (compute_checksum h body)) = 65535 - rfc1071_sum (icmp_set_checksum 0 h @ body)"
proof -
  let ?w0 = "push_bit 8 (ucast (icmp_type h)) + ucast (icmp_code h) :: u32"
  let ?acc = "?w0 + ucast (icmp_identifier h) + ucast (icmp_sequence_number h) :: u32"
  let ?n = "256 * unat (icmp_type h) + unat (icmp_code h) + unat (icmp_identifier h) + unat (icmp_sequence_number h)"
  have id: "unat (ucast (icmp_identifier h) :: u32) = unat (icmp_identifier h)"
    and sq: "unat (ucast (icmp_sequence_number h) :: u32) = unat (icmp_sequence_number h)"
    using unat_u16 [of "icmp_identifier h"] unat_u16 [of "icmp_sequence_number h"]
    by (simp_all add: unsigned_ucast_eq take_bit_eq_mod)
  have n: "?n \<le> 3 * 65535"
    using unat_byte [of "icmp_type h"] unat_byte [of "icmp_code h"]
      unat_u16 [of "icmp_identifier h"] unat_u16 [of "icmp_sequence_number h"] by linarith
  have acc: "unat ?acc = ?n"
    using n id sq unat_be32 [of "icmp_type h" "icmp_code h"]
      unat_add_u32 [of ?w0 "ucast (icmp_identifier h)"]
      unat_add_u32 [of "?w0 + ucast (icmp_identifier h)" "ucast (icmp_sequence_number h)"] by simp
  have "(length body + 1) div 2 \<le> 65534" using b by linarith
  with sum_be_words [of body] have "sum_list (be_words body) \<le> 65535 * 65534" by linarith
  then have "unat (checksum_loop body ?acc) = ?n + sum_list (be_words body)"
    using unat_checksum_loop [of ?acc body] acc n by simp
  moreover have "sum_list (be_words (icmp_set_checksum 0 h @ body)) = ?n + sum_list (be_words body)"
    using be_words_header [of "icmp_set_checksum 0 h" body] h by simp
  ultimately show ?thesis
    using h by (simp add: compute_checksum_def Let_def rfc1071_sum_norm unat_checksum_fold add.assoc)
qed

lemma compute_checksum_fields [simp]:
  "length h = 8 \<Longrightarrow> length (compute_checksum h body) = 8"
  "length h = 8 \<Longrightarrow> icmp_type (compute_checksum h body) = icmp_type h"
  "length h = 8 \<Longrightarrow> icmp_identifier (compute_checksum h body) = icmp_identifier h"
  by (simp_all add: compute_checksum_def Let_def)

text \<open>C11: the packet that \<open>compute_checksum\<close> completes is accepted by every receiver of RFC 1071:
  for a body of up to 131068 bytes (more than a datagram can hold) the 32-bit sum of the code
  does not lose a carry, the field it writes is the complement of the one's-complement sum of
  the packet, and the sum of the finished packet is all ones.\<close>

theorem Icmp_checksum_rfc1071:
  assumes "length h = 8" and "length body \<le> 131068"
  shows "unat (icmp_checksum (compute_checksum h body)) = 65535 - rfc1071_sum (icmp_set_checksum 0 h @ body) \<and>
    rfc1071_sum (icmp_write (compute_checksum h body) @ body) = 65535"
proof -
  let ?h = "compute_checksum h body" let ?z = "icmp_set_checksum 0 h"
  let ?S = "sum_list (be_words (?z @ body))"
  have c: "unat (icmp_checksum ?h) = 65535 - rfc1071_sum (?z @ body)"
    by (rule compute_checksum_value [OF assms])
  have "sum_list (be_words (?h @ body)) = ?S + unat (icmp_checksum ?h)"
    using be_words_header [of ?h body] be_words_header [of ?z body] assms(1)
    by (simp add: compute_checksum_def Let_def)
  then have "rfc1071_sum (?h @ body) = ones_norm (?S + (65535 - ones_norm ?S))"
    using c by (simp add: rfc1071_sum_norm)
  also have "\<dots> = ones_norm (ones_norm ?S + (65535 - ones_norm ?S))"
    by (rule ones_norm_add [symmetric])
  also have "\<dots> = 65535" using ones_norm_le [of ?S] by (simp add: ones_norm_small)
  finally show ?thesis using c assms(1) by (simp add: icmp_write_def)
qed

lemma Icmp_checksum_rfc1071_witness:
  "rfc1071_sum (icmp_write (compute_checksum (icmp_set_type echo_request icmp_header_new) [0xFF, 0xFE, 1]) @ [0xFF, 0xFE, 1]) = 65535 \<and>
   icmp_checksum (compute_checksum (icmp_set_type echo_request icmp_header_new) [0xFF, 0xFE, 1]) = 0xF700"
proof
  show "rfc1071_sum (icmp_write (compute_checksum (icmp_set_type echo_request icmp_header_new) [0xFF, 0xFE, 1]) @ [0xFF, 0xFE, 1]) = 65535"
    using Icmp_checksum_rfc1071 [of "icmp_set_type echo_request icmp_header_new" "[0xFF, 0xFE, 1]"] by simp
  show "icmp_checksum (compute_checksum (icmp_set_type echo_request icmp_header_new) [0xFF, 0xFE, 1]) = 0xF700"
    by code_simp
qed

end
