(* ===== verification/Icmp_Scanner.thy ===== *)
theory Icmp_Scanner
  imports Icmp_Header
begin

text \<open>
  The ICMP scanner (\<open>ICMPScanner.cpp\<close>, \<open>Runnable.cpp\<close>, \<open>ipv4_header.hpp\<close>): a scan session
  sends an echo request to every address of a range, one send after the completion of the
  previous one, and lives until no request was sent and no reply was seen for 40 seconds.
  The handlers of the \<open>io_service\<close> and the calls of \<open>Scan\<close> are the steps of a machine.

  The printing and the parsing of a uuid (Boost.Uuid) are the parameters \<open>uu_print\<close> and
  \<open>uu_parse\<close>; \<open>unsigned long\<close> has 32 bits (the program calls \<open>GetCurrentProcessId\<close>).
\<close>

section \<open>\<open>ipv4_header\<close>\<close>

type_synonym ipv4_header = "byte list"

definition ipv4_header_new :: ipv4_header where
  "ipv4_header_new = replicate 60 0"

definition ipv4_version :: "ipv4_header \<Rightarrow> byte" where "ipv4_version rep = drop_bit 4 (rep ! 0) AND 0xF"
definition ipv4_header_length :: "ipv4_header \<Rightarrow> u16" where "ipv4_header_length rep = ucast (rep ! 0 AND 0xF) * 4"
definition ipv4_type_of_service :: "ipv4_header \<Rightarrow> byte" where "ipv4_type_of_service rep = rep ! 1"
definition ipv4_total_length :: "ipv4_header \<Rightarrow> u16" where "ipv4_total_length rep = decode 2 3 rep"
definition ipv4_identification :: "ipv4_header \<Rightarrow> u16" where "ipv4_identification rep = decode 4 5 rep"
definition ipv4_dont_fragment :: "ipv4_header \<Rightarrow> bool" where "ipv4_dont_fragment rep \<longleftrightarrow> rep ! 6 AND 0x40 \<noteq> 0"
definition ipv4_more_fragments :: "ipv4_header \<Rightarrow> bool" where "ipv4_more_fragments rep \<longleftrightarrow> rep ! 6 AND 0x20 \<noteq> 0"
definition ipv4_fragment_offset :: "ipv4_header \<Rightarrow> u16" where "ipv4_fragment_offset rep = decode 6 7 rep AND 0x1FFF"
definition ipv4_time_to_live :: "ipv4_header \<Rightarrow> u32" where "ipv4_time_to_live rep = ucast (rep ! 8)"
definition ipv4_protocol :: "ipv4_header \<Rightarrow> byte" where "ipv4_protocol rep = rep ! 9"
definition ipv4_header_checksum :: "ipv4_header \<Rightarrow> u16" where "ipv4_header_checksum rep = decode 10 11 rep"

definition address_of_bytes :: "byte \<Rightarrow> byte \<Rightarrow> byte \<Rightarrow> byte \<Rightarrow> u32" where
  "address_of_bytes a b c d =
     push_bit 24 (ucast a) OR push_bit 16 (ucast b) OR push_bit 8 (ucast c) OR ucast d"

definition ipv4_source_address :: "ipv4_header \<Rightarrow> u32" where
  "ipv4_source_address rep = address_of_bytes (rep ! 12) (rep ! 13) (rep ! 14) (rep ! 15)"

definition ipv4_destination_address :: "ipv4_header \<Rightarrow> u32" where
  "ipv4_destination_address rep = address_of_bytes (rep ! 16) (rep ! 17) (rep ! 18) (rep ! 19)"

definition is_setfail :: "istream \<Rightarrow> istream" where
  "is_setfail s = s\<lparr>is_fail := True\<rparr>"

definition ipv4_read :: "istream \<Rightarrow> ipv4_header \<times> istream" where
  "ipv4_read s =
     (let (rep, s1) = is_read 0 20 (ipv4_header_new, s);
          s2 = (if ipv4_version rep \<noteq> 4 then is_setfail s1 else s1);
          options_length = int (unat (ipv4_header_length rep)) - 20
      in if options_length < 0 \<or> options_length > 40 then (rep, is_setfail s2)
         else is_read 20 (nat options_length) (rep, s2))"

section \<open>\<open>Runnable\<close>\<close>

text \<open>\<open>rn_stopped\<close>: the \<open>io_service\<close> was stopped; the thread that ran it was joined.\<close>

record Runnable =
  rn_isRunning :: bool
  rn_work :: bool
  rn_stopped :: bool

definition Runnable_Construct :: Runnable where
  "Runnable_Construct = \<lparr>rn_isRunning = False, rn_work = False, rn_stopped = False\<rparr>"

definition Runnable_IsRunning :: "Runnable \<Rightarrow> bool" where
  "Runnable_IsRunning r = rn_isRunning r"

definition Runnable_Run :: "Runnable \<Rightarrow> Runnable" where
  "Runnable_Run r = (if rn_isRunning r then r else r\<lparr>rn_work := True, rn_isRunning := True\<rparr>)"

definition Runnable_Stop :: "Runnable \<Rightarrow> Runnable" where
  "Runnable_Stop r =
     (if \<not> Runnable_IsRunning r then r
      else r\<lparr>rn_isRunning := False, rn_work := False, rn_stopped := True\<rparr>)"

section \<open>The scanner's state\<close>

record uuid_text =
  uu_print :: "uuid \<Rightarrow> byte list"
  uu_parse :: "byte list \<Rightarrow> uuid option"

text \<open>
  A pending \<open>async_send_to\<close>: the handler's arguments \<open>endpoint\<close>, \<open>lastEndpoint\<close> and
  \<open>sessionId\<close>. \<open>sc_requests\<close> logs the datagrams handed to the socket with their target and
  session, \<open>sc_found\<close> the hosts printed, \<open>sc_scans\<close> the sessions created with the bounds of their
  range. \<open>sc_orphans\<close> are the aborted waits of timers that were destroyed.
\<close>

record Scanner =
  sc_core :: Runnable
  sc_sessions :: "(uuid, uuid timer) um"
  sc_icmpId :: u16
  sc_clock :: nat
  sc_receives :: nat
  sc_sends :: "(u32 \<times> u32 \<times> uuid) list"
  sc_orphans :: "uuid list"
  sc_requests :: "(uuid \<times> u32 \<times> byte list) list"
  sc_found :: "u32 list"
  sc_scans :: "(uuid \<times> u32 \<times> u32) list"

definition SESSION_SECONDS :: nat where "SESSION_SECONDS = 40"

definition Scanner_Construct :: "u32 \<Rightarrow> Scanner" where
  "Scanner_Construct processId =
     \<lparr>sc_core = Runnable_Run Runnable_Construct, sc_sessions = [], sc_icmpId = ucast processId,
      sc_clock = 0, sc_receives = 1, sc_sends = [], sc_orphans = [], sc_requests = [],
      sc_found = [], sc_scans = []\<rparr>"

text \<open>\<open>expires_from_now\<close> on the timer of a session.\<close>

definition sc_restart :: "uuid \<Rightarrow> uuid timer \<Rightarrow> Scanner \<Rightarrow> Scanner" where
  "sc_restart sid t st = st\<lparr>sc_sessions :=
     um_assign sid (timer_set (At (sc_clock st + SESSION_SECONDS)) t) (sc_sessions st)\<rparr>"

section \<open>Sending\<close>

definition echo_packet :: "uuid_text \<Rightarrow> u16 \<Rightarrow> uuid \<Rightarrow> byte list" where
  "echo_packet U icmpId sid =
     (let echoRequest = icmp_set_identifier icmpId (icmp_set_type echo_request icmp_header_new);
          body = uu_print U sid
      in icmp_write (compute_checksum echoRequest body) @ body)"

definition EchoRequest :: "uuid_text \<Rightarrow> u32 \<Rightarrow> u32 \<Rightarrow> uuid \<Rightarrow> Scanner \<Rightarrow> Scanner \<times> (exn + unit)" where
  "EchoRequest U endpoint lastEndpoint sid st =
     (case map_of (sc_sessions st) sid of
        None \<Rightarrow> (st, Inl (runtime_error ''Unable to find session with given id ''))
      | Some t \<Rightarrow>
          (let st1 = sc_restart sid t st
           in (st1\<lparr>sc_requests := sc_requests st1 @ [(sid, endpoint, echo_packet U (sc_icmpId st1) sid)],
                   sc_sends := sc_sends st1 @ [(endpoint, lastEndpoint, sid)]\<rparr>, Inr ())))"

definition HandleSend :: "uuid_text \<Rightarrow> error_code \<Rightarrow> u32 \<Rightarrow> u32 \<Rightarrow> uuid \<Rightarrow> Scanner \<Rightarrow> Scanner" where
  "HandleSend U ec endpoint lastEndpoint sid st =
     (if failed ec then st
      else if lastEndpoint \<noteq> 0 \<and> lastEndpoint > endpoint
      then fst (EchoRequest U (endpoint + 1) lastEndpoint sid st)
      else st)"

text \<open>\<open>Scan\<close>: \<open>sid\<close> is what the random generator returns.\<close>

definition scan_last :: "u32 \<Rightarrow> u32 \<Rightarrow> u32" where
  "scan_last network netmask = network OR NOT netmask"

definition Scan ::
  "uuid_text \<Rightarrow> ip_address \<Rightarrow> ip_address \<Rightarrow> uuid \<Rightarrow> Scanner \<Rightarrow> Scanner \<times> (exn + unit)" where
  "Scan U network netmask sid st =
     (case (network, netmask) of
        (V4 curAddress, V4 netmaskV4) \<Rightarrow>
          (let lastAddress = scan_last curAddress netmaskV4
           in if curAddress > lastAddress
              then (st, Inl (runtime_error ''Final address computed to greater than network address''))
              else
                (let t = timer_wait sid (timer_set (At (sc_clock st + SESSION_SECONDS)) timer_new);
                     ret = um_insert sid t (sc_sessions st)
                 in if \<not> snd ret then (st, Inl (runtime_error ''Session with given id already exist''))
                    else EchoRequest U curAddress (if curAddress \<noteq> lastAddress then lastAddress else 0) sid
                           (st\<lparr>sc_sessions := fst ret,
                               sc_scans := sc_scans st @ [(sid, curAddress, lastAddress)]\<rparr>)))
      | _ \<Rightarrow> (st, Inl lib_error))"

section \<open>Receiving\<close>

text \<open>\<open>packet\<close> is what \<open>receive\<close> returns, \<open>None\<close> when it throws.\<close>

definition ReceiveEcho :: "uuid_text \<Rightarrow> byte list \<Rightarrow> Scanner \<Rightarrow> Scanner \<times> (exn + unit)" where
  "ReceiveEcho U packet st =
     (let (ipv4Header, s1) = ipv4_read (istream_of packet);
          (icmpHeader, s2) = icmp_read s1;
          (body, s3) = is_word s2
      in if icmp_type icmpHeader = echo_reply \<and> icmp_identifier icmpHeader = sc_icmpId st
         then (case uu_parse U body of
                 None \<Rightarrow> (st, Inl lib_error)
               | Some sid \<Rightarrow>
                   (case map_of (sc_sessions st) sid of
                      None \<Rightarrow> (st, Inl (runtime_error ''Reply from''))
                    | Some t \<Rightarrow>
                        (let st1 = sc_restart sid t st
                         in (st1\<lparr>sc_found := sc_found st1 @ [ipv4_source_address ipv4Header]\<rparr>, Inr ()))))
         else (st, Inr ()))"

definition HandleReceive :: "uuid_text \<Rightarrow> error_code \<Rightarrow> byte list option \<Rightarrow> Scanner \<Rightarrow> Scanner" where
  "HandleReceive U ec packet st =
     (let st1 = (if failed ec then st
                 else case packet of None \<Rightarrow> st | Some p \<Rightarrow> fst (ReceiveEcho U p st))
      in st1\<lparr>sc_receives := Suc (sc_receives st1)\<rparr>)"

section \<open>The session timer\<close>

definition HandleSessionTimeout :: "error_code \<Rightarrow> uuid \<Rightarrow> Scanner \<Rightarrow> Scanner" where
  "HandleSessionTimeout ec sid st =
     (if failed ec \<and> ec \<noteq> operation_aborted then st
      else case map_of (sc_sessions st) sid of
        None \<Rightarrow> st
      | Some t \<Rightarrow>
          (if reached (sc_clock st) (expires_at t)
           then st\<lparr>sc_sessions := um_erase sid (sc_sessions st),
                   sc_orphans := sc_orphans st @ map fst (waits t)\<rparr>
           else st\<lparr>sc_sessions := um_assign sid (timer_wait sid t) (sc_sessions st)\<rparr>))"

section \<open>The machine\<close>

datatype sc_event =
    SE_Scan ip_address ip_address uuid
  | SE_Sent nat error_code
  | SE_Receive error_code "byte list option"
  | SE_Timer uuid nat
  | SE_Orphan nat
  | SE_Tick nat
  | SE_Stop

definition sc_timer_event :: "uuid \<Rightarrow> nat \<Rightarrow> Scanner \<Rightarrow> Scanner" where
  "sc_timer_event sid i st =
     (case map_of (sc_sessions st) sid of
        None \<Rightarrow> st
      | Some t \<Rightarrow>
          (if timer_ready (sc_clock st) i t
           then (case timer_take i t of (h, ec, t') \<Rightarrow>
             HandleSessionTimeout ec h (st\<lparr>sc_sessions := um_assign sid t' (sc_sessions st)\<rparr>))
           else st))"

definition sc_running :: "Scanner \<Rightarrow> bool" where
  "sc_running st = Runnable_IsRunning (sc_core st)"

fun sc_step :: "uuid_text \<Rightarrow> sc_event \<Rightarrow> Scanner \<Rightarrow> Scanner" where
  "sc_step U (SE_Scan network netmask sid) st = fst (Scan U network netmask sid st)"
| "sc_step U (SE_Sent i ec) st =
     (if sc_running st \<and> i < length (sc_sends st)
      then (case sc_sends st ! i of (endpoint, lastEndpoint, sid) \<Rightarrow>
        HandleSend U ec endpoint lastEndpoint sid (st\<lparr>sc_sends := remove_at i (sc_sends st)\<rparr>))
      else st)"
| "sc_step U (SE_Receive ec packet) st =
     (if sc_running st \<and> 0 < sc_receives st
      then HandleReceive U ec packet (st\<lparr>sc_receives := sc_receives st - 1\<rparr>) else st)"
| "sc_step U (SE_Timer sid i) st = (if sc_running st then sc_timer_event sid i st else st)"
| "sc_step U (SE_Orphan i) st =
     (if sc_running st \<and> i < length (sc_orphans st)
      then HandleSessionTimeout operation_aborted (sc_orphans st ! i)
        (st\<lparr>sc_orphans := remove_at i (sc_orphans st)\<rparr>)
      else st)"
| "sc_step U (SE_Tick n) st = st\<lparr>sc_clock := sc_clock st + n\<rparr>"
| "sc_step U SE_Stop st = st\<lparr>sc_core := Runnable_Stop (sc_core st)\<rparr>"

definition sc_steps :: "uuid_text \<Rightarrow> sc_event list \<Rightarrow> Scanner \<Rightarrow> Scanner" where
  "sc_steps U es st = fold (sc_step U) es st"

text \<open>
  The reachable states. The random generator of Boost.Uuid does not repeat itself: a scan
  does not get the id of an earlier one.
\<close>

fun sc_fresh_id :: "sc_event \<Rightarrow> Scanner \<Rightarrow> bool" where
  "sc_fresh_id (SE_Scan _ _ sid) st \<longleftrightarrow> sid \<notin> fst ` set (sc_scans st)"
| "sc_fresh_id _ st \<longleftrightarrow> True"

inductive sc_reachable :: "uuid_text \<Rightarrow> u32 \<Rightarrow> Scanner \<Rightarrow> bool" for U pid where
  start: "sc_reachable U pid (Scanner_Construct pid)"
| step: "sc_reachable U pid st \<Longrightarrow> sc_fresh_id e st \<Longrightarrow> sc_reachable U pid (sc_step U e st)"

end
