(* ===== verification/Icmp_Claims.thy ===== *)
theory Icmp_Claims
  imports Icmp_Scanner
begin

text \<open>
  What the ICMP scanner guarantees: a reply to one of its requests is attributed to the
  session that sent it, a scan visits the addresses of its range in order and none outside it
  whatever else happens, it visits all of them when the sends succeed, and a session ends
  exactly when its timer expires.
\<close>

section \<open>Recognising a reply\<close>

text \<open>What the code relies on of Boost.Uuid: the text of a uuid is a word that parses back to it.\<close>

definition uuid_word :: "uuid_text \<Rightarrow> bool" where
  "uuid_word U \<longleftrightarrow>
     (\<forall>u. uu_parse U (uu_print U u) = Some u \<and> uu_print U u \<noteq> [] \<and> list_all (\<lambda>b. \<not> is_space b) (uu_print U u))"

text \<open>The text form 8-4-4-4-12 of a uuid, in lower-case hexadecimal digits.\<close>

definition hex_digit :: "int \<Rightarrow> byte" where
  "hex_digit d = (if d < 10 then word_of_int (48 + d) else word_of_int (87 + d))"

definition hex_value :: "byte \<Rightarrow> int" where
  "hex_value b = (if uint b < 58 then uint b - 48 else uint b - 87)"

definition hex_digits :: "nat \<Rightarrow> int \<Rightarrow> byte list" where
  "hex_digits n x = map (\<lambda>i. hex_digit (x div 16 ^ i mod 16)) (rev [0..<n])"

definition uuid_print :: "uuid \<Rightarrow> byte list" where
  "uuid_print u =
     (let d = hex_digits 32 (uint u)
      in take 8 d @ [45] @ take 4 (drop 8 d) @ [45] @ take 4 (drop 12 d) @ [45]
         @ take 4 (drop 16 d) @ [45] @ drop 20 d)"

definition uuid_parse :: "byte list \<Rightarrow> uuid option" where
  "uuid_parse bs =
     (let d = filter (\<lambda>b. b \<noteq> 45) bs
      in if length d = 32 then Some (word_of_int (foldl (\<lambda>v b. 16 * v + hex_value b) 0 d)) else None)"

definition sample_uuid_text :: uuid_text where
  "sample_uuid_text = \<lparr>uu_print = uuid_print, uu_parse = uuid_parse\<rparr>"

lemma hex_digit_cases:
  assumes "0 \<le> d" and "d < 16"
  shows "hex_value (hex_digit d) = d \<and> hex_digit d \<noteq> 45 \<and> \<not> is_space (hex_digit d)"
proof -
  have "list_all (\<lambda>d. hex_value (hex_digit d) = d \<and> hex_digit d \<noteq> 45 \<and> \<not> is_space (hex_digit d)) [0..15]"
    by code_simp
  with assms show ?thesis by (simp add: list_all_iff)
qed

lemma hex_digits_value: "foldl (\<lambda>v b. 16 * v + hex_value b) a (hex_digits n x) = a * 16 ^ n + x mod 16 ^ n"
proof (induction n arbitrary: a)
  case (Suc n)
  have "hex_value (hex_digit (x div 16 ^ n mod 16)) = x div 16 ^ n mod 16"
    using hex_digit_cases [of "x div 16 ^ n mod 16"] by simp
  moreover have "x mod 16 ^ Suc n = 16 ^ n * (x div 16 ^ n mod 16) + x mod 16 ^ n"
    unfolding power_Suc2 by (rule zmod_zmult2_eq) simp
  ultimately show ?case
    using Suc [of "16 * a + x div 16 ^ n mod 16"]
    by (simp add: hex_digits_def algebra_simps)
qed (simp add: hex_digits_def)

lemma uuid_print_digits: "filter (\<lambda>b. b \<noteq> 45) (uuid_print u) = hex_digits 32 (uint u)"
proof -
  let ?d = "hex_digits 32 (uint u)"
  have all: "list_all (\<lambda>b. b \<noteq> 45) ?d"
    using hex_digit_cases by (simp add: hex_digits_def list_all_iff)
  then have f: "filter (\<lambda>b. b \<noteq> 45) xs = xs" if "set xs \<subseteq> set ?d" for xs
    using that by (auto simp: list_all_iff filter_id_conv)
  have "take 4 (drop n ?d) @ drop (4 + n) ?d = drop n ?d" for n
    using append_take_drop_id [of 4 "drop n ?d"] by simp
  from this [of 8] this [of 12] this [of 16]
  have "take 8 ?d @ take 4 (drop 8 ?d) @ take 4 (drop 12 ?d) @ take 4 (drop 16 ?d) @ drop 20 ?d = ?d"
    by simp
  moreover have "set (take m (drop n ?d)) \<subseteq> set ?d" "set (drop n ?d) \<subseteq> set ?d" "set (take n ?d) \<subseteq> set ?d" for m n
    by (auto dest: in_set_takeD in_set_dropD)
  ultimately show ?thesis by (simp add: uuid_print_def Let_def f)
qed

lemma sample_uuid_word: "uuid_word sample_uuid_text"
  unfolding uuid_word_def
proof
  fix u :: uuid
  let ?d = "hex_digits 32 (uint u)"
  have "uint u < 16 ^ 32" using unsigned_less [of u, where 'a = int] by simp
  then have "uint u mod 16 ^ 32 = uint u" by (intro mod_pos_pos_trivial) simp
  then have "foldl (\<lambda>v b. 16 * v + hex_value b) 0 ?d = uint u"
    using hex_digits_value [of 0 32 "uint u"] by simp
  moreover have "length ?d = 32" by (simp add: hex_digits_def)
  ultimately have "uuid_parse (uuid_print u) = Some u"
    by (simp add: uuid_parse_def uuid_print_digits Let_def)
  moreover have "list_all (\<lambda>b. \<not> is_space b) ?d"
    using hex_digit_cases by (simp add: hex_digits_def list_all_iff)
  then have "list_all (\<lambda>b. \<not> is_space b) (uuid_print u)"
    by (auto simp: uuid_print_def Let_def list_all_iff is_space_def dest: in_set_takeD in_set_dropD)
  ultimately show "uu_parse sample_uuid_text (uu_print sample_uuid_text u) = Some u \<and>
      uu_print sample_uuid_text u \<noteq> [] \<and> list_all (\<lambda>b. \<not> is_space b) (uu_print sample_uuid_text u)"
    by (simp add: sample_uuid_text_def) (simp add: uuid_print_def Let_def)
qed

text \<open>
  The reply of a host: an IPv4 header with the options it likes, the request with the type
  and the checksum replaced.
\<close>

definition reply_to :: "byte list \<Rightarrow> u16 \<Rightarrow> byte list \<Rightarrow> byte list" where
  "reply_to ip c packet = ip @ icmp_set_checksum c (icmp_set_type echo_reply (take 8 packet)) @ drop 8 packet"

definition ipv4_valid :: "byte list \<Rightarrow> bool" where
  "ipv4_valid ip \<longleftrightarrow> 20 \<le> length ip \<and> length ip = unat (ipv4_header_length ip) \<and> ipv4_version ip = 4"

lemma ipv4_header_length_le: "unat (ipv4_header_length rep) \<le> 60"
proof -
  have tb: "rep ! 0 AND 0xF = take_bit 4 (rep ! 0)"
    by (simp add: take_bit_eq_mask mask_eq_exp_minus_1)
  have "unat (rep ! 0 AND 0xF) = unat (rep ! 0) mod 16"
    unfolding tb unsigned_take_bit_eq by (simp only: take_bit_eq_mod) simp
  then have "unat (rep ! 0 AND 0xF) \<le> 15" by simp
  moreover from this have "unat (ucast (rep ! 0 AND 0xF) :: u16) = unat (rep ! 0 AND 0xF)"
    by (simp add: unsigned_ucast_eq take_bit_eq_mod)
  ultimately show ?thesis
    by (simp add: ipv4_header_length_def unat_word_ariths)
qed

lemma ipv4_read_valid:
  assumes "ipv4_valid ip"
  shows "ipv4_read (istream_of (ip @ rest)) = (ip @ drop (length ip) ipv4_header_new, istream_of rest)"
proof -
  have len: "20 \<le> length ip" "length ip \<le> 60" "length ip = unat (ipv4_header_length ip)"
    using assms ipv4_header_length_le [of ip] by (simp_all add: ipv4_valid_def)
  let ?rep = "take 20 ip @ drop 20 ipv4_header_new"
  have r1: "is_read 0 20 (ipv4_header_new, istream_of (ip @ rest)) = (?rep, istream_of (drop 20 ip @ rest))"
    using len by (simp add: is_read_ok)
  have h0: "?rep ! 0 = ip ! 0" using len by (simp add: nth_append)
  then have hl: "ipv4_header_length ?rep = ipv4_header_length ip" and v: "ipv4_version ?rep = 4"
    using assms by (simp_all add: ipv4_header_length_def ipv4_version_def ipv4_valid_def)
  have r2: "is_read 20 (length ip - 20) (?rep, istream_of (drop 20 ip @ rest)) =
      (ip @ drop (length ip) ipv4_header_new, istream_of rest)"
    using len by (simp add: is_read_ok)
  have n: "int (unat (ipv4_header_length ip)) = int (length ip)" by (simp only: len(3))
  have m: "nat (int (length ip) - 20) = length ip - 20" by simp
  show ?thesis
    unfolding ipv4_read_def r1 Let_def prod.case hl n m using v len(1,2) by (simp add: r2)
qed

lemma icmp_read_ok: "length h = 8 \<Longrightarrow> icmp_read (istream_of (h @ rest)) = (h, istream_of rest)"
  by (simp add: icmp_read_def is_read_ok)

text \<open>C18: an echo reply is attributed to the session that sent the request.\<close>

theorem Icmp_reply_recognised:
  assumes U: "uuid_word U" and ip: "ipv4_valid ip" and ses: "map_of (sc_sessions st) sid = Some t"
  shows "ReceiveEcho U (reply_to ip c (echo_packet U (sc_icmpId st) sid)) st =
    ((sc_restart sid t st)\<lparr>sc_found := sc_found st @ [ipv4_source_address ip]\<rparr>, Inr ())"
proof -
  let ?body = "uu_print U sid"
  let ?h0 = "icmp_set_identifier (sc_icmpId st) (icmp_set_type echo_request icmp_header_new)"
  let ?h = "icmp_set_checksum c (icmp_set_type echo_reply (compute_checksum ?h0 ?body))"
  have p: "reply_to ip c (echo_packet U (sc_icmpId st) sid) = ip @ ?h @ ?body"
    by (simp add: reply_to_def echo_packet_def icmp_write_def Let_def)
  have src: "ipv4_source_address (ip @ rest) = ipv4_source_address ip" for rest
    using ip by (simp add: ipv4_source_address_def nth_append ipv4_valid_def)
  have w: "fst (is_word (istream_of ?body)) = ?body"
    using U by (intro is_word_all) (simp_all add: uuid_word_def)
  have "icmp_read (istream_of (?h @ ?body)) = (?h, istream_of ?body)"
    by (rule icmp_read_ok) simp
  with U ip ses w show ?thesis
    unfolding p by (simp add: ReceiveEcho_def ipv4_read_valid src Let_def split_beta uuid_word_def
        sc_restart_def)
qed

text \<open>A scanner whose one session has the id 7, after the request that the loopback host answers.\<close>

definition sample_ip :: "byte list" where
  "sample_ip = [0x45, 0, 0, 64, 0, 1, 0, 0, 64, 1, 0, 0, 127, 0, 0, 1, 10, 0, 0, 2]"

definition sample_scanner :: Scanner where
  "sample_scanner = fst (Scan sample_uuid_text (V4 0x0A000002) (V4 0xFFFFFFFC) 7 (Scanner_Construct 4242))"

lemma Icmp_reply_recognised_witness:
  "fst (ReceiveEcho sample_uuid_text
     (reply_to sample_ip 0 (echo_packet sample_uuid_text (sc_icmpId sample_scanner) 7)) sample_scanner)
   = (sc_restart 7 (snd (hd (sc_sessions sample_scanner))) sample_scanner)\<lparr>sc_found := [0x7F000001]\<rparr>"
proof -
  have "ipv4_valid sample_ip" by code_simp
  moreover have "map_of (sc_sessions sample_scanner) 7 = Some (snd (hd (sc_sessions sample_scanner)))"
    by code_simp
  moreover have "sc_found sample_scanner @ [ipv4_source_address sample_ip] = [0x7F000001]" by code_simp
  ultimately show ?thesis
    using Icmp_reply_recognised [OF sample_uuid_word, of sample_ip sample_scanner 7 _ 0] by simp
qed

section \<open>The range of a scan\<close>

text \<open>The targets of a session's requests, in order, and its sends in flight.\<close>

definition targets :: "uuid \<Rightarrow> Scanner \<Rightarrow> u32 list" where
  "targets sid st = map (\<lambda>r. fst (snd r)) (filter (\<lambda>r. fst r = sid) (sc_requests st))"

definition in_flight :: "uuid \<Rightarrow> Scanner \<Rightarrow> (u32 \<times> u32 \<times> uuid) list" where
  "in_flight sid st = filter (\<lambda>s. snd (snd s) = sid) (sc_sends st)"

definition addresses :: "u32 \<Rightarrow> nat \<Rightarrow> u32 list" where
  "addresses lo k = map (\<lambda>i. lo + word_of_nat i) [0..<k]"

definition last_arg :: "u32 \<Rightarrow> u32 \<Rightarrow> u32" where
  "last_arg lo hi = (if lo \<noteq> hi then hi else 0)"

text \<open>How far a scan has come: the last request is in flight, or the scan has ended.\<close>

definition scan_ok :: "Scanner \<Rightarrow> uuid \<times> u32 \<times> u32 \<Rightarrow> bool" where
  "scan_ok st = (\<lambda>(sid, lo, hi). \<exists>k. unat lo + k \<le> unat hi \<and> targets sid st = addresses lo (Suc k) \<and>
     in_flight sid st \<in> {[], [(lo + word_of_nat k, last_arg lo hi, sid)]})"

definition req_inv :: "Scanner \<Rightarrow> bool" where
  "req_inv st \<longleftrightarrow>
     fst ` set (sc_requests st) \<subseteq> fst ` set (sc_scans st) \<and>
     (\<lambda>s. snd (snd s)) ` set (sc_sends st) \<subseteq> fst ` set (sc_scans st) \<and>
     distinct (map fst (sc_scans st)) \<and> list_all (scan_ok st) (sc_scans st)"

text \<open>Every session has one wait on its timer, the socket has one receive.\<close>

definition ses_inv :: "Scanner \<Rightarrow> bool" where
  "ses_inv st \<longleftrightarrow>
     um_ok (sc_sessions st) \<and> sc_receives st = 1 \<and> sc_orphans st = [] \<and>
     (\<forall>sid t. map_of (sc_sessions st) sid = Some t \<longrightarrow>
        map fst (waits t) = [sid] \<and> (\<exists>n \<le> sc_clock st + SESSION_SECONDS. expires_at t = At n))"

lemma filter_remove_at_other:
  "i < length xs \<Longrightarrow> \<not> P (xs ! i) \<Longrightarrow> filter P (remove_at i xs) = filter P xs"
  by (subst (2) split_nth [of i xs]) (simp_all add: remove_at_def)

lemma filter_remove_at_only:
  "i < length xs \<Longrightarrow> P (xs ! i) \<Longrightarrow> filter P xs = [y] \<Longrightarrow> filter P (remove_at i xs) = []"
  using filter_remove_at [of i xs P] by simp

lemma scan_ok_cong:
  "targets sid s = targets sid t \<Longrightarrow> in_flight sid s = in_flight sid t \<Longrightarrow>
   scan_ok s (sid, r) = scan_ok t (sid, r)"
  by (simp add: scan_ok_def split: prod.splits)

text \<open>The updates that leave requests, sends and scans.\<close>

lemma req_inv_cong:
  "sc_requests s = sc_requests t \<Longrightarrow> sc_sends s = sc_sends t \<Longrightarrow> sc_scans s = sc_scans t \<Longrightarrow>
   req_inv s = req_inv t"
  by (simp add: req_inv_def scan_ok_def targets_def in_flight_def)

lemma sc_restart_sel [simp]:
  "sc_requests (sc_restart sid t st) = sc_requests st" "sc_sends (sc_restart sid t st) = sc_sends st"
  "sc_scans (sc_restart sid t st) = sc_scans st" "sc_icmpId (sc_restart sid t st) = sc_icmpId st"
  "sc_receives (sc_restart sid t st) = sc_receives st" "sc_orphans (sc_restart sid t st) = sc_orphans st"
  "sc_clock (sc_restart sid t st) = sc_clock st" "sc_core (sc_restart sid t st) = sc_core st"
  by (simp_all add: sc_restart_def)

lemma req_inv_restart [simp]: "req_inv (sc_restart sid t st) = req_inv st"
  by (rule req_inv_cong) simp_all

lemma ses_inv_restart:
  "ses_inv st \<Longrightarrow> map_of (sc_sessions st) sid = Some t \<Longrightarrow> ses_inv (sc_restart sid t st)"
  by (auto simp: ses_inv_def sc_restart_def um_simps comp_def)

lemma ses_inv_cong:
  "sc_sessions s = sc_sessions t \<Longrightarrow> sc_receives s = sc_receives t \<Longrightarrow> sc_orphans s = sc_orphans t \<Longrightarrow>
   sc_clock s = sc_clock t \<Longrightarrow> ses_inv s = ses_inv t"
  by (simp add: ses_inv_def)

lemma ses_inv_EchoRequest: "ses_inv st \<Longrightarrow> ses_inv (fst (EchoRequest U e l sid st))"
proof (cases "map_of (sc_sessions st) sid")
  case (Some t)
  assume "ses_inv st"
  then have "ses_inv (sc_restart sid t st)" using Some by (rule ses_inv_restart)
  moreover have "ses_inv (fst (EchoRequest U e l sid st)) = ses_inv (sc_restart sid t st)"
    by (rule ses_inv_cong) (simp_all add: EchoRequest_def Some Let_def)
  ultimately show ?thesis by simp
qed (simp add: EchoRequest_def)

lemma EchoRequest_sel:
  assumes "map_of (sc_sessions st) sid = Some t" and "r = fst (EchoRequest U e l sid st)"
  shows "targets sid' r = targets sid' st @ (if sid' = sid then [e] else [])"
    and "in_flight sid' r = in_flight sid' st @ (if sid' = sid then [(e, l, sid)] else [])"
    and "sc_scans r = sc_scans st" and "fst ` set (sc_requests r) = insert sid (fst ` set (sc_requests st))"
    and "(\<lambda>s. snd (snd s)) ` set (sc_sends r) = insert sid ((\<lambda>s. snd (snd s)) ` set (sc_sends st))"
    and "map_of (sc_sessions r) = (map_of (sc_sessions st))(sid \<mapsto> timer_set (At (sc_clock st + SESSION_SECONDS)) t)"
    and "sc_core r = sc_core st" and "sc_sends r = sc_sends st @ [(e, l, sid)]" and "sc_clock r = sc_clock st"
proof -
  have r: "r = (sc_restart sid t st)\<lparr>sc_requests := sc_requests st @ [(sid, e, echo_packet U (sc_icmpId st) sid)],
      sc_sends := sc_sends st @ [(e, l, sid)]\<rparr>"
    unfolding assms(2) EchoRequest_def by (simp only: assms(1) option.case Let_def fst_conv sc_restart_sel)
  have q: "sc_requests r = sc_requests st @ [(sid, e, echo_packet U (sc_icmpId st) sid)]"
    and s: "sc_sends r = sc_sends st @ [(e, l, sid)]" and c: "sc_scans r = sc_scans st"
    and k: "sc_core r = sc_core st" "sc_clock r = sc_clock st"
    unfolding r by simp_all
  show "targets sid' r = targets sid' st @ (if sid' = sid then [e] else [])"
    unfolding targets_def q by simp
  show "in_flight sid' r = in_flight sid' st @ (if sid' = sid then [(e, l, sid)] else [])"
    unfolding in_flight_def s by simp
  show "fst ` set (sc_requests r) = insert sid (fst ` set (sc_requests st))"
    unfolding q by simp
  show "(\<lambda>s. snd (snd s)) ` set (sc_sends r) = insert sid ((\<lambda>s. snd (snd s)) ` set (sc_sends st))"
    unfolding s by simp
  show "sc_scans r = sc_scans st" "sc_core r = sc_core st" "sc_sends r = sc_sends st @ [(e, l, sid)]"
      "sc_clock r = sc_clock st"
    by (fact c, fact k, fact s, fact k)
  show "map_of (sc_sessions r) = (map_of (sc_sessions st))(sid \<mapsto> timer_set (At (sc_clock st + SESSION_SECONDS)) t)"
    unfolding r sc_restart_def by (simp add: um_simps assms(1))
qed

lemma addresses_Suc: "addresses lo (Suc k) = addresses lo k @ [lo + word_of_nat k]"
  by (simp add: addresses_def)

text \<open>A request for the next address of a session whose last send has completed.\<close>

lemma req_inv_EchoRequest:
  assumes scans: "fst ` set (sc_requests st) \<subseteq> fst ` set (sc_scans st)"
      "(\<lambda>s. snd (snd s)) ` set (sc_sends st) \<subseteq> fst ` set (sc_scans st)" "distinct (map fst (sc_scans st))"
    and others: "\<forall>r \<in> set (sc_scans st). fst r \<noteq> sid \<longrightarrow> scan_ok st r"
    and sid: "(sid, lo, hi) \<in> set (sc_scans st)" and ses: "map_of (sc_sessions st) sid = Some t"
    and so_far: "targets sid st = addresses lo k" "in_flight sid st = []"
    and room: "unat lo + k \<le> unat hi" and e: "e = lo + word_of_nat k" and l: "l = last_arg lo hi"
  shows "req_inv (fst (EchoRequest U e l sid st))"
proof -
  let ?r = "fst (EchoRequest U e l sid st)"
  note sel = EchoRequest_sel [OF ses refl, where U = U and e = e and l = l]
  have "scan_ok ?r r" if r: "r \<in> set (sc_scans st)" for r
  proof (cases "fst r = sid")
    case True
    with r sid scans(3) have "r = (sid, lo, hi)"
      by (metis eq_key_imp_eq_value prod.collapse)
    moreover have "targets sid ?r = addresses lo (Suc k)" "in_flight sid ?r = [(lo + word_of_nat k, last_arg lo hi, sid)]"
      using sel(1,2) [of sid] so_far by (simp_all add: addresses_Suc e l)
    ultimately show ?thesis
      using room unfolding scan_ok_def by blast
  next
    case False
    with others r have "scan_ok st r" by blast
    with False show ?thesis using scan_ok_cong [of "fst r" ?r st "snd r"] sel by simp
  qed
  moreover have "sid \<in> fst ` set (sc_scans st)" using sid by force
  ultimately show ?thesis using scans by (simp add: req_inv_def sel list_all_iff)
qed

lemma scan_last_ge: "unat network \<le> unat (scan_last network netmask)"
proof -
  have "uint network \<le> uint network OR uint (NOT netmask)" by (rule or_greater_eq) simp
  then have "network \<le> network OR NOT netmask" by (simp add: word_le_def unsigned_or_eq)
  then show ?thesis by (simp add: scan_last_def word_le_nat_alt)
qed

lemma req_inv_Scan:
  assumes inv: "req_inv st" and fresh: "sid \<notin> fst ` set (sc_scans st)"
  shows "req_inv (fst (Scan U a m sid st))"
proof -
  have none: "targets sid st = []" "in_flight sid st = []"
    using inv fresh by (auto simp: req_inv_def targets_def in_flight_def filter_empty_conv)
  { fix lo hi :: u32 and t :: "uuid timer"
    assume le: "unat lo \<le> unat hi" and new: "map_of (sc_sessions st) sid = None"
    let ?st = "st\<lparr>sc_sessions := fst (um_insert sid t (sc_sessions st)),
                  sc_scans := sc_scans st @ [(sid, lo, hi)]\<rparr>"
    have eq: "targets i ?st = targets i st" "in_flight i ?st = in_flight i st" for i
      by (simp_all add: targets_def in_flight_def)
    have others: "\<forall>r \<in> set (sc_scans ?st). fst r \<noteq> sid \<longrightarrow> scan_ok ?st r"
      using inv scan_ok_cong [OF eq] by (fastforce simp: req_inv_def list_all_iff)
    have "req_inv (fst (EchoRequest U lo (last_arg lo hi) sid ?st))"
      by (rule req_inv_EchoRequest [OF _ _ _ others, of lo hi t 0])
        (use inv fresh none le new in \<open>auto simp: req_inv_def eq addresses_def um_simps\<close>) }
  note start = this
  show ?thesis
  proof (cases "\<exists>lo w. a = V4 lo \<and> m = V4 w")
    case True
    then obtain lo w where V4: "a = V4 lo" "m = V4 w" by blast
    have "\<not> scan_last lo w < lo" using scan_last_ge [of lo w] by (simp add: word_less_nat_alt)
    then show ?thesis
      using inv start [OF scan_last_ge [of lo w]]
      by (simp add: V4 Scan_def Let_def snd_um_insert last_arg_def)
  next
    case False
    then show ?thesis using inv by (auto simp: Scan_def split: ip_address.splits)
  qed
qed

text \<open>A completed send belongs to a scan; the next request goes to the next address.\<close>

lemma req_inv_Sent:
  assumes inv: "req_inv st" and i: "i < length (sc_sends st)" and s: "sc_sends st ! i = (e, l, sid)"
  shows "req_inv (HandleSend U ec e l sid (st\<lparr>sc_sends := remove_at i (sc_sends st)\<rparr>))"
proof -
  let ?st = "st\<lparr>sc_sends := remove_at i (sc_sends st)\<rparr>"
  have mem: "(e, l, sid) \<in> set (sc_sends st)" using i s nth_mem by metis
  with inv obtain lo hi where scan: "(sid, lo, hi) \<in> set (sc_scans st)"
    by (force simp: req_inv_def)
  with inv have "scan_ok st (sid, lo, hi)" by (simp add: req_inv_def list_all_iff)
  then obtain k where k: "unat lo + k \<le> unat hi" "targets sid st = addresses lo (Suc k)"
      "in_flight sid st \<in> {[], [(lo + word_of_nat k, last_arg lo hi, sid)]}"
    by (auto simp: scan_ok_def)
  have "(e, l, sid) \<in> set (in_flight sid st)" using mem by (simp add: in_flight_def)
  with k(3) have e: "e = lo + word_of_nat k" "l = last_arg lo hi"
      and one: "in_flight sid st = [(e, l, sid)]" by auto
  have tg: "targets j ?st = targets j st" for j by (simp add: targets_def)
  have gone: "in_flight sid ?st = []"
    using filter_remove_at_only [OF i, of "\<lambda>r. snd (snd r) = sid" "(e, l, sid)"] one s
    by (simp add: in_flight_def)
  have rest: "in_flight j ?st = in_flight j st" if "j \<noteq> sid" for j
    using filter_remove_at_other [OF i, of "\<lambda>r. snd (snd r) = j"] that s by (simp add: in_flight_def)
  have others: "\<forall>r \<in> set (sc_scans ?st). fst r \<noteq> sid \<longrightarrow> scan_ok ?st r"
    using inv scan_ok_cong [OF tg rest] by (fastforce simp: req_inv_def list_all_iff)
  have sends: "set (sc_sends ?st) \<subseteq> set (sc_sends st)"
    using mset_remove_at [OF i] by simp
  have "r = (sid, lo, hi)" if "r \<in> set (sc_scans st)" "fst r = sid" for r
    using that scan inv unfolding req_inv_def by (metis eq_key_imp_eq_value prod.collapse)
  moreover have "scan_ok ?st (sid, lo, hi)"
    using k gone by (auto simp: scan_ok_def tg)
  ultimately have "list_all (scan_ok ?st) (sc_scans st)"
    using others unfolding list_all_iff by force
  moreover have known: "(\<lambda>s. snd (snd s)) ` set (sc_sends ?st) \<subseteq> fst ` set (sc_scans st)"
    by (rule order.trans [OF image_mono [OF sends]]) (use inv in \<open>simp add: req_inv_def\<close>)
  ultimately have dropped: "req_inv ?st"
    using inv unfolding req_inv_def by simp
  show ?thesis
  proof (cases "\<not> failed ec \<and> l \<noteq> 0 \<and> l > e \<and> (\<exists>t. map_of (sc_sessions st) sid = Some t)")
    case False
    then have "HandleSend U ec e l sid ?st = ?st"
      by (auto simp: HandleSend_def EchoRequest_def split: option.splits)
    with dropped show ?thesis by simp
  next
    case True
    then obtain t where t: "map_of (sc_sessions ?st) sid = Some t" by auto
    have hi: "l = hi" using True e by (auto simp: last_arg_def split: if_splits)
    have "unat lo + k < 4294967296" using k(1) unsigned_less [of hi, where 'a = nat] by simp
    then have "unat e = unat lo + k"
      unfolding e(1) by (subst unat_add_u32) (simp_all add: unsigned_of_nat take_bit_eq_mod)
    with True hi have room: "unat lo + Suc k \<le> unat hi" by (simp add: word_less_nat_alt)
    have scans: "fst ` set (sc_requests ?st) \<subseteq> fst ` set (sc_scans ?st)"
        "(\<lambda>s. snd (snd s)) ` set (sc_sends ?st) \<subseteq> fst ` set (sc_scans ?st)" "distinct (map fst (sc_scans ?st))"
      using inv known unfolding req_inv_def by simp_all
    have "(sid, lo, hi) \<in> set (sc_scans ?st)" using scan by simp
    moreover have "targets sid ?st = addresses lo (Suc k)" using k(2) tg by simp
    moreover have "e + 1 = lo + word_of_nat (Suc k)" unfolding e(1) by simp
    ultimately have "req_inv (fst (EchoRequest U (e + 1) l sid ?st))"
      using gone room e(2) t by (intro req_inv_EchoRequest [OF scans others])
    with True show ?thesis by (simp add: HandleSend_def)
  qed
qed

lemma req_inv_Receive: "req_inv st \<Longrightarrow> req_inv (HandleReceive U ec p st)"
proof -
  assume inv: "req_inv st"
  have "req_inv (fst (ReceiveEcho U q st))" for q
  proof -
    have "fst (ReceiveEcho U q st) = st \<or> (\<exists>sid t xs. fst (ReceiveEcho U q st) = (sc_restart sid t st)\<lparr>sc_found := xs\<rparr>)"
      by (auto simp: ReceiveEcho_def Let_def split: prod.splits option.splits)
    moreover have "req_inv ((sc_restart sid t st)\<lparr>sc_found := xs\<rparr>) = req_inv st" for sid t xs
      by (rule req_inv_cong) simp_all
    ultimately show ?thesis using inv by metis
  qed
  moreover have "req_inv (s\<lparr>sc_receives := n\<rparr>) = req_inv s" for s n
    by (rule req_inv_cong) simp_all
  ultimately show ?thesis using inv by (simp add: HandleReceive_def Let_def split: option.splits)
qed

lemma Timeout_sel:
  "sc_requests (HandleSessionTimeout ec sid st) = sc_requests st"
  "sc_sends (HandleSessionTimeout ec sid st) = sc_sends st"
  "sc_scans (HandleSessionTimeout ec sid st) = sc_scans st"
  by (simp_all add: HandleSessionTimeout_def split: option.splits)

lemma timer_event_sel:
  "sc_requests (sc_timer_event sid i st) = sc_requests st"
  "sc_sends (sc_timer_event sid i st) = sc_sends st"
  "sc_scans (sc_timer_event sid i st) = sc_scans st"
  by (simp_all add: sc_timer_event_def Timeout_sel split: option.splits prod.splits)

lemma req_inv_step:
  assumes inv: "req_inv st" and fresh: "sc_fresh_id e st"
  shows "req_inv (sc_step U e st)"
proof (cases e)
  case (SE_Scan a m sid)
  with inv fresh show ?thesis by (simp add: req_inv_Scan)
next
  case (SE_Sent i ec)
  with inv show ?thesis by (auto simp: req_inv_Sent split: prod.splits)
next
  case (SE_Receive ec p)
  have "req_inv (st\<lparr>sc_receives := n\<rparr>) = req_inv st" for n by (rule req_inv_cong) simp_all
  with inv SE_Receive show ?thesis by (simp add: req_inv_Receive)
next
  case (SE_Timer sid i)
  have "req_inv (sc_timer_event sid i st) = req_inv st"
    by (rule req_inv_cong) (simp_all add: timer_event_sel)
  with inv SE_Timer show ?thesis by simp
next
  case (SE_Orphan i)
  let ?t = "HandleSessionTimeout operation_aborted (sc_orphans st ! i) (st\<lparr>sc_orphans := remove_at i (sc_orphans st)\<rparr>)"
  have "req_inv ?t = req_inv st"
    by (rule req_inv_cong) (simp_all add: Timeout_sel)
  with inv SE_Orphan show ?thesis by simp
next
  case (SE_Tick n)
  have "req_inv (st\<lparr>sc_clock := m\<rparr>) = req_inv st" for m by (rule req_inv_cong) simp_all
  with inv SE_Tick show ?thesis by simp
next
  case SE_Stop
  have "req_inv (st\<lparr>sc_core := c\<rparr>) = req_inv st" for c by (rule req_inv_cong) simp_all
  with inv SE_Stop show ?thesis by simp
qed

lemma reachable_req_inv: "sc_reachable U pid st \<Longrightarrow> req_inv st"
proof (induction rule: sc_reachable.induct)
  case start
  show ?case by (simp add: req_inv_def Scanner_Construct_def)
qed (rule req_inv_step)

text \<open>C16: whatever the replies, the timeouts, the failing sends and the other scans, the requests
  of a session go to consecutive addresses from the first of its range, each once, none beyond
  the last, and at most one of them is in flight, the latest.\<close>

theorem Icmp_scan_stays_in_range:
  assumes "sc_reachable U pid st" and "(sid, lo, hi) \<in> set (sc_scans st)"
  shows "\<exists>k. unat lo + k \<le> unat hi \<and> targets sid st = addresses lo (Suc k) \<and>
    in_flight sid st \<in> {[], [(lo + word_of_nat k, last_arg lo hi, sid)]}"
  using reachable_req_inv [OF assms(1)] assms(2) by (auto simp: req_inv_def list_all_iff scan_ok_def)

text \<open>Two requests of a scan of the addresses 10.0.0.2 and 10.0.0.3.\<close>

definition sample_probed :: Scanner where
  "sample_probed = sc_step sample_uuid_text (SE_Sent 0 ec_ok)
     (sc_step sample_uuid_text (SE_Scan (V4 0x0A000002) (V4 0xFFFFFFFC) 7) (Scanner_Construct 4242))"

lemma Icmp_scan_stays_in_range_witness:
  "targets 7 sample_probed = [0x0A000002, 0x0A000003] \<and>
   (\<exists>k. unat (0x0A000002 :: u32) + k \<le> unat (0x0A000003 :: u32) \<and>
     targets 7 sample_probed = addresses 0x0A000002 (Suc k) \<and>
     in_flight 7 sample_probed \<in> {[], [(0x0A000002 + word_of_nat k, last_arg 0x0A000002 0x0A000003, 7)]})"
proof
  show "targets 7 sample_probed = [0x0A000002, 0x0A000003]" by code_simp
  let ?s = "Scanner_Construct 4242" let ?e = "SE_Scan (V4 0x0A000002) (V4 0xFFFFFFFC) 7"
  have "sc_reachable sample_uuid_text 4242 (sc_step sample_uuid_text ?e ?s)"
    by (rule sc_reachable.step [OF sc_reachable.start]) (simp add: Scanner_Construct_def)
  then have "sc_reachable sample_uuid_text 4242 sample_probed"
    unfolding sample_probed_def by (rule sc_reachable.step) simp
  moreover have "(7, 0x0A000002, 0x0A000003) \<in> set (sc_scans sample_probed)" by code_simp
  ultimately show "\<exists>k. unat (0x0A000002 :: u32) + k \<le> unat (0x0A000003 :: u32) \<and>
     targets 7 sample_probed = addresses 0x0A000002 (Suc k) \<and>
     in_flight 7 sample_probed \<in> {[], [(0x0A000002 + word_of_nat k, last_arg 0x0A000002 0x0A000003, 7)]}"
    by (rule Icmp_scan_stays_in_range)
qed

text \<open>The requests a scan still makes when its send to \<open>e\<close> is in flight.\<close>

definition to_do :: "u32 \<Rightarrow> u32 \<Rightarrow> nat" where
  "to_do e l = (if l \<noteq> 0 then unat l - unat e else 0)"

definition request_of :: "uuid_text \<Rightarrow> u16 \<Rightarrow> uuid \<Rightarrow> u32 \<Rightarrow> uuid \<times> u32 \<times> byte list" where
  "request_of U icmpId sid a = (sid, a, echo_packet U icmpId sid)"

lemma addresses_Cons: "addresses e (Suc k) = e # addresses (e + 1) k"
  by (simp add: addresses_def upt_conv_Cons map_Suc_upt [symmetric] del: upt_Suc map_Suc_upt)

lemma EchoRequest_some:
  assumes "map_of (sc_sessions st) sid = Some t"
  shows "fst (EchoRequest U e l sid st) = (sc_restart sid t st)\<lparr>
    sc_requests := sc_requests st @ [request_of U (sc_icmpId st) sid e], sc_sends := sc_sends st @ [(e, l, sid)]\<rparr>"
  by (simp add: EchoRequest_def assms Let_def request_of_def)

lemma sends_complete:
  assumes "sc_running st" and "map_of (sc_sessions st) sid = Some t" and "sc_sends st = [(e, l, sid)]"
    and "to_do e l = m"
  shows "sc_sends (sc_steps U (replicate (Suc m) (SE_Sent 0 ec_ok)) st) = [] \<and>
    sc_requests (sc_steps U (replicate (Suc m) (SE_Sent 0 ec_ok)) st) =
      sc_requests st @ map (request_of U (sc_icmpId st) sid) (addresses (e + 1) m)"
  using assms
proof (induction m arbitrary: st t e)
  case 0
  then have "\<not> (l \<noteq> 0 \<and> l > e)" by (auto simp: to_do_def word_less_nat_alt split: if_splits)
  with 0 show ?case by (auto simp: sc_steps_def HandleSend_def remove_at_def addresses_def)
next
  case (Suc m)
  then have l: "l \<noteq> 0" "unat e < unat l" by (auto simp: to_do_def split: if_splits)
  then have "unat e + 1 < 4294967296" using unsigned_less [of l, where 'a = nat] by simp
  then have e1: "unat (e + 1) = unat e + 1" using unat_add_u32 [of e 1] by simp
  let ?st = "fst (EchoRequest U (e + 1) l sid (st\<lparr>sc_sends := []\<rparr>))"
  note new = EchoRequest_some [of "st\<lparr>sc_sends := []\<rparr>" sid t U "e + 1" l, simplified, OF Suc.prems(2)]
  have step: "sc_step U (SE_Sent 0 ec_ok) st = ?st"
    using Suc.prems l by (simp add: HandleSend_def remove_at_def word_less_nat_alt)
  obtain t' where t': "map_of (sc_sessions ?st) sid = Some t'"
    using Suc.prems(2) by (simp add: new sc_restart_def um_simps)
  have "sc_running ?st" "sc_sends ?st = [(e + 1, l, sid)]"
    using Suc.prems by (simp_all add: new sc_running_def sc_restart_def)
  moreover have "to_do (e + 1) l = m" using Suc.prems(4) l e1 by (simp add: to_do_def)
  ultimately have "sc_sends (sc_steps U (replicate (Suc m) (SE_Sent 0 ec_ok)) ?st) = [] \<and>
      sc_requests (sc_steps U (replicate (Suc m) (SE_Sent 0 ec_ok)) ?st) =
        sc_requests ?st @ map (request_of U (sc_icmpId ?st) sid) (addresses (e + 1 + 1) m)"
    using t' by (intro Suc.IH)
  moreover have "sc_steps U (replicate (Suc (Suc m)) (SE_Sent 0 ec_ok)) st =
      sc_steps U (replicate (Suc m) (SE_Sent 0 ec_ok)) ?st"
    unfolding sc_steps_def replicate_Suc [of "Suc m"] fold_simps step ..
  moreover have "sc_requests ?st = sc_requests st @ [request_of U (sc_icmpId st) sid (e + 1)]"
      "sc_icmpId ?st = sc_icmpId st"
    by (simp_all add: new sc_restart_def)
  ultimately show ?case by (simp add: addresses_Cons)
qed

text \<open>C17: when the sends of a scan succeed, as many completions as the range has addresses end
  it, and every address of the range has been sent one request, in order.\<close>

theorem Icmp_scan_covers_range:
  assumes "sc_running st" and "sc_sends st = []" and "map_of (sc_sessions st) sid = None"
    and "n = Suc (unat (scan_last network netmask) - unat network)"
  shows "sc_sends (sc_steps U (SE_Scan (V4 network) (V4 netmask) sid # replicate n (SE_Sent 0 ec_ok)) st) = [] \<and>
    sc_requests (sc_steps U (SE_Scan (V4 network) (V4 netmask) sid # replicate n (SE_Sent 0 ec_ok)) st) =
      sc_requests st @ map (request_of U (sc_icmpId st) sid) (addresses network n)"
proof -
  let ?hi = "scan_last network netmask" and ?l = "last_arg network (scan_last network netmask)"
  let ?t = "timer_wait sid (timer_set (At (sc_clock st + SESSION_SECONDS)) timer_new)"
  let ?st = "st\<lparr>sc_sessions := fst (um_insert sid ?t (sc_sessions st)), sc_scans := sc_scans st @ [(sid, network, ?hi)]\<rparr>"
  have ge: "unat network \<le> unat ?hi" by (rule scan_last_ge)
  then have "\<not> network > ?hi" by (simp add: word_less_nat_alt)
  then have scan: "sc_step U (SE_Scan (V4 network) (V4 netmask) sid) st = fst (EchoRequest U network ?l sid ?st)"
    using assms(3) by (simp add: Scan_def Let_def snd_um_insert last_arg_def)
  let ?s1 = "fst (EchoRequest U network ?l sid ?st)"
  have ses: "map_of (sc_sessions ?st) sid = Some ?t" using assms(3) by (simp add: um_simps)
  note new = EchoRequest_some [OF ses, of U network ?l]
  obtain t' where t': "map_of (sc_sessions ?s1) sid = Some t'"
    using ses unfolding new by (auto simp: sc_restart_def um_simps)
  have s1: "sc_running ?s1" "sc_sends ?s1 = [(network, ?l, sid)]"
      "sc_requests ?s1 = sc_requests st @ [request_of U (sc_icmpId st) sid network]" "sc_icmpId ?s1 = sc_icmpId st"
    using assms(1,2) unfolding new by (simp_all add: sc_running_def sc_restart_def)
  have "?hi \<noteq> 0 \<or> network = ?hi" using ge by (metis le_zero_eq unsigned_0 unat_eq_zero)
  then have "to_do network ?l = unat ?hi - unat network"
    by (auto simp: to_do_def last_arg_def)
  from sends_complete [OF s1(1) t' s1(2) this, of U] show ?thesis
    unfolding assms(4) sc_steps_def fold_simps scan using s1(3,4) by (simp add: addresses_Cons)
qed

lemma Icmp_scan_covers_range_witness:
  "map (\<lambda>r. fst (snd r)) (sc_requests (sc_steps sample_uuid_text
     (SE_Scan (V4 0x0A000001) (V4 0xFFFFFFFC) 7 # replicate 3 (SE_Sent 0 ec_ok)) (Scanner_Construct 4242)))
   = [0x0A000001, 0x0A000002, 0x0A000003]"
proof -
  have run: "sc_running (Scanner_Construct 4242)" "sc_sends (Scanner_Construct 4242) = []"
      "map_of (sc_sessions (Scanner_Construct 4242)) 7 = None" "sc_requests (Scanner_Construct 4242) = []"
    by code_simp+
  have "scan_last 0x0A000001 0xFFFFFFFC = 0x0A000003" by code_simp
  then have "3 = Suc (unat (scan_last 0x0A000001 0xFFFFFFFC) - unat (0x0A000001 :: u32))" by simp
  from Icmp_scan_covers_range [OF run(1-3) this, of sample_uuid_text] run(4)
  show ?thesis by (simp add: request_of_def comp_def addresses_def upt_rec)
qed

section \<open>The life of a session\<close>

lemma ses_inv_wait:
  assumes "ses_inv st" and "map_of (sc_sessions st) sid = Some t"
  obtains b n where "waits t = [(sid, b)]" and "expires_at t = At n" and "n \<le> sc_clock st + SESSION_SECONDS"
proof -
  from assms have w: "map fst (waits t) = [sid]" and "\<exists>n \<le> sc_clock st + SESSION_SECONDS. expires_at t = At n"
    by (auto simp: ses_inv_def)
  then show thesis using that by (auto simp: map_eq_Cons_conv)
qed

text \<open>The one wait of a session runs when it was aborted by a restart, or when the timer expires.\<close>

lemma timer_event_cases:
  assumes "ses_inv st" and t: "map_of (sc_sessions st) sid = Some t"
  defines "st' \<equiv> st\<lparr>sc_sessions := um_assign sid (t\<lparr>waits := []\<rparr>) (sc_sessions st)\<rparr>"
  shows "sc_timer_event sid i st =
    (if i = 0 \<and> (snd (waits t ! 0) \<or> reached (sc_clock st) (expires_at t))
     then if reached (sc_clock st) (expires_at t)
          then st'\<lparr>sc_sessions := um_erase sid (sc_sessions st')\<rparr>
          else st'\<lparr>sc_sessions := um_assign sid (timer_wait sid (t\<lparr>waits := []\<rparr>)) (sc_sessions st')\<rparr>
     else st)"
proof -
  obtain b n where w: "waits t = [(sid, b)]" by (rule ses_inv_wait [OF assms(1) t])
  have "map_of (sc_sessions st') sid = Some (t\<lparr>waits := []\<rparr>)"
    by (simp add: st'_def um_simps t)
  moreover have "timer_take 0 t = (sid, if b then operation_aborted else ec_ok, t\<lparr>waits := []\<rparr>)"
    by (simp add: timer_take_def w remove_at_def)
  ultimately show ?thesis
    using t w by (auto simp: sc_timer_event_def timer_ready_def HandleSessionTimeout_def st'_def)
qed

lemma ses_inv_timer_event:
  assumes inv: "ses_inv st"
  shows "ses_inv (sc_timer_event sid i st)"
proof (cases "map_of (sc_sessions st) sid")
  case (Some t)
  then show ?thesis
    using inv unfolding timer_event_cases [OF inv Some] by (auto simp: ses_inv_def um_simps timer_wait_def)
qed (simp add: sc_timer_event_def inv)

lemma ses_inv_Scan:
  assumes inv: "ses_inv st"
  shows "ses_inv (fst (Scan U a m sid st))"
proof (cases "map_of (sc_sessions st) sid")
  case None
  let ?t = "timer_wait sid (timer_set (At (sc_clock st + SESSION_SECONDS)) timer_new)"
  have "ses_inv (st\<lparr>sc_sessions := fst (um_insert sid ?t (sc_sessions st)), sc_scans := xs\<rparr>)" for xs
    using inv None by (auto simp: ses_inv_def um_simps timer_new_def)
  then show ?thesis
    using inv by (auto simp: Scan_def Let_def split: ip_address.splits intro!: ses_inv_EchoRequest)
qed (use inv in \<open>auto simp: Scan_def Let_def snd_um_insert split: ip_address.splits\<close>)

lemma ReceiveEcho_cases:
  "fst (ReceiveEcho U q st) = st \<or>
   (\<exists>sid t xs. map_of (sc_sessions st) sid = Some t \<and>
      fst (ReceiveEcho U q st) = (sc_restart sid t st)\<lparr>sc_found := xs\<rparr>)"
  by (auto simp: ReceiveEcho_def Let_def split: prod.splits option.splits)

lemma ses_inv_ReceiveEcho: "ses_inv st \<Longrightarrow> ses_inv (fst (ReceiveEcho U q st))"
proof -
  assume inv: "ses_inv st"
  have "ses_inv (s\<lparr>sc_found := xs\<rparr>) = ses_inv s" for s xs by (rule ses_inv_cong) simp_all
  with ReceiveEcho_cases [of U q st] ses_inv_restart [OF inv] inv show ?thesis by metis
qed

lemma ses_inv_step:
  assumes inv: "ses_inv st"
  shows "ses_inv (sc_step U e st)"
proof (cases e)
  case (SE_Scan a m sid)
  with inv show ?thesis by (simp add: ses_inv_Scan)
next
  case (SE_Sent i ec)
  have "ses_inv (st\<lparr>sc_sends := xs\<rparr>)" for xs
    using inv ses_inv_cong [of "st\<lparr>sc_sends := xs\<rparr>" st] by simp
  then have "ses_inv (HandleSend U ec a l sid (st\<lparr>sc_sends := xs\<rparr>))" for a l sid xs
    by (simp add: HandleSend_def ses_inv_EchoRequest)
  with inv SE_Sent show ?thesis by (simp split: prod.split)
next
  case (SE_Receive ec p)
  have one: "sc_receives st = 1" using inv by (simp add: ses_inv_def)
  have r: "ses_inv (s\<lparr>sc_receives := Suc 0\<rparr>)" if "ses_inv (s\<lparr>sc_receives := 1\<rparr>)" for s
    using that by simp
  have ret: "fst (ReceiveEcho U q (st\<lparr>sc_receives := 0\<rparr>)) = (fst (ReceiveEcho U q st))\<lparr>sc_receives := 0\<rparr>" for q
    by (simp add: ReceiveEcho_def Let_def sc_restart_def split: prod.split option.split)
  have "sc_receives (fst (ReceiveEcho U q st)) = 1" for q
    using ReceiveEcho_cases [of U q st] one by auto
  then have "(fst (ReceiveEcho U q st))\<lparr>sc_receives := 1\<rparr> = fst (ReceiveEcho U q st)" for q by simp
  moreover have "ses_inv (st\<lparr>sc_receives := Suc 0\<rparr>)"
    using inv ses_inv_cong [of "st\<lparr>sc_receives := Suc 0\<rparr>" st] one by simp
  ultimately show ?thesis
    using inv SE_Receive one by (simp add: HandleReceive_def Let_def ret ses_inv_ReceiveEcho split: option.split)
next
  case (SE_Timer sid i)
  with inv show ?thesis by (simp add: ses_inv_timer_event)
next
  case (SE_Orphan i)
  with inv show ?thesis by (simp add: ses_inv_def)
next
  case (SE_Tick n)
  with inv show ?thesis by (fastforce simp: ses_inv_def)
next
  case SE_Stop
  with inv ses_inv_cong [of "st\<lparr>sc_core := Runnable_Stop (sc_core st)\<rparr>" st] show ?thesis by simp
qed

lemma reachable_ses_inv: "sc_reachable U pid st \<Longrightarrow> ses_inv st"
proof (induction rule: sc_reachable.induct)
  case start
  show ?case by (simp add: ses_inv_def Scanner_Construct_def)
qed (rule ses_inv_step)

text \<open>No other step removes a session.\<close>

lemma session_kept:
  assumes inv: "ses_inv st" and ses: "map_of (sc_sessions st) sid \<noteq> None" and e: "\<forall>i. e \<noteq> SE_Timer sid i"
  shows "map_of (sc_sessions (sc_step U e st)) sid \<noteq> None"
proof -
  have echo: "\<exists>y. map_of (sc_sessions (fst (EchoRequest U a l j s))) sid = Some y"
    if "\<exists>y. map_of (sc_sessions s) sid = Some y" for a l j s
    using that by (auto simp: EchoRequest_def Let_def sc_restart_def um_simps split: option.splits)
  show ?thesis
  proof (cases e)
    case (SE_Scan a m j)
    have "map_of (fst (um_insert j x (sc_sessions st))) sid \<noteq> None" for x
      using ses by (auto simp: um_simps split: option.splits)
    then show ?thesis
      using SE_Scan ses by (auto simp: Scan_def Let_def split: ip_address.splits intro!: echo)
  next
    case (SE_Sent i ec)
    then show ?thesis using ses by (auto simp: HandleSend_def split: prod.splits intro!: echo)
  next
    case (SE_Receive ec p)
    have "map_of (sc_sessions (fst (ReceiveEcho U q s))) sid \<noteq> None"
      if "map_of (sc_sessions s) sid \<noteq> None" for q s
      using ReceiveEcho_cases [of U q s] that by (auto simp: sc_restart_def um_simps split: option.splits)
    then show ?thesis
      using SE_Receive ses by (auto simp: HandleReceive_def Let_def split: option.splits)
  next
    case (SE_Timer j i)
    show ?thesis
    proof (cases "map_of (sc_sessions st) j")
      case (Some t)
      have "j \<noteq> sid" using e SE_Timer by blast
      with SE_Timer ses show ?thesis by (auto simp: timer_event_cases [OF inv Some] um_simps split: option.splits)
    qed (use SE_Timer ses in \<open>simp add: sc_timer_event_def\<close>)
  next
    case (SE_Orphan i)
    with inv ses show ?thesis by (simp add: ses_inv_def)
  qed (use ses in simp_all)
qed

text \<open>C33: a session ends through its timer only: its expiry lies at most 40 seconds ahead, no
  event before the expiry removes the session, whichever handler runs, and from the expiry on
  its wait, of which there is always exactly one, removes it.\<close>

theorem Icmp_session_ends_when_silent:
  assumes "sc_reachable U pid st" and "map_of (sc_sessions st) sid = Some t" and "sc_running st"
  shows "(\<exists>n \<le> sc_clock st + 40. expires_at t = At n) \<and> length (waits t) = 1 \<and>
    (map_of (sc_sessions (sc_step U e st)) sid = None \<longleftrightarrow>
       e = SE_Timer sid 0 \<and> reached (sc_clock st) (expires_at t))"
proof -
  have inv: "ses_inv st" by (rule reachable_ses_inv [OF assms(1)])
  obtain b n where w: "waits t = [(sid, b)]" "expires_at t = At n" "n \<le> sc_clock st + SESSION_SECONDS"
    by (rule ses_inv_wait [OF inv assms(2)])
  have timer: "map_of (sc_sessions (sc_timer_event sid i st)) sid = None \<longleftrightarrow> i = 0 \<and> n \<le> sc_clock st" for i
    unfolding timer_event_cases [OF inv assms(2)] by (simp add: um_simps assms(2) w)
  have "map_of (sc_sessions (sc_step U e st)) sid = None \<longleftrightarrow> e = SE_Timer sid 0 \<and> n \<le> sc_clock st"
  proof (cases "\<exists>i. e = SE_Timer sid i")
    case True
    then obtain i where e: "e = SE_Timer sid i" by blast
    show ?thesis unfolding e using timer [of i] assms(3) by simp
  next
    case False
    then have "map_of (sc_sessions (sc_step U e st)) sid \<noteq> None"
      using assms(2) by (intro session_kept [OF inv]) simp_all
    with False show ?thesis by blast
  qed
  with w show ?thesis by (simp add: SESSION_SECONDS_def)
qed

lemma Icmp_session_ends_when_silent_witness:
  "map_of (sc_sessions (sc_step sample_uuid_text (SE_Timer 7 0) (sc_step sample_uuid_text (SE_Tick 40) sample_scanner))) 7 = None \<and>
   map_of (sc_sessions (sc_step sample_uuid_text (SE_Timer 7 0) (sc_step sample_uuid_text (SE_Tick 39) sample_scanner))) 7 \<noteq> None"
proof -
  let ?s = "\<lambda>n. sc_step sample_uuid_text (SE_Tick n) sample_scanner"
  let ?t = "snd (hd (sc_sessions sample_scanner))"
  have "sample_scanner = sc_step sample_uuid_text (SE_Scan (V4 0x0A000002) (V4 0xFFFFFFFC) 7) (Scanner_Construct 4242)"
    by (simp add: sample_scanner_def)
  moreover have "sc_reachable sample_uuid_text 4242
      (sc_step sample_uuid_text (SE_Scan (V4 0x0A000002) (V4 0xFFFFFFFC) 7) (Scanner_Construct 4242))"
    by (rule sc_reachable.step [OF sc_reachable.start]) (simp add: Scanner_Construct_def)
  ultimately have "sc_reachable sample_uuid_text 4242 sample_scanner" by simp
  then have r: "sc_reachable sample_uuid_text 4242 (?s n)" for n by (rule sc_reachable.step) simp
  have s: "map_of (sc_sessions (?s n)) 7 = Some ?t" "sc_running (?s n)" "expires_at ?t = At 40" "sc_clock (?s n) = n" for n
  proof -
    have "map_of (sc_sessions sample_scanner) 7 = Some ?t" "sc_running sample_scanner" "expires_at ?t = At 40"
        "sc_clock sample_scanner = 0" by code_simp+
    then show "map_of (sc_sessions (?s n)) 7 = Some ?t" "sc_running (?s n)" "expires_at ?t = At 40" "sc_clock (?s n) = n"
      by (simp_all add: sc_running_def)
  qed
  have "map_of (sc_sessions (sc_step sample_uuid_text (SE_Timer 7 0) (?s n))) 7 = None \<longleftrightarrow> 40 \<le> n" for n
    using Icmp_session_ends_when_silent [OF r s(1,2), where e = "SE_Timer 7 0"] s(3,4)
    by (simp del: sc_step.simps)
  then show ?thesis by (simp del: sc_step.simps)
qed

end
