(* ===== verification/Sched_Model.thy ===== *)
theory Sched_Model
  imports Prelude
begin

text \<open>
  The task scheduler (\<open>Task.h\<close>, \<open>Scheduler.h\<close>). Its threads - the watcher that runs \<open>Run\<close>, one
  thread per task that was started, and the threads that call \<open>Schedule\<close>, \<open>StopTask\<close> and
  \<open>Stop\<close> - interleave; a step is what a thread does between two points where another one can
  see or change what it uses. The atomics of a task are written without the mutex, so each
  write of a task thread is a step of its own.

  A wait for a future is a step that is not possible before the thread of the task has ended;
  a lock is a step that is not possible while the mutex has an owner. An event that is not
  possible in a state leaves it unchanged. Time is counted in ticks of the steady clock.
\<close>

section \<open>Tasks\<close>

datatype Status = QueuedUp | Pending | Stopped

text \<open>
  Where the thread of a task is: before \<open>get_future\<close>, in \<open>wait_for\<close> until a deadline, in the
  callback, before each write of the status, before the exchange of the promise, before
  \<open>notify_all\<close>, at its end. \<open>T_None\<close>: no thread, the future is ready or not valid.
\<close>

datatype tpc =
    T_None
  | T_Start
  | T_Wait nat
  | T_Call
  | T_Set
  | T_Ready Status
  | T_Swap
  | T_Notify
  | T_End

text \<open>
  The promise is whether its future was retrieved and the value it was given. \<open>tk_nested\<close> is
  the scheduler call that the callback made last.
\<close>

record Task =
  tk_type :: nat
  tk_delay :: nat
  tk_repeat :: bool
  tk_status :: Status
  tk_pc :: tpc
  tk_retrieved :: bool
  tk_value :: "Status option"
  tk_nested :: "nat option"

definition Task_Construct :: "nat \<Rightarrow> nat \<Rightarrow> bool \<Rightarrow> Task" where
  "Task_Construct ty delay repeat =
     \<lparr>tk_type = ty, tk_delay = delay, tk_repeat = repeat, tk_status = QueuedUp, tk_pc = T_None,
      tk_retrieved = False, tk_value = None, tk_nested = None\<rparr>"

section \<open>The scheduler's state\<close>

datatype wpc =
    W_Top
  | W_Lock
  | W_Scan "(nat \<times> nat) list"
  | W_Check
  | W_Block
  | W_Sleep
  | W_Wake
  | W_Exit

datatype scall =
    C_Schedule nat
  | C_StopTask nat
  | C_StopTask_set nat nat
  | C_StopTask_wait nat nat
  | C_Stop
  | C_Stop_flag
  | C_Stop_lock
  | C_Stop_loop "nat list"
  | C_Stop_set nat "nat list"
  | C_Stop_wait nat "nat list"
  | C_Notify bool
  | C_Join

datatype owner = Watcher | Caller nat

record Sched =
  sp_running :: bool
  sp_lock :: "owner option"
  sp_list :: "(nat, nat) um"
  sp_watch :: wpc
  sp_task :: "nat \<Rightarrow> Task"
  sp_count :: nat
  sp_calls :: "nat \<Rightarrow> scall option"
  sp_fresh :: nat
  sp_clock :: nat
  sp_raised :: "exn list"

definition Scheduler_Construct :: Sched where
  "Scheduler_Construct =
     \<lparr>sp_running = True, sp_lock = None, sp_list = [], sp_watch = W_Top,
      sp_task = (\<lambda>_. Task_Construct 0 0 False), sp_count = 0, sp_calls = (\<lambda>_. None), sp_fresh = 0,
      sp_clock = 0, sp_raised = []\<rparr>"

definition sp_upd :: "nat \<Rightarrow> (Task \<Rightarrow> Task) \<Rightarrow> Sched \<Rightarrow> Sched" where
  "sp_upd a f st = st\<lparr>sp_task := (sp_task st)(a := f (sp_task st a))\<rparr>"

definition sp_status :: "nat \<Rightarrow> Status \<Rightarrow> Sched \<Rightarrow> Sched" where
  "sp_status a s st = sp_upd a (\<lambda>t. t\<lparr>tk_status := s\<rparr>) st"

definition sp_pc :: "nat \<Rightarrow> tpc \<Rightarrow> Sched \<Rightarrow> Sched" where
  "sp_pc a p st = sp_upd a (\<lambda>t. t\<lparr>tk_pc := p\<rparr>) st"

definition sp_go :: "nat \<Rightarrow> scall \<Rightarrow> Sched \<Rightarrow> Sched" where
  "sp_go c p st = st\<lparr>sp_calls := (sp_calls st)(c \<mapsto> p)\<rparr>"

definition sp_return :: "nat \<Rightarrow> Sched \<Rightarrow> Sched" where
  "sp_return c st = st\<lparr>sp_calls := (sp_calls st)(c := None)\<rparr>"

text \<open>A call that throws; the lock it holds is released by its destructor.\<close>

definition sp_throw :: "nat \<Rightarrow> exn \<Rightarrow> Sched \<Rightarrow> Sched" where
  "sp_throw c e st = sp_return c (st\<lparr>sp_lock := None, sp_raised := sp_raised st @ [e]\<rparr>)"

text \<open>\<open>notify_all\<close>: only the watcher waits on the condition variable.\<close>

definition sp_notify :: "Sched \<Rightarrow> Sched" where
  "sp_notify st = (if sp_watch st = W_Sleep then st\<lparr>sp_watch := W_Wake\<rparr> else st)"

section \<open>\<open>Run\<close>\<close>

definition all_pending :: "Sched \<Rightarrow> bool" where
  "all_pending st = list_all (\<lambda>e. tk_status (sp_task st (snd e)) = Pending) (sp_list st)"

definition Run_task :: "nat \<Rightarrow> nat \<Rightarrow> (nat \<times> nat) list \<Rightarrow> Sched \<Rightarrow> Sched" where
  "Run_task k a r st =
     (case tk_status (sp_task st a) of
        QueuedUp \<Rightarrow>
          (if tk_pc (sp_task st a) \<noteq> T_None then st
           else (sp_pc a T_Start (sp_status a Pending st))\<lparr>sp_watch := W_Scan r\<rparr>)
      | Stopped \<Rightarrow> st\<lparr>sp_list := um_erase k (sp_list st), sp_watch := W_Scan r\<rparr>
      | Pending \<Rightarrow> st\<lparr>sp_watch := W_Scan r\<rparr>)"

definition Run_step :: "Sched \<Rightarrow> Sched" where
  "Run_step st =
     (case sp_watch st of
        W_Top \<Rightarrow> st\<lparr>sp_watch := (if sp_running st then W_Lock else W_Exit)\<rparr>
      | W_Lock \<Rightarrow>
          (if sp_lock st \<noteq> None then st
           else st\<lparr>sp_lock := Some Watcher, sp_watch := W_Scan (sp_list st)\<rparr>)
      | W_Scan [] \<Rightarrow> st\<lparr>sp_watch := W_Check\<rparr>
      | W_Scan (e # r) \<Rightarrow> Run_task (fst e) (snd e) r st
      | W_Check \<Rightarrow>
          (if sp_running st \<and> all_pending st then st\<lparr>sp_watch := W_Block\<rparr>
           else st\<lparr>sp_lock := None, sp_watch := W_Top\<rparr>)
      | W_Block \<Rightarrow> st\<lparr>sp_lock := None, sp_watch := W_Sleep\<rparr>
      | W_Sleep \<Rightarrow> st
      | W_Wake \<Rightarrow>
          (if sp_lock st \<noteq> None then st
           else st\<lparr>sp_lock := Some Watcher, sp_watch := W_Check\<rparr>)
      | W_Exit \<Rightarrow> st)"

section \<open>The thread of a task\<close>

text \<open>
  \<open>throws\<close>: the callback throws. The callback ends when the scheduler call it made has. The
  handler of an exception sets the status and goes on to \<open>notify_all\<close>.
\<close>

definition sp_nested :: "Sched \<Rightarrow> nat \<Rightarrow> bool" where
  "sp_nested st a =
     (case tk_nested (sp_task st a) of None \<Rightarrow> False | Some c \<Rightarrow> sp_calls st c \<noteq> None)"

definition Task_step :: "nat \<Rightarrow> bool \<Rightarrow> Sched \<Rightarrow> Sched" where
  "Task_step a throws st =
     (case tk_pc (sp_task st a) of
        T_None \<Rightarrow> st
      | T_Start \<Rightarrow>
          (if tk_retrieved (sp_task st a) then sp_pc a T_Notify (sp_status a Stopped st)
           else sp_upd a (\<lambda>t. t\<lparr>tk_retrieved := True, tk_pc := T_Wait (sp_clock st + tk_delay t)\<rparr>) st)
      | T_Wait n \<Rightarrow>
          (case tk_value (sp_task st a) of
             Some v \<Rightarrow> sp_pc a (T_Ready v) st
           | None \<Rightarrow> if n \<le> sp_clock st then sp_pc a T_Call st else st)
      | T_Call \<Rightarrow>
          (if sp_nested st a then st
           else if throws then sp_pc a T_Notify (sp_status a Stopped st)
           else sp_pc a T_Set st)
      | T_Set \<Rightarrow>
          sp_pc a T_Swap (sp_status a (if tk_repeat (sp_task st a) then QueuedUp else Stopped) st)
      | T_Ready v \<Rightarrow> sp_pc a T_Swap (sp_status a v st)
      | T_Swap \<Rightarrow> sp_upd a (\<lambda>t. t\<lparr>tk_retrieved := False, tk_value := None, tk_pc := T_Notify\<rparr>) st
      | T_Notify \<Rightarrow> sp_notify (sp_pc a T_End st)
      | T_End \<Rightarrow> sp_pc a T_None st)"

section \<open>\<open>Schedule\<close>, \<open>StopTask\<close> and \<open>Stop\<close>\<close>

definition Schedule_step :: "nat \<Rightarrow> nat \<Rightarrow> Sched \<Rightarrow> Sched" where
  "Schedule_step c a st =
     (if sp_lock st \<noteq> None then st
      else
        (let ret = um_insert (tk_type (sp_task st a)) a (sp_list st)
         in if \<not> snd ret then sp_throw c (runtime_error ''Unable to schedule task with given type'') st
            else sp_go c (C_Notify False) (st\<lparr>sp_list := fst ret\<rparr>)))"

definition StopTask_step :: "nat \<Rightarrow> nat \<Rightarrow> Sched \<Rightarrow> Sched" where
  "StopTask_step c k st =
     (if sp_lock st \<noteq> None then st
      else case map_of (sp_list st) k of
        None \<Rightarrow> sp_return c st
      | Some a \<Rightarrow>
          (if tk_status (sp_task st a) \<noteq> Pending
           then sp_go c (C_Notify False)
             ((sp_status a Stopped st)\<lparr>sp_list := um_erase k (sp_list st)\<rparr>)
           else sp_go c (C_StopTask_set k a) (st\<lparr>sp_lock := Some (Caller c)\<rparr>)))"

text \<open>\<open>set_value\<close> throws when the promise has a value.\<close>

definition set_value :: "nat \<Rightarrow> nat \<Rightarrow> scall \<Rightarrow> Sched \<Rightarrow> Sched" where
  "set_value c a p st =
     (if tk_value (sp_task st a) \<noteq> None then sp_throw c lib_error st
      else sp_go c p (sp_upd a (\<lambda>t. t\<lparr>tk_value := Some Stopped\<rparr>) st))"

definition Call_step :: "nat \<Rightarrow> Sched \<Rightarrow> Sched" where
  "Call_step c st =
     (case sp_calls st c of
        None \<Rightarrow> st
      | Some p \<Rightarrow>
          (case p of
             C_Schedule a \<Rightarrow> Schedule_step c a st
           | C_StopTask k \<Rightarrow> StopTask_step c k st
           | C_StopTask_set k a \<Rightarrow> set_value c a (C_StopTask_wait k a) st
           | C_StopTask_wait k a \<Rightarrow>
               (if tk_pc (sp_task st a) \<noteq> T_None then st
                else sp_go c (C_Notify False) (st\<lparr>sp_list := um_erase k (sp_list st), sp_lock := None\<rparr>))
           | C_Stop \<Rightarrow> (if \<not> sp_running st then sp_return c st else sp_go c C_Stop_flag st)
           | C_Stop_flag \<Rightarrow> sp_go c C_Stop_lock (st\<lparr>sp_running := False\<rparr>)
           | C_Stop_lock \<Rightarrow>
               (if sp_lock st \<noteq> None then st
                else sp_go c (C_Stop_loop (map snd (sp_list st))) (st\<lparr>sp_lock := Some (Caller c)\<rparr>))
           | C_Stop_loop [] \<Rightarrow> sp_go c (C_Notify True) (st\<lparr>sp_list := [], sp_lock := None\<rparr>)
           | C_Stop_loop (a # r) \<Rightarrow>
               (if tk_status (sp_task st a) \<noteq> Pending
                then sp_go c (C_Stop_loop r) (sp_status a Stopped st)
                else sp_go c (C_Stop_set a r) st)
           | C_Stop_set a r \<Rightarrow> set_value c a (C_Stop_wait a r) st
           | C_Stop_wait a r \<Rightarrow>
               (if tk_pc (sp_task st a) \<noteq> T_None then st else sp_go c (C_Stop_loop r) st)
           | C_Notify join \<Rightarrow> (if join then sp_go c C_Join else sp_return c) (sp_notify st)
           | C_Join \<Rightarrow> (if sp_watch st = W_Exit then sp_return c st else st)))"

section \<open>The machine\<close>

text \<open>
  \<open>SP_Begin p on\<close>: a call begins, from the callback of task \<open>a\<close> when \<open>on = Some a\<close>. A condition
  variable may wake the watcher without a notification (\<open>SP_Spurious\<close>).
\<close>

datatype api = Api_Schedule nat | Api_StopTask nat | Api_Stop

definition api_entry :: "api \<Rightarrow> scall" where
  "api_entry f = (case f of Api_Schedule a \<Rightarrow> C_Schedule a | Api_StopTask k \<Rightarrow> C_StopTask k | Api_Stop \<Rightarrow> C_Stop)"

datatype sp_event =
    SP_New nat nat bool
  | SP_Begin api "nat option"
  | SP_Call nat
  | SP_Watch
  | SP_Task nat bool
  | SP_Tick nat
  | SP_Spurious

definition api_known :: "api \<Rightarrow> Sched \<Rightarrow> bool" where
  "api_known f st = (case f of Api_Schedule a \<Rightarrow> a < sp_count st | _ \<Rightarrow> True)"

fun sp_step :: "sp_event \<Rightarrow> Sched \<Rightarrow> Sched" where
  "sp_step (SP_New ty delay repeat) st =
     st\<lparr>sp_task := (sp_task st)(sp_count st := Task_Construct ty delay repeat), sp_count := Suc (sp_count st)\<rparr>"
| "sp_step (SP_Begin f on) st =
     (let begun = sp_go (sp_fresh st) (api_entry f) (st\<lparr>sp_fresh := Suc (sp_fresh st)\<rparr>)
      in if \<not> api_known f st then st
         else case on of
           None \<Rightarrow> begun
         | Some a \<Rightarrow>
             (if tk_pc (sp_task st a) = T_Call \<and> \<not> sp_nested st a
              then sp_upd a (\<lambda>t. t\<lparr>tk_nested := Some (sp_fresh st)\<rparr>) begun
              else st))"
| "sp_step (SP_Call c) st = Call_step c st"
| "sp_step SP_Watch st = Run_step st"
| "sp_step (SP_Task a throws) st = Task_step a throws st"
| "sp_step (SP_Tick n) st = st\<lparr>sp_clock := sp_clock st + n\<rparr>"
| "sp_step SP_Spurious st = sp_notify st"

definition sp_steps :: "sp_event list \<Rightarrow> Sched \<Rightarrow> Sched" where
  "sp_steps es st = fold sp_step es st"

inductive sp_reachable :: "Sched \<Rightarrow> bool" where
  start: "sp_reachable Scheduler_Construct"
| step: "sp_reachable st \<Longrightarrow> sp_reachable (sp_step e st)"

lemma sp_reachable_steps: "sp_reachable st \<Longrightarrow> sp_reachable (sp_steps es st)"
  unfolding sp_steps_def by (induction es arbitrary: st) (simp_all add: sp_reachable.step)

end
