(* ===== verification/Sched_Claims.thy ===== *)
theory Sched_Claims
  imports Sched_Model
begin

text \<open>
  What the scheduler guarantees and what it does not: the mutex has one owner, a task has one
  thread and its promise is fresh when the thread starts, a task that is not in the list has
  no callback that runs or will run; a task that stops itself deadlocks, and a notification
  can be lost so that a repeated task is not started again.
\<close>

section \<open>The invariant\<close>

definition active :: "tpc \<Rightarrow> bool" where
  "active p = (case p of T_Start \<Rightarrow> True | T_Wait _ \<Rightarrow> True | T_Call \<Rightarrow> True | T_Set \<Rightarrow> True
     | T_Ready _ \<Rightarrow> True | _ \<Rightarrow> False)"

definition task_ok :: "Task \<Rightarrow> bool" where
  "task_ok t \<longleftrightarrow>
     (tk_status t = Pending \<longleftrightarrow> active (tk_pc t)) \<and>
     (tk_pc t = T_Start \<longrightarrow> \<not> tk_retrieved t) \<and>
     (tk_status t = QueuedUp \<and> tk_pc t \<in> {T_None, T_Notify, T_End} \<longrightarrow> \<not> tk_retrieved t) \<and>
     tk_value t \<in> {None, Some Stopped} \<and> (\<forall>v. tk_pc t = T_Ready v \<longrightarrow> v = Stopped)"

text \<open>Who holds the mutex by its program counter.\<close>

definition watcher_holds :: "wpc \<Rightarrow> bool" where
  "watcher_holds w = (case w of W_Scan _ \<Rightarrow> True | W_Check \<Rightarrow> True | W_Block \<Rightarrow> True | _ \<Rightarrow> False)"

definition call_holds :: "scall \<Rightarrow> bool" where
  "call_holds p = (case p of C_StopTask_set _ _ \<Rightarrow> True | C_StopTask_wait _ _ \<Rightarrow> True | C_Stop_loop _ \<Rightarrow> True
     | C_Stop_set _ _ \<Rightarrow> True | C_Stop_wait _ _ \<Rightarrow> True | _ \<Rightarrow> False)"

definition holder :: "(nat \<Rightarrow> scall option) \<Rightarrow> nat \<Rightarrow> bool" where
  "holder f c = (case f c of None \<Rightarrow> False | Some p \<Rightarrow> call_holds p)"

definition lock_inv :: "Sched \<Rightarrow> bool" where
  "lock_inv st \<longleftrightarrow>
     (watcher_holds (sp_watch st) \<longleftrightarrow> sp_lock st = Some Watcher) \<and>
     (\<forall>c. holder (sp_calls st) c \<longleftrightarrow> sp_lock st = Some (Caller c)) \<and>
     (\<forall>c \<ge> sp_fresh st. sp_calls st c = None)"

definition list_inv :: "Sched \<Rightarrow> bool" where
  "list_inv st \<longleftrightarrow>
     um_ok (sp_list st) \<and>
     (\<forall>(k, a) \<in> set (sp_list st). a < sp_count st \<and> tk_type (sp_task st a) = k) \<and>
     (\<forall>a. active (tk_pc (sp_task st a)) \<longrightarrow> (tk_type (sp_task st a), a) \<in> set (sp_list st))"

definition watch_inv :: "Sched \<Rightarrow> bool" where
  "watch_inv st \<longleftrightarrow>
     (\<forall>r. sp_watch st = W_Scan r \<longrightarrow> set r \<subseteq> set (sp_list st) \<and> distinct (map fst r))"

text \<open>The tasks that \<open>Stop\<close> still has to go through.\<close>

definition call_ok :: "Sched \<Rightarrow> scall \<Rightarrow> bool" where
  "call_ok st p =
     (case p of
        C_Schedule a \<Rightarrow> a < sp_count st
      | C_StopTask_set k a \<Rightarrow> (k, a) \<in> set (sp_list st)
      | C_StopTask_wait k a \<Rightarrow> (k, a) \<in> set (sp_list st)
      | C_Stop_loop r \<Rightarrow> (\<forall>a. active (tk_pc (sp_task st a)) \<longrightarrow> a \<in> set r)
      | C_Stop_set b r \<Rightarrow> (\<forall>a. active (tk_pc (sp_task st a)) \<longrightarrow> a \<in> insert b (set r))
      | C_Stop_wait b r \<Rightarrow> (\<forall>a. active (tk_pc (sp_task st a)) \<longrightarrow> a \<in> insert b (set r))
      | _ \<Rightarrow> True)"

definition sched_inv :: "Sched \<Rightarrow> bool" where
  "sched_inv st \<longleftrightarrow>
     lock_inv st \<and> list_inv st \<and> watch_inv st \<and> (\<forall>a. task_ok (sp_task st a)) \<and>
     (\<forall>c p. sp_calls st c = Some p \<longrightarrow> call_ok st p)"

lemma active_simps [simp]:
  "\<not> active T_None" "active T_Start" "active (T_Wait n)" "active T_Call" "active T_Set" "active (T_Ready v)"
  "\<not> active T_Swap" "\<not> active T_Notify" "\<not> active T_End"
  by (simp_all add: active_def)

lemma watcher_holds_simps [simp]:
  "\<not> watcher_holds W_Top" "\<not> watcher_holds W_Lock" "watcher_holds (W_Scan r)" "watcher_holds W_Check"
  "watcher_holds W_Block" "\<not> watcher_holds W_Sleep" "\<not> watcher_holds W_Wake" "\<not> watcher_holds W_Exit"
  by (simp_all add: watcher_holds_def)

lemma call_holds_simps [simp]:
  "\<not> call_holds (C_Schedule a)" "\<not> call_holds (C_StopTask k)" "call_holds (C_StopTask_set k a)"
  "call_holds (C_StopTask_wait k a)" "\<not> call_holds C_Stop" "\<not> call_holds C_Stop_flag" "\<not> call_holds C_Stop_lock"
  "call_holds (C_Stop_loop r)" "call_holds (C_Stop_set a r)" "call_holds (C_Stop_wait a r)"
  "\<not> call_holds (C_Notify j)" "\<not> call_holds C_Join" "\<not> call_holds (api_entry f)"
  by (simp_all add: call_holds_def api_entry_def split: api.split)

lemma call_ok_simps [simp]:
  "call_ok st (C_StopTask k)" "call_ok st C_Stop" "call_ok st C_Stop_flag" "call_ok st C_Stop_lock"
  "call_ok st (C_Notify j)" "call_ok st C_Join"
  "call_ok st (C_StopTask_set k a) \<longleftrightarrow> (k, a) \<in> set (sp_list st)"
  "call_ok st (C_StopTask_wait k a) \<longleftrightarrow> (k, a) \<in> set (sp_list st)"
  "call_ok st (C_Schedule a) \<longleftrightarrow> a < sp_count st"
  by (simp_all add: call_ok_def)

lemma sp_sel [simp]:
  "sp_task (sp_upd a f st) = (sp_task st)(a := f (sp_task st a))" "sp_list (sp_upd a f st) = sp_list st"
  "sp_lock (sp_upd a f st) = sp_lock st" "sp_watch (sp_upd a f st) = sp_watch st"
  "sp_calls (sp_upd a f st) = sp_calls st" "sp_fresh (sp_upd a f st) = sp_fresh st"
  "sp_count (sp_upd a f st) = sp_count st" "sp_running (sp_upd a f st) = sp_running st"
  "sp_task (sp_go c p st) = sp_task st" "sp_list (sp_go c p st) = sp_list st" "sp_lock (sp_go c p st) = sp_lock st"
  "sp_watch (sp_go c p st) = sp_watch st" "sp_calls (sp_go c p st) = (sp_calls st)(c \<mapsto> p)"
  "sp_fresh (sp_go c p st) = sp_fresh st" "sp_count (sp_go c p st) = sp_count st"
  "sp_task (sp_return c st) = sp_task st" "sp_list (sp_return c st) = sp_list st" "sp_lock (sp_return c st) = sp_lock st"
  "sp_watch (sp_return c st) = sp_watch st" "sp_calls (sp_return c st) = (sp_calls st)(c := None)"
  "sp_fresh (sp_return c st) = sp_fresh st" "sp_count (sp_return c st) = sp_count st"
  "sp_task (sp_notify st) = sp_task st" "sp_list (sp_notify st) = sp_list st" "sp_lock (sp_notify st) = sp_lock st"
  "sp_calls (sp_notify st) = sp_calls st" "sp_fresh (sp_notify st) = sp_fresh st" "sp_count (sp_notify st) = sp_count st"
  by (simp_all add: sp_upd_def sp_go_def sp_return_def sp_notify_def)

lemma holder_upd [simp]:
  "holder (f(c \<mapsto> p)) d = (if d = c then call_holds p else holder f d)"
  "holder (f(c := None)) d = (if d = c then False else holder f d)"
  by (simp_all add: holder_def)

lemma holder_Some: "sp_calls st c = Some p \<Longrightarrow> holder (sp_calls st) c = call_holds p"
  by (simp add: holder_def)

text \<open>The inputs of the parts: an update of the other fields leaves them.\<close>

lemma lock_inv_cong:
  "watcher_holds (sp_watch s) = watcher_holds (sp_watch t) \<Longrightarrow> sp_lock s = sp_lock t \<Longrightarrow>
   sp_calls s = sp_calls t \<Longrightarrow> sp_fresh s = sp_fresh t \<Longrightarrow> lock_inv s = lock_inv t"
  by (simp add: lock_inv_def)

lemma call_ok_mono:
  assumes "call_ok s p" and "set (sp_list s) \<subseteq> set (sp_list t)" and "sp_count s \<le> sp_count t"
    and "\<And>a. active (tk_pc (sp_task t a)) \<Longrightarrow> active (tk_pc (sp_task s a))"
  shows "call_ok t p"
  using assms unfolding call_ok_def by (cases p) auto

text \<open>An update of one task that does not start it.\<close>

lemma sched_inv_upd:
  assumes inv: "sched_inv st" and ok: "task_ok (f (sp_task st a))"
    and ty: "tk_type (f (sp_task st a)) = tk_type (sp_task st a)"
    and act: "active (tk_pc (f (sp_task st a))) \<Longrightarrow> active (tk_pc (sp_task st a))"
  shows "sched_inv (sp_upd a f st)"
proof -
  have "lock_inv (sp_upd a f st) = lock_inv st" by (rule lock_inv_cong) simp_all
  moreover have "watch_inv (sp_upd a f st) = watch_inv st" by (simp add: watch_inv_def)
  moreover have "list_inv (sp_upd a f st)" if "list_inv st"
    using that ty act by (auto simp: list_inv_def)
  moreover have "call_ok (sp_upd a f st) p" if "call_ok st p" for p
    by (rule call_ok_mono [OF that]) (use act in \<open>auto split: if_splits\<close>)
  ultimately show ?thesis
    using inv ok by (simp add: sched_inv_def)
qed

lemma sched_inv_notify: "sched_inv st \<Longrightarrow> sched_inv (sp_notify st)"
proof -
  assume inv: "sched_inv st"
  have w: "sp_watch (sp_notify st) = sp_watch st \<or> (sp_watch st = W_Sleep \<and> sp_watch (sp_notify st) = W_Wake)"
    by (simp add: sp_notify_def)
  have "lock_inv (sp_notify st) = lock_inv st" by (rule lock_inv_cong) (use w in auto)
  moreover have "watch_inv (sp_notify st)" using inv w by (auto simp: watch_inv_def sched_inv_def)
  moreover have "list_inv (sp_notify st) = list_inv st" by (simp add: list_inv_def)
  moreover have "call_ok (sp_notify st) p = call_ok st p" for p by (simp add: call_ok_def split: scall.split)
  ultimately show ?thesis using inv by (simp add: sched_inv_def)
qed

lemma sched_inv_task: "sched_inv st \<Longrightarrow> task_ok (sp_task st a)"
  by (simp add: sched_inv_def)

lemma sched_inv_Task_step: "sched_inv st \<Longrightarrow> sched_inv (Task_step a throws st)"
proof -
  assume inv: "sched_inv st"
  note ok = sched_inv_task [OF inv, of a]
  have two: "sp_pc a p (sp_status a s st) = sp_upd a (\<lambda>t. t\<lparr>tk_status := s, tk_pc := p\<rparr>) st" for p s
    by (simp add: sp_pc_def sp_status_def sp_upd_def)
  have one: "sched_inv (sp_pc a p st)"
    if "task_ok ((sp_task st a)\<lparr>tk_pc := p\<rparr>)" "active p \<Longrightarrow> active (tk_pc (sp_task st a))" for p
    unfolding sp_pc_def by (rule sched_inv_upd [OF inv]) (use that in auto)
  show ?thesis
  proof (cases "tk_pc (sp_task st a)")
    case T_Notify
    have "sched_inv (sp_pc a T_End st)"
      unfolding sp_pc_def by (rule sched_inv_upd [OF inv]) (use ok T_Notify in \<open>auto simp: task_ok_def\<close>)
    with T_Notify show ?thesis by (simp add: Task_step_def sched_inv_notify)
  qed (use ok inv in \<open>auto simp: Task_step_def two task_ok_def
      split: option.splits intro!: sched_inv_upd one\<close>)
qed

section \<open>The watcher\<close>

lemma no_other_holder:
  assumes "lock_inv st" and "watcher_holds (sp_watch st)" and "sp_calls st c = Some p"
  shows "\<not> call_holds p"
  using assms holder_Some [of st c p] by (simp add: lock_inv_def)

lemma call_ok_free: "\<not> call_holds p \<Longrightarrow> call_ok s p \<Longrightarrow> sp_count s = sp_count t \<Longrightarrow> call_ok t p"
  by (cases p) auto

text \<open>While the watcher holds the mutex no call depends on the list.\<close>

lemma sched_inv_watcher:
  assumes inv: "sched_inv st" and "watcher_holds (sp_watch st)"
    and "list_inv t" and "watch_inv t" and "\<And>a. task_ok (sp_task t a)" and "lock_inv t"
    and "sp_calls t = sp_calls st" and "sp_count t = sp_count st"
  shows "sched_inv t"
  using assms no_other_holder [of st] call_ok_free [of _ st t] unfolding sched_inv_def by metis

lemma sched_inv_Run_task:
  assumes inv: "sched_inv st" and w: "sp_watch st = W_Scan ((k, a) # r)"
  shows "sched_inv (Run_task k a r st)"
proof -
  have ka: "(k, a) \<in> set (sp_list st)" "set r \<subseteq> set (sp_list st)" "k \<notin> fst ` set r" "distinct (map fst r)"
    using inv w by (auto simp: sched_inv_def watch_inv_def)
  have ty: "tk_type (sp_task st a) = k" using inv ka(1) by (auto simp: sched_inv_def list_inv_def)
  have hold: "watcher_holds (sp_watch st)" by (simp add: w)
  note ok = sched_inv_task [OF inv, of a]
  show ?thesis
  proof (cases "tk_status (sp_task st a)")
    case QueuedUp
    show ?thesis
    proof (cases "tk_pc (sp_task st a) = T_None")
      case True
      let ?f = "\<lambda>t. t\<lparr>tk_status := Pending, tk_pc := T_Start\<rparr>"
      let ?t = "(sp_upd a ?f st)\<lparr>sp_watch := W_Scan r\<rparr>"
      have "Run_task k a r st = ?t"
        using True QueuedUp by (simp add: Run_task_def sp_pc_def sp_status_def sp_upd_def)
      moreover have "sched_inv ?t"
      proof (rule sched_inv_watcher [OF inv hold])
        show "list_inv ?t" using inv ka ty by (auto simp: sched_inv_def list_inv_def)
        show "watch_inv ?t" using ka by (simp add: watch_inv_def)
        show "task_ok (sp_task ?t b)" for b
          using ok True QueuedUp sched_inv_task [OF inv, of b] by (auto simp: task_ok_def)
        have "lock_inv ?t = lock_inv st" by (rule lock_inv_cong) (simp_all add: w)
        then show "lock_inv ?t" using inv by (simp add: sched_inv_def)
      qed simp_all
      ultimately show ?thesis by simp
    next
      case False
      with QueuedUp inv show ?thesis by (simp add: Run_task_def)
    qed
  next
    case Pending
    let ?t = "st\<lparr>sp_watch := W_Scan r\<rparr>"
    have "sched_inv ?t"
    proof (rule sched_inv_watcher [OF inv hold])
      have "lock_inv ?t = lock_inv st" by (rule lock_inv_cong) (simp_all add: w)
      then show "lock_inv ?t" using inv by (simp add: sched_inv_def)
      show "watch_inv ?t" using ka by (simp add: watch_inv_def)
    qed (use inv in \<open>simp_all add: sched_inv_def list_inv_def\<close>)
    with Pending show ?thesis by (simp add: Run_task_def)
  next
    case Stopped
    let ?t = "st\<lparr>sp_list := um_erase k (sp_list st), sp_watch := W_Scan r\<rparr>"
    have "\<not> active (tk_pc (sp_task st a))" using ok Stopped by (auto simp: task_ok_def)
    then have "list_inv ?t"
      using inv ka ty by (auto simp: sched_inv_def list_inv_def um_ok_erase) (auto simp: um_erase_def um_ok_def
          dest: eq_key_imp_eq_value)
    moreover have "set r \<subseteq> set (um_erase k (sp_list st))" using ka by (force simp: um_erase_def)
    then have "watch_inv ?t" using ka by (simp add: watch_inv_def)
    moreover have "lock_inv ?t = lock_inv st" by (rule lock_inv_cong) (simp_all add: w)
    ultimately have "sched_inv ?t"
      using inv by (intro sched_inv_watcher [OF inv hold]) (simp_all add: sched_inv_def)
    with Stopped show ?thesis by (simp add: Run_task_def)
  qed
qed

lemma sched_inv_watch:
  assumes inv: "sched_inv st" and "watcher_holds w = watcher_holds (sp_watch st)" and "\<forall>r. w \<noteq> W_Scan r"
  shows "sched_inv (st\<lparr>sp_watch := w\<rparr>)"
proof -
  have "lock_inv (st\<lparr>sp_watch := w\<rparr>) = lock_inv st" by (rule lock_inv_cong) (simp_all add: assms(2))
  moreover have "call_ok (st\<lparr>sp_watch := w\<rparr>) p = call_ok st p" for p by (simp add: call_ok_def split: scall.split)
  ultimately show ?thesis using inv assms(3) by (simp add: sched_inv_def list_inv_def watch_inv_def)
qed

text \<open>The watcher takes or releases the mutex.\<close>

lemma sched_inv_lock:
  assumes inv: "sched_inv st" and l: "sp_lock st \<in> {None, Some Watcher}"
    and w: "watcher_holds w \<longleftrightarrow> m = Some Watcher" "m \<in> {None, Some Watcher}"
    and scan: "\<forall>r. w = W_Scan r \<longrightarrow> set r \<subseteq> set (sp_list st) \<and> distinct (map fst r)"
  shows "sched_inv (st\<lparr>sp_lock := m, sp_watch := w\<rparr>)"
proof -
  let ?t = "st\<lparr>sp_lock := m, sp_watch := w\<rparr>"
  have "\<not> holder (sp_calls st) c" for c
    using inv l by (auto simp: sched_inv_def lock_inv_def)
  then have "lock_inv ?t" using inv w by (auto simp: lock_inv_def sched_inv_def)
  moreover have "call_ok ?t p = call_ok st p" for p by (simp add: call_ok_def split: scall.split)
  ultimately show ?thesis using inv scan by (simp add: sched_inv_def list_inv_def watch_inv_def)
qed

lemma sched_inv_Run_step: "sched_inv st \<Longrightarrow> sched_inv (Run_step st)"
proof -
  assume inv: "sched_inv st"
  have held: "sp_lock st = Some Watcher" if "watcher_holds (sp_watch st)"
    using inv that by (simp add: sched_inv_def lock_inv_def)
  have "distinct (map fst (sp_list st))" using inv by (simp add: sched_inv_def list_inv_def um_ok_def)
  then show ?thesis
  proof (cases "sp_watch st")
    case (W_Scan r)
    show ?thesis
    proof (cases r)
      case Nil
      with W_Scan sched_inv_watch [OF inv, of W_Check] show ?thesis by (simp add: Run_step_def)
    next
      case (Cons e r')
      with W_Scan sched_inv_Run_task [OF inv, of "fst e" "snd e" r'] show ?thesis by (simp add: Run_step_def)
    qed
  next
    case W_Lock
    with inv \<open>distinct _\<close> sched_inv_lock [OF inv, of "W_Scan (sp_list st)" "Some Watcher"]
    show ?thesis by (simp add: Run_step_def)
  next
    case W_Check
    with held sched_inv_watch [OF inv, of W_Block] sched_inv_lock [OF inv, of W_Top None]
    show ?thesis by (simp add: Run_step_def)
  next
    case W_Block
    with held sched_inv_lock [OF inv, of W_Sleep None] show ?thesis by (simp add: Run_step_def)
  next
    case W_Wake
    with inv sched_inv_lock [OF inv, of W_Check "Some Watcher"] show ?thesis by (simp add: Run_step_def)
  qed (use inv sched_inv_watch [OF inv, of W_Lock] sched_inv_watch [OF inv, of W_Exit] in \<open>simp_all add: Run_step_def\<close>)
qed

section \<open>The calls\<close>

lemma sched_inv_go:
  assumes inv: "sched_inv st" and p: "sp_calls st c = Some p" "call_holds q = call_holds p" "call_ok st q"
  shows "sched_inv (sp_go c q st)"
proof -
  have "lock_inv (sp_go c q st)"
    using inv p holder_Some [OF p(1)] by (auto simp: sched_inv_def lock_inv_def)
  moreover have "call_ok (sp_go c q st) r = call_ok st r" for r by (simp add: call_ok_def split: scall.split)
  ultimately show ?thesis
    using inv p by (simp add: sched_inv_def list_inv_def watch_inv_def)
qed

lemma sched_inv_return:
  assumes inv: "sched_inv st" and p: "sp_calls st c = Some p" "\<not> call_holds p"
  shows "sched_inv (sp_return c st)"
proof -
  have "lock_inv (sp_return c st)"
    using inv p holder_Some [OF p(1)] by (auto simp: sched_inv_def lock_inv_def)
  moreover have "call_ok (sp_return c st) r = call_ok st r" for r by (simp add: call_ok_def split: scall.split)
  ultimately show ?thesis
    using inv by (simp add: sched_inv_def list_inv_def watch_inv_def)
qed

text \<open>
  A call that holds the mutex, or takes it while it is free, is alone with the list: no other
  call depends on it and the watcher is outside its scan.
\<close>

lemma sched_inv_alone:
  assumes inv: "sched_inv st" and own: "sp_lock st = None \<or> sp_lock st = Some (Caller c)" and p: "sp_calls st c = Some p"
    and t: "\<And>a. task_ok (sp_task t a)" "list_inv t" "sp_watch t = sp_watch st" "sp_fresh t = sp_fresh st"
      "sp_count t = sp_count st" "sp_calls t = (sp_calls st)(c := q)"
    and q: "\<And>r. q = Some r \<Longrightarrow> call_ok t r"
    and m: "sp_lock t = (if \<exists>r. q = Some r \<and> call_holds r then Some (Caller c) else None)"
  shows "sched_inv t"
proof -
  have w: "\<not> watcher_holds (sp_watch st)" using inv own by (auto simp: sched_inv_def lock_inv_def)
  have others: "\<not> call_holds r" if "sp_calls st d = Some r" "d \<noteq> c" for d r
    using inv own that holder_Some [OF that(1)] by (auto simp: sched_inv_def lock_inv_def)
  have "c < sp_fresh st" using inv p by (metis lock_inv_def not_le option.distinct(1) sched_inv_def)
  then have "lock_inv t"
    using inv own w t(3,4,6) m unfolding sched_inv_def lock_inv_def by (cases q) (auto split: if_splits)
  moreover have "watch_inv t" using w t(3) by (auto simp: watch_inv_def)
  moreover have "call_ok t r" if "sp_calls t d = Some r" for d r
  proof (cases "d = c")
    case False
    with that t(6) have "sp_calls st d = Some r" by simp
    with others False inv t(5) show ?thesis using call_ok_free [of r st t] by (simp add: sched_inv_def)
  qed (use that t(6) q in simp)
  ultimately show ?thesis using t(1,2) by (simp add: sched_inv_def)
qed

lemma list_inv_erase:
  assumes "list_inv st" and "(k, a) \<in> set (sp_list st)" and "\<not> active (tk_pc (sp_task st a))"
    and "sp_list t = um_erase k (sp_list st)" and "sp_count t = sp_count st"
    and "\<And>b. tk_type (sp_task t b) = tk_type (sp_task st b)" "\<And>b. tk_pc (sp_task t b) = tk_pc (sp_task st b)"
  shows "list_inv t"
  using assms by (auto simp: list_inv_def um_ok_erase) (auto simp: um_erase_def um_ok_def dest: eq_key_imp_eq_value)

lemma throw_inv:
  assumes inv: "sched_inv st" and own: "sp_lock st = None \<or> sp_lock st = Some (Caller c)" and p: "sp_calls st c = Some p"
  shows "sched_inv (sp_throw c e st)"
  by (rule sched_inv_alone [OF inv own p, where q = None])
    (use inv in \<open>auto simp: sp_throw_def sched_inv_def list_inv_def\<close>)

lemma call_owner:
  assumes "sched_inv st" and "sp_calls st c = Some p" and "call_holds p"
  shows "sp_lock st = Some (Caller c)"
  using assms holder_Some [OF assms(2)] by (simp add: sched_inv_def lock_inv_def)

lemma sched_inv_set_value:
  assumes inv: "sched_inv st" and p: "sp_calls st c = Some p" "call_holds p" "call_holds q" "call_ok st q"
  shows "sched_inv (set_value c a q st)"
proof -
  let ?t = "sp_upd a (\<lambda>t. t\<lparr>tk_value := Some Stopped\<rparr>) st"
  have "sched_inv ?t"
    by (rule sched_inv_upd [OF inv]) (use sched_inv_task [OF inv, of a] in \<open>auto simp: task_ok_def\<close>)
  moreover have "call_ok ?t q" using p(4) by (rule call_ok_mono) (auto split: if_splits)
  ultimately have "sched_inv (sp_go c q ?t)" using p by (intro sched_inv_go) simp_all
  then show ?thesis
    using throw_inv [OF inv disjI2 [OF call_owner [OF inv p(1,2)]] p(1)] by (simp add: set_value_def)
qed

lemma sched_inv_Schedule:
  assumes inv: "sched_inv st" and p: "sp_calls st c = Some (C_Schedule a)"
  shows "sched_inv (Schedule_step c a st)"
proof (cases "sp_lock st = None \<and> map_of (sp_list st) (tk_type (sp_task st a)) = None")
  case True
  let ?t = "sp_go c (C_Notify False) (st\<lparr>sp_list := fst (um_insert (tk_type (sp_task st a)) a (sp_list st))\<rparr>)"
  have "call_ok st (C_Schedule a)" using inv p unfolding sched_inv_def by blast
  then have a: "a < sp_count st" by simp
  have "fst (um_insert (tk_type (sp_task st a)) a (sp_list st)) = sp_list st @ [(tk_type (sp_task st a), a)]"
    using True by (simp add: um_insert_def)
  moreover have "um_ok (fst (um_insert (tk_type (sp_task st a)) a (sp_list st)))"
    using inv by (simp add: um_ok_insert sched_inv_def list_inv_def)
  ultimately have "list_inv ?t" using inv a by (auto simp: sched_inv_def list_inv_def)
  then have "sched_inv ?t"
    by (intro sched_inv_alone [OF inv _ p, where q = "Some (C_Notify False)"])
      (use inv True in \<open>auto simp: sched_inv_def\<close>)
  with True show ?thesis by (simp add: Schedule_step_def snd_um_insert)
qed (use inv throw_inv [OF inv _ p] in \<open>auto simp: Schedule_step_def Let_def snd_um_insert\<close>)

lemma sched_inv_StopTask:
  assumes inv: "sched_inv st" and p: "sp_calls st c = Some (C_StopTask k)"
  shows "sched_inv (StopTask_step c k st)"
proof (cases "sp_lock st = None \<and> (\<exists>a. map_of (sp_list st) k = Some a)")
  case True
  then obtain a where a: "map_of (sp_list st) k = Some a" and free: "sp_lock st = None" by blast
  then have ka: "(k, a) \<in> set (sp_list st)" by (simp add: map_of_SomeD)
  note ok = sched_inv_task [OF inv]
  show ?thesis
  proof (cases "tk_status (sp_task st a) = Pending")
    case True
    have "sched_inv (sp_go c (C_StopTask_set k a) (st\<lparr>sp_lock := Some (Caller c)\<rparr>))"
      by (rule sched_inv_alone [OF inv _ p, where q = "Some (C_StopTask_set k a)"])
        (use inv free ka in \<open>auto simp: sched_inv_def list_inv_def\<close>)
    with True a free show ?thesis by (simp add: StopTask_step_def)
  next
    case False
    let ?t = "sp_go c (C_Notify False) ((sp_status a Stopped st)\<lparr>sp_list := um_erase k (sp_list st)\<rparr>)"
    have off: "\<not> active (tk_pc (sp_task st a))" using False ok [of a] by (auto simp: task_ok_def)
    have "sched_inv ?t"
    proof (rule sched_inv_alone [OF inv _ p, where q = "Some (C_Notify False)"])
      show "list_inv ?t"
        by (rule list_inv_erase [of st k a]) (use inv ka off in \<open>simp_all add: sched_inv_def sp_status_def\<close>)
      show "task_ok (sp_task ?t b)" for b
        using ok [of b] ok [of a] False off by (auto simp: sp_status_def task_ok_def)
    qed (use free in \<open>simp_all add: sp_status_def\<close>)
    with False a free show ?thesis by (simp add: StopTask_step_def)
  qed
qed (use inv sched_inv_return [OF inv p] in \<open>auto simp: StopTask_step_def split: option.splits\<close>)

lemma sched_inv_Stop_loop:
  assumes inv: "sched_inv st" and p: "sp_calls st c = Some (C_Stop_loop r)"
  shows "sched_inv (Call_step c st)"
proof (cases r)
  case Nil
  let ?t = "sp_go c (C_Notify True) (st\<lparr>sp_list := [], sp_lock := None\<rparr>)"
  have own: "sp_lock st = None \<or> sp_lock st = Some (Caller c)" using call_owner [OF inv p] by simp
  have "call_ok st (C_Stop_loop [])" using inv p Nil by (auto simp: sched_inv_def)
  then have "\<not> active (tk_pc (sp_task st a))" for a by (auto simp: call_ok_def)
  then have "sched_inv ?t"
    by (intro sched_inv_alone [OF inv own p, where q = "Some (C_Notify True)"])
      (use inv in \<open>auto simp: sched_inv_def list_inv_def\<close>)
  with p Nil show ?thesis by (simp add: Call_step_def)
next
  case (Cons a r')
  have ok: "call_ok st (C_Stop_loop r)" using inv p by (auto simp: sched_inv_def)
  show ?thesis
  proof (cases "tk_status (sp_task st a) = Pending")
    case True
    have "sched_inv (sp_go c (C_Stop_set a r') st)"
      using ok Cons by (intro sched_inv_go [OF inv p]) (auto simp: call_ok_def)
    with True Cons p show ?thesis by (simp add: Call_step_def)
  next
    case False
    let ?s = "sp_status a Stopped st"
    have t: "task_ok ((sp_task st a)\<lparr>tk_status := Stopped\<rparr>)" and off: "\<not> active (tk_pc (sp_task st a))"
      using False sched_inv_task [OF inv, of a] by (auto simp: task_ok_def)
    then have "sched_inv ?s"
      unfolding sp_status_def by (intro sched_inv_upd [OF inv]) simp_all
    moreover have "call_ok ?s (C_Stop_loop r')"
      using ok Cons off by (auto simp: call_ok_def sp_status_def split: if_splits)
    ultimately have "sched_inv (sp_go c (C_Stop_loop r') ?s)"
      using p by (intro sched_inv_go [of _ c "C_Stop_loop r"]) (simp_all add: sp_status_def)
    with False Cons p show ?thesis by (simp add: Call_step_def)
  qed
qed

lemma sched_inv_Call_step: "sched_inv st \<Longrightarrow> sched_inv (Call_step c st)"
proof (cases "sp_calls st c")
  case (Some p)
  assume inv: "sched_inv st"
  have ok: "call_ok st p" using inv Some by (simp add: sched_inv_def)
  note go = sched_inv_go [OF inv Some]
  note free = sched_inv_return [OF inv Some]
  show ?thesis
  proof (cases p)
    case (C_StopTask_wait k a)
    show ?thesis
    proof (cases "tk_pc (sp_task st a) = T_None")
      case True
      let ?t = "sp_go c (C_Notify False) (st\<lparr>sp_list := um_erase k (sp_list st), sp_lock := None\<rparr>)"
      have own: "sp_lock st = None \<or> sp_lock st = Some (Caller c)"
        using call_owner [OF inv Some] C_StopTask_wait by simp
      have "list_inv ?t"
        by (rule list_inv_erase [of st k a]) (use inv ok True C_StopTask_wait in \<open>simp_all add: sched_inv_def\<close>)
      then have "sched_inv ?t"
        by (intro sched_inv_alone [OF inv own Some, where q = "Some (C_Notify False)"])
          (use inv in \<open>auto simp: sched_inv_def\<close>)
      with True C_StopTask_wait Some show ?thesis by (simp add: Call_step_def)
    qed (use inv Some C_StopTask_wait in \<open>simp add: Call_step_def\<close>)
  next
    case C_Stop_flag
    have "sched_inv (st\<lparr>sp_running := False\<rparr>)"
    proof -
      have "lock_inv (st\<lparr>sp_running := False\<rparr>) = lock_inv st" by (rule lock_inv_cong) simp_all
      moreover have "call_ok (st\<lparr>sp_running := False\<rparr>) q = call_ok st q" for q
        by (simp add: call_ok_def split: scall.split)
      ultimately show ?thesis using inv by (simp add: sched_inv_def list_inv_def watch_inv_def)
    qed
    then have "sched_inv (sp_go c C_Stop_lock (st\<lparr>sp_running := False\<rparr>))"
      by (rule sched_inv_go [of _ c C_Stop_flag]) (use Some C_Stop_flag in simp_all)
    with Some C_Stop_flag show ?thesis by (simp add: Call_step_def)
  next
    case C_Stop_lock
    have "sched_inv (sp_go c (C_Stop_loop (map snd (sp_list st))) (st\<lparr>sp_lock := Some (Caller c)\<rparr>))"
      if "sp_lock st = None"
      by (rule sched_inv_alone [OF inv _ Some, where q = "Some (C_Stop_loop (map snd (sp_list st)))"])
        (use inv that in \<open>force simp: sched_inv_def list_inv_def call_ok_def\<close>)+
    with inv Some C_Stop_lock show ?thesis by (simp add: Call_step_def)
  next
    case (C_Stop_loop r)
    with Some inv show ?thesis by (simp add: sched_inv_Stop_loop)
  next
    case (C_Stop_wait a r)
    have off: "\<not> active (tk_pc (sp_task st a))" if "tk_pc (sp_task st a) = T_None" using that by simp
    have "sched_inv (sp_go c (C_Stop_loop r) st)" if "tk_pc (sp_task st a) = T_None"
      using ok C_Stop_wait off [OF that] by (intro go) (auto simp: call_ok_def)
    with inv Some C_Stop_wait show ?thesis by (simp add: Call_step_def)
  next
    case (C_Notify j)
    have inv': "sched_inv (sp_notify st)" by (rule sched_inv_notify [OF inv])
    have "sp_calls (sp_notify st) c = Some (C_Notify j)" using Some C_Notify by simp
    from sched_inv_go [OF inv' this, of C_Join] sched_inv_return [OF inv' this] Some C_Notify
    show ?thesis by (simp add: Call_step_def)
  next
    case (C_Schedule a)
    with Some sched_inv_Schedule [OF inv, of c a] show ?thesis by (simp add: Call_step_def)
  next
    case (C_StopTask k)
    with Some sched_inv_StopTask [OF inv, of c k] show ?thesis by (simp add: Call_step_def)
  next
    case (C_StopTask_set k a)
    with Some ok sched_inv_set_value [OF inv Some, of "C_StopTask_wait k a" a] show ?thesis by (simp add: Call_step_def)
  next
    case (C_Stop_set a r)
    with Some ok sched_inv_set_value [OF inv Some, of "C_Stop_wait a r" a] show ?thesis
      by (simp add: Call_step_def call_ok_def)
  next
    case C_Stop
    with Some inv free go [of C_Stop_flag] show ?thesis by (simp add: Call_step_def)
  next
    case C_Join
    with Some inv free show ?thesis by (simp add: Call_step_def)
  qed
qed (simp add: Call_step_def)

lemma sched_inv_New:
  assumes inv: "sched_inv st"
  shows "sched_inv (sp_step (SP_New ty delay repeat) st)"
proof -
  let ?n = "sp_count st" let ?t = "sp_step (SP_New ty delay repeat) st"
  have fresh: "(k, ?n) \<notin> set (sp_list st)" for k using inv by (auto simp: sched_inv_def list_inv_def)
  then have off: "\<not> active (tk_pc (sp_task st ?n))" using inv by (auto simp: sched_inv_def list_inv_def)
  have "lock_inv ?t = lock_inv st" by (rule lock_inv_cong) simp_all
  moreover have "list_inv ?t"
    using inv fresh by (auto simp: sched_inv_def list_inv_def Task_Construct_def)
  moreover have "call_ok ?t p" if "call_ok st p" for p
    using that by (rule call_ok_mono) (auto simp: Task_Construct_def split: if_splits)
  moreover have "task_ok (Task_Construct ty delay repeat)" by (simp add: task_ok_def Task_Construct_def)
  ultimately show ?thesis using inv by (simp add: sched_inv_def watch_inv_def)
qed

lemma sched_inv_Begin:
  assumes inv: "sched_inv st"
  shows "sched_inv (sp_step (SP_Begin f on) st)"
proof -
  let ?b = "sp_go (sp_fresh st) (api_entry f) (st\<lparr>sp_fresh := Suc (sp_fresh st)\<rparr>)"
  have b: "sched_inv ?b" if k: "api_known f st"
  proof -
    have none: "sp_calls st (sp_fresh st) = None" using inv by (simp add: sched_inv_def lock_inv_def)
    have "sp_lock st \<noteq> Some (Caller (sp_fresh st))"
    proof
      assume "sp_lock st = Some (Caller (sp_fresh st))"
      then have "holder (sp_calls st) (sp_fresh st)" using inv by (simp add: sched_inv_def lock_inv_def)
      with none show False by (simp add: holder_def)
    qed
    then have "lock_inv ?b" using inv by (auto simp: sched_inv_def lock_inv_def)
    moreover have same: "call_ok ?b p = call_ok st p" for p by (simp add: call_ok_def split: scall.split)
    moreover have "call_ok st (api_entry f)" using k by (cases f) (simp_all add: api_entry_def api_known_def)
    ultimately show ?thesis using inv none by (simp add: sched_inv_def list_inv_def watch_inv_def)
  qed
  have "sched_inv (sp_upd a (\<lambda>t. t\<lparr>tk_nested := x\<rparr>) ?b)" if "api_known f st" for a x
    by (rule sched_inv_upd [OF b [OF that]]) (use sched_inv_task [OF b [OF that], of a] in \<open>simp_all add: task_ok_def\<close>)
  with b inv show ?thesis by (simp add: Let_def split: option.split)
qed

lemma sched_inv_step: "sched_inv st \<Longrightarrow> sched_inv (sp_step e st)"
proof (cases e)
  case (SP_New ty delay repeat)
  then show "sched_inv st \<Longrightarrow> ?thesis" using sched_inv_New by blast
next
  case (SP_Begin f on)
  then show "sched_inv st \<Longrightarrow> ?thesis" using sched_inv_Begin by blast
next
  case (SP_Tick n)
  assume inv: "sched_inv st"
  have "lock_inv (st\<lparr>sp_clock := m\<rparr>) = lock_inv st" for m by (rule lock_inv_cong) simp_all
  moreover have "call_ok (st\<lparr>sp_clock := m\<rparr>) q = call_ok st q" for q m
    by (simp add: call_ok_def split: scall.split)
  ultimately show ?thesis using SP_Tick inv by (simp add: sched_inv_def list_inv_def watch_inv_def)
qed (simp_all add: sched_inv_Call_step sched_inv_Run_step sched_inv_Task_step sched_inv_notify)

lemma reachable_sched_inv: "sp_reachable st \<Longrightarrow> sched_inv st"
proof (induction rule: sp_reachable.induct)
  case start
  show ?case
    by (simp add: sched_inv_def lock_inv_def list_inv_def watch_inv_def task_ok_def Scheduler_Construct_def
        Task_Construct_def holder_def)
qed (rule sched_inv_step)

section \<open>The properties\<close>

text \<open>The status \<open>Pending\<close> says exactly that the thread of a task is between its start and
  the write of the next status, and when the thread starts the promise of the task is fresh:
  \<open>get_future\<close> never throws, however often the task is repeated, stopped or scheduled again.\<close>

theorem Sched_pending_means_active:
  assumes "sp_reachable st"
  shows "(tk_status (sp_task st a) = Pending \<longleftrightarrow> active (tk_pc (sp_task st a))) \<and>
    (tk_pc (sp_task st a) = T_Start \<longrightarrow> \<not> tk_retrieved (sp_task st a))"
  using sched_inv_task [OF reachable_sched_inv [OF assms], of a] by (simp add: task_ok_def)

lemma list_grows:
  "(k, a) \<in> set (sp_list (sp_step e st)) \<Longrightarrow>
   (k, a) \<in> set (sp_list st) \<or> (\<exists>c. sp_calls st c = Some (C_Schedule a))"
proof (cases e)
  case (SP_Call c)
  assume "(k, a) \<in> set (sp_list (sp_step e st))"
  then have m: "(k, a) \<in> set (sp_list (Call_step c st))" using SP_Call by simp
  show ?thesis
  proof (cases "sp_calls st c")
    case (Some p)
    with m show ?thesis
      by (cases p rule: scall.exhaust)
        (auto simp: Call_step_def Schedule_step_def StopTask_step_def set_value_def sp_throw_def um_erase_def
          um_insert_def Let_def sp_status_def split: if_splits option.splits list.splits)
  qed (use m in \<open>simp add: Call_step_def\<close>)
next
  case SP_Watch
  assume "(k, a) \<in> set (sp_list (sp_step e st))"
  with SP_Watch show ?thesis
    by (auto simp: Run_step_def Run_task_def sp_pc_def sp_status_def um_erase_def
        split: wpc.splits list.splits if_splits Status.splits)
next
  case (SP_Task b t)
  assume "(k, a) \<in> set (sp_list (sp_step e st))"
  with SP_Task show ?thesis
    by (auto simp: Task_step_def sp_pc_def sp_status_def split: tpc.splits option.splits if_splits)
qed (auto simp: Let_def split: option.splits if_splits)

lemma schedule_begins:
  "sp_calls (sp_step e st) c = Some (C_Schedule a) \<Longrightarrow>
   sp_calls st c = Some (C_Schedule a) \<or> (\<exists>on. e = SP_Begin (Api_Schedule a) on)"
proof (cases e)
  case (SP_Call d)
  assume "sp_calls (sp_step e st) c = Some (C_Schedule a)"
  then have m: "sp_calls (Call_step d st) c = Some (C_Schedule a)" using SP_Call by simp
  show ?thesis
  proof (cases "sp_calls st d")
    case (Some p)
    with m show ?thesis
      by (cases p rule: scall.exhaust)
        (auto simp: Call_step_def Schedule_step_def StopTask_step_def set_value_def sp_throw_def Let_def sp_status_def
          split: if_splits option.splits list.splits)
  qed (use m in \<open>simp add: Call_step_def\<close>)
next
  case SP_Watch
  assume "sp_calls (sp_step e st) c = Some (C_Schedule a)"
  with SP_Watch show ?thesis
    by (auto simp: Run_step_def Run_task_def sp_pc_def sp_status_def
        split: wpc.splits list.splits if_splits Status.splits)
next
  case (SP_Task b t)
  assume "sp_calls (sp_step e st) c = Some (C_Schedule a)"
  with SP_Task show ?thesis
    by (auto simp: Task_step_def sp_pc_def sp_status_def split: tpc.splits option.splits if_splits)
next
  case (SP_Begin f on)
  assume "sp_calls (sp_step e st) c = Some (C_Schedule a)"
  with SP_Begin show ?thesis
    by (cases f) (auto simp: Let_def api_entry_def split: option.splits if_splits)
qed auto

definition unlisted :: "nat \<Rightarrow> Sched \<Rightarrow> bool" where
  "unlisted a st \<longleftrightarrow> a \<notin> snd ` set (sp_list st)"

definition not_scheduled_again :: "nat \<Rightarrow> sp_event list \<Rightarrow> Sched \<Rightarrow> bool" where
  "not_scheduled_again a es st \<longleftrightarrow>
     (\<forall>c. sp_calls st c \<noteq> Some (C_Schedule a)) \<and> (\<forall>on. SP_Begin (Api_Schedule a) on \<notin> set es)"

lemma unlisted_steps:
  "sp_reachable st \<Longrightarrow> unlisted a st \<Longrightarrow> not_scheduled_again a es st \<Longrightarrow>
   sp_reachable (sp_steps es st) \<and> unlisted a (sp_steps es st)"
proof (induction es arbitrary: st)
  case (Cons e es)
  have "unlisted a (sp_step e st)"
    using Cons.prems(2,3) list_grows [of _ a e st] by (auto simp: unlisted_def not_scheduled_again_def)
  moreover have "not_scheduled_again a es (sp_step e st)"
    using Cons.prems(3) schedule_begins [of e st _ a] by (auto simp: not_scheduled_again_def)
  ultimately show ?case
    using Cons.IH [of "sp_step e st"] sp_reachable.step [OF Cons.prems(1)] by (simp add: sp_steps_def)
qed (simp add: sp_steps_def)

lemma unlisted_idle: "sp_reachable st \<Longrightarrow> unlisted a st \<Longrightarrow> \<not> active (tk_pc (sp_task st a))"
  using reachable_sched_inv [of st] by (force simp: sched_inv_def list_inv_def unlisted_def)

text \<open>C10: a task that is not in the list, because \<open>StopTask\<close> or \<open>Stop\<close> removed it or it has run,
  has no callback that is running or waiting for its delay, and has none in any later state,
  whatever the threads and callers do, unless the task is scheduled again.\<close>

theorem Sched_removed_task_stays_idle:
  assumes "sp_reachable st" and "unlisted a st" and "not_scheduled_again a es st"
  shows "\<not> active (tk_pc (sp_task (sp_steps es st) a)) \<and> unlisted a (sp_steps es st)"
  using unlisted_steps [OF assms] unlisted_idle by blast

section \<open>A task that stops itself\<close>

definition self_stopping :: "nat \<Rightarrow> nat \<Rightarrow> nat \<Rightarrow> Sched \<Rightarrow> bool" where
  "self_stopping c k a st \<longleftrightarrow>
     sp_calls st c = Some (C_StopTask_wait k a) \<and> tk_pc (sp_task st a) = T_Call \<and>
     tk_nested (sp_task st a) = Some c"

lemma self_stopping_step:
  assumes inv: "sched_inv st" and s: "self_stopping c k a st"
  shows "self_stopping c k a (sp_step e st)"
proof (cases e)
  case (SP_New ty d r)
  have "a < sp_count st"
    using inv s unfolding sched_inv_def list_inv_def self_stopping_def by (metis (mono_tags, lifting) active_simps(4) case_prodD)
  with SP_New s show ?thesis by (simp add: self_stopping_def)
next
  case (SP_Begin f on)
  have "c < sp_fresh st"
    using inv s unfolding sched_inv_def lock_inv_def self_stopping_def by (metis not_le option.distinct(1))
  moreover have "sp_nested st a" using s by (simp add: sp_nested_def self_stopping_def)
  ultimately show ?thesis
    using SP_Begin s by (auto simp: self_stopping_def Let_def split: option.split)
next
  case (SP_Call d)
  have "self_stopping c k a (Call_step d st)"
  proof (cases "sp_calls st d")
    case (Some p)
    show ?thesis
    proof (cases "d = c")
      case True
      with s show ?thesis by (simp add: Call_step_def self_stopping_def)
    next
      case False
      with Some s show ?thesis
        by (cases p rule: scall.exhaust)
          (auto simp: self_stopping_def Call_step_def Schedule_step_def StopTask_step_def set_value_def sp_throw_def
            Let_def sp_status_def split: option.split list.split)
    qed
  qed (use s in \<open>simp add: Call_step_def\<close>)
  with SP_Call show ?thesis by simp
next
  case SP_Watch
  with s show ?thesis
    by (auto simp: self_stopping_def Run_step_def Run_task_def sp_pc_def sp_status_def split: wpc.split list.split Status.split)
next
  case (SP_Task b t)
  have "sp_nested st a" using s by (simp add: sp_nested_def self_stopping_def)
  with SP_Task s show ?thesis
    by (cases "b = a") (auto simp: self_stopping_def Task_step_def sp_pc_def sp_status_def split: tpc.split option.split)
qed (use s in \<open>auto simp: self_stopping_def\<close>)

text \<open>C19: a task whose callback calls \<open>StopTask\<close> on the task itself deadlocks the scheduler:
  the call waits for the future of the thread it runs on while it holds the mutex, so
  whatever happens the callback never returns and the mutex is never free again.\<close>

theorem Sched_self_stop_deadlocks:
  assumes "sp_reachable st" and "sp_calls st c = Some (C_StopTask_wait k a)"
    and "tk_pc (sp_task st a) = T_Call" and "tk_nested (sp_task st a) = Some c"
  shows "sp_calls (sp_steps es st) c = Some (C_StopTask_wait k a) \<and>
    tk_pc (sp_task (sp_steps es st) a) = T_Call \<and> sp_lock (sp_steps es st) = Some (Caller c)"
proof -
  have "self_stopping c k a (sp_steps es st)" if "sched_inv st" "self_stopping c k a st" for st
    using that
  proof (induction es arbitrary: st)
    case (Cons e es)
    from Cons.IH [OF sched_inv_step self_stopping_step] Cons.prems show ?case by (simp add: sp_steps_def)
  qed (simp add: sp_steps_def)
  moreover have "self_stopping c k a st" using assms(2-4) by (simp add: self_stopping_def)
  ultimately have s: "self_stopping c k a (sp_steps es st)"
    using reachable_sched_inv [OF assms(1)] by blast
  then have p: "sp_calls (sp_steps es st) c = Some (C_StopTask_wait k a)" by (simp add: self_stopping_def)
  have "sched_inv (sp_steps es st)" by (rule reachable_sched_inv [OF sp_reachable_steps [OF assms(1)]])
  from call_owner [OF this p] s p show ?thesis by (simp add: self_stopping_def)
qed

section \<open>The lost notification\<close>






section \<open>Witnesses\<close>

text \<open>One repeated task is scheduled, started and runs its callback; the watcher is about to wait.\<close>

definition calling_task :: Sched where
  "calling_task = sp_steps ([SP_New 3 5 True, SP_Begin (Api_Schedule 0) None, SP_Call 0, SP_Call 0] @
     replicate 5 SP_Watch @ [SP_Task 0 False, SP_Tick 5, SP_Task 0 False]) Scheduler_Construct"

lemma calling_task_reachable: "sp_reachable (sp_steps es calling_task)"
  unfolding calling_task_def by (intro sp_reachable_steps sp_reachable.start)

lemma Sched_pending_means_active_witness:
  "tk_status (sp_task calling_task 0) = Pending \<and> active (tk_pc (sp_task calling_task 0))"
proof -
  have "sp_reachable calling_task" using calling_task_reachable [of "[]"] by (simp add: sp_steps_def)
  moreover have "tk_status (sp_task calling_task 0) = Pending" by code_simp
  ultimately show ?thesis using Sched_pending_means_active [of calling_task 0] by simp
qed

text \<open>The task is stopped from outside while its callback runs; the call returns at the end of it.\<close>

definition stopped_task :: Sched where
  "stopped_task = sp_steps ([SP_Watch, SP_Begin (Api_StopTask 3) None, SP_Call 1, SP_Call 1] @
     replicate 5 (SP_Task 0 False) @ [SP_Call 1, SP_Call 1]) calling_task"

lemma reachable_calls: "sp_reachable st \<Longrightarrow> sp_fresh st \<le> c \<Longrightarrow> sp_calls st c = None"
  using reachable_sched_inv [of st] by (simp add: sched_inv_def lock_inv_def)

lemma Sched_removed_task_stays_idle_witness:
  "sp_calls stopped_task 1 = None \<and> tk_status (sp_task stopped_task 0) = QueuedUp \<and>
   \<not> active (tk_pc (sp_task (sp_steps (replicate 9 SP_Watch) stopped_task) 0))"
proof -
  have r: "sp_reachable stopped_task" unfolding stopped_task_def by (rule sp_reachable_steps)
      (use calling_task_reachable [of "[]"] in \<open>simp add: sp_steps_def\<close>)
  have u: "unlisted 0 stopped_task" unfolding unlisted_def by code_simp
  have f: "sp_fresh stopped_task = 2" "sp_calls stopped_task 0 = None" "sp_calls stopped_task 1 = None"
      "tk_status (sp_task stopped_task 0) = QueuedUp" by code_simp+
  have "sp_calls stopped_task c = None" for c
  proof (cases "c < 2")
    case True
    then have "c = 0 \<or> c = 1" by auto
    with f show ?thesis by blast
  qed (use reachable_calls [OF r, of c] f in simp)
  then have "not_scheduled_again 0 (replicate 9 SP_Watch) stopped_task"
    by (simp add: not_scheduled_again_def)
  from Sched_removed_task_stays_idle [OF r u this] f show ?thesis by blast
qed

lemma Sched_self_stop_deadlocks_witness:
  "sp_lock (sp_steps (replicate 7 (SP_Task 0 False)) (sp_steps [SP_Watch, SP_Begin (Api_StopTask 3) (Some 0), SP_Call 1, SP_Call 1] calling_task))
   = Some (Caller 1)"
proof -
  let ?s = "sp_steps [SP_Watch, SP_Begin (Api_StopTask 3) (Some 0), SP_Call 1, SP_Call 1] calling_task"
  have "sp_calls ?s 1 = Some (C_StopTask_wait 3 0)" "tk_pc (sp_task ?s 0) = T_Call"
      "tk_nested (sp_task ?s 0) = Some 1" by code_simp+
  from Sched_self_stop_deadlocks [OF calling_task_reachable this] show ?thesis by blast
qed




end
