(* ===== verification/Printer_Client.thy ===== *)
theory Printer_Client
  imports Asio
begin

text \<open>
  The client side of the printer proxy (\<open>printer_client/src\<close>): it accepts one client and
  connects to one server, and passes on what either sends. A session's buffer is an array that
  reads fill from its start; a write names the session whose buffer it sends from and takes
  the bytes when it completes, so that a read into the buffer in the meantime is seen. The
  machine runs one handler per step; the environment chooses results and bytes.
\<close>

section \<open>Sessions\<close>

text \<open>\<open>ps_up\<close>: the connection of the open socket is established.\<close>

record PSession =
  ps_open :: bool
  ps_up :: bool
  ps_buffer :: "byte list"
  ps_transferred :: nat

definition buffSize :: nat where "buffSize = 4096"

definition PSession_Construct :: "nat \<Rightarrow> PSession" where
  "PSession_Construct raw = \<lparr>ps_open = False, ps_up = False, ps_buffer = [], ps_transferred = raw\<rparr>"

definition PSession_SetTransferred :: "nat \<Rightarrow> PSession \<Rightarrow> PSession" where
  "PSession_SetTransferred n s = s\<lparr>ps_transferred := n\<rparr>"

definition PSession_Stop :: "PSession \<Rightarrow> PSession" where
  "PSession_Stop s = (if ps_open s then s\<lparr>ps_open := False, ps_up := False\<rparr> else s)"

text \<open>A read of the bytes \<open>bs\<close> into the buffer.\<close>

definition fill :: "byte list \<Rightarrow> byte list \<Rightarrow> byte list" where
  "fill bs buf = bs @ drop (length bs) buf"

section \<open>The state\<close>

text \<open>The handler that a write completes with.\<close>

datatype rc_handler = H_ClientWrite | H_ServerWrite

datatype rc_op =
    RC_Accept addr
  | RC_Connect addr
  | RC_ReadClient addr
  | RC_ReadServer addr
  | RC_Write addr addr nat rc_handler
  | RC_Byte addr byte rc_handler

text \<open>\<open>rc_received\<close> and \<open>rc_wire\<close> log what was read from and written to the sockets.\<close>

record PClient =
  rc_heap :: "addr \<Rightarrow> PSession"
  rc_fresh :: addr
  rc_first :: "addr option"
  rc_second :: "addr option"
  rc_pending :: "rc_op list"
  rc_work :: bool
  rc_stopped :: bool
  rc_received :: "(addr \<times> byte list) list"
  rc_wire :: "(addr \<times> rc_handler \<times> byte list) list"

definition rc_session :: "addr \<Rightarrow> (PSession \<Rightarrow> PSession) \<Rightarrow> PClient \<Rightarrow> PClient" where
  "rc_session a f st = st\<lparr>rc_heap := (rc_heap st)(a := f (rc_heap st a))\<rparr>"

definition rc_start :: "rc_op \<Rightarrow> PClient \<Rightarrow> PClient" where
  "rc_start p st = st\<lparr>rc_pending := rc_pending st @ [p]\<rparr>"

definition rc_new :: "nat \<Rightarrow> PClient \<Rightarrow> PClient" where
  "rc_new raw st = st\<lparr>rc_heap := (rc_heap st)(rc_fresh st := PSession_Construct raw), rc_fresh := Suc (rc_fresh st)\<rparr>"

definition stop_some :: "addr option \<Rightarrow> PClient \<Rightarrow> PClient" where
  "stop_some x st = (case x of None \<Rightarrow> st | Some a \<Rightarrow> rc_session a PSession_Stop st)"

definition PClient_Close :: "PClient \<Rightarrow> PClient" where
  "PClient_Close st = stop_some (rc_second st) (stop_some (rc_first st) st)"

definition PClient_Accept :: "nat \<Rightarrow> PClient \<Rightarrow> PClient" where
  "PClient_Accept raw st =
     (let a = rc_fresh st in rc_start (RC_Accept a) ((rc_new raw st)\<lparr>rc_first := Some a\<rparr>))"

text \<open>\<open>resolves\<close>: the resolver finds the server; \<open>async_connect\<close> opens the socket.\<close>

definition PClient_Connect :: "bool \<Rightarrow> nat \<Rightarrow> PClient \<Rightarrow> PClient" where
  "PClient_Connect resolves raw st =
     (let a = rc_fresh st; st1 = (rc_new raw st)\<lparr>rc_second := Some a\<rparr>
      in if resolves then rc_start (RC_Connect a) (rc_session a (\<lambda>s. s\<lparr>ps_open := True\<rparr>) st1)
         else PClient_Close st1)"

definition PClient_Construct :: "bool \<Rightarrow> nat \<times> nat \<Rightarrow> PClient" where
  "PClient_Construct resolves raw =
     PClient_Connect resolves (snd raw) (PClient_Accept (fst raw)
       \<lparr>rc_heap = (\<lambda>_. PSession_Construct 0), rc_fresh = 0, rc_first = None, rc_second = None,
        rc_pending = [], rc_work = True, rc_stopped = False, rc_received = [], rc_wire = []\<rparr>)"

definition PClient_Stop :: "PClient \<Rightarrow> PClient" where
  "PClient_Stop st = (PClient_Close st)\<lparr>rc_work := False, rc_stopped := True\<rparr>"

section \<open>Handlers\<close>

text \<open>
  A null session is dereferenced: \<open>Crash\<close>. Printing the first ten bytes of a shorter message
  moves an iterator past the end of the string, which is undefined: \<open>Crash\<close>.
\<close>

definition PClient_HandleClientWrite :: "error_code \<Rightarrow> PClient \<Rightarrow> PClient run" where
  "PClient_HandleClientWrite er st =
     (if failed er then Done (PClient_Close st)
      else case rc_second st of None \<Rightarrow> Crash | Some b \<Rightarrow> Done (rc_start (RC_ReadServer b) st))"

definition PClient_HandleServerWrite :: "error_code \<Rightarrow> PClient \<Rightarrow> PClient run" where
  "PClient_HandleServerWrite er st =
     (if failed er then Done (PClient_Close st)
      else case rc_first st of None \<Rightarrow> Crash | Some a \<Rightarrow> Done (rc_start (RC_ReadClient a) st))"

text \<open>\<open>options\<close>: the socket options can be set.\<close>

definition PClient_HandleConnect :: "addr \<Rightarrow> error_code \<Rightarrow> bool \<Rightarrow> PClient \<Rightarrow> PClient run" where
  "PClient_HandleConnect session er options st =
     (if failed er \<or> \<not> options then Done (PClient_Close st) else PClient_HandleClientWrite ec_ok st)"

definition PClient_HandleAccept :: "addr \<Rightarrow> error_code \<Rightarrow> bool \<Rightarrow> PClient \<Rightarrow> PClient run" where
  "PClient_HandleAccept session er options st =
     (if failed er \<or> \<not> options then Done (PClient_Close st) else PClient_HandleServerWrite ec_ok st)"

definition PClient_HandleServerRead :: "error_code \<Rightarrow> nat \<Rightarrow> PClient \<Rightarrow> PClient run" where
  "PClient_HandleServerRead er transferred st =
     (if failed er then Done (PClient_Close st)
      else case (rc_first st, rc_second st) of
        (Some a, Some b) \<Rightarrow>
          Done (rc_start (RC_Write a b transferred H_ClientWrite)
            (rc_session b (PSession_SetTransferred transferred) st))
      | _ \<Rightarrow> Crash)"

definition PClient_HandleClientRead :: "error_code \<Rightarrow> nat \<Rightarrow> PClient \<Rightarrow> PClient run" where
  "PClient_HandleClientRead er transferred st =
     (if failed er then Done (PClient_Close st)
      else case (rc_first st, rc_second st) of
        (Some a, Some b) \<Rightarrow>
          (let st1 = rc_session a (PSession_SetTransferred transferred) st
           in if transferred < 10 then Crash
              else Done (rc_start (RC_Byte a 0 H_ServerWrite)
                (rc_start (RC_Write b a transferred H_ServerWrite) st1)))
      | _ \<Rightarrow> Crash)"

definition PClient_written :: "rc_handler \<Rightarrow> error_code \<Rightarrow> PClient \<Rightarrow> PClient run" where
  "PClient_written h er st =
     (case h of H_ClientWrite \<Rightarrow> PClient_HandleClientWrite er st | H_ServerWrite \<Rightarrow> PClient_HandleServerWrite er st)"

section \<open>The machine\<close>

datatype rc_event =
    RE_Opened nat error_code bool
  | RE_Read nat error_code "byte list"
  | RE_Written nat error_code
  | RE_Stop

definition rc_drop :: "nat \<Rightarrow> PClient \<Rightarrow> PClient" where
  "rc_drop i st = st\<lparr>rc_pending := remove_at i (rc_pending st)\<rparr>"

definition rc_up :: "addr \<Rightarrow> error_code \<Rightarrow> PClient \<Rightarrow> PClient" where
  "rc_up a er st = (if failed er then st else rc_session a (\<lambda>s. s\<lparr>ps_open := True, ps_up := True\<rparr>) st)"

definition rc_log :: "addr \<Rightarrow> rc_handler \<Rightarrow> byte list \<Rightarrow> error_code \<Rightarrow> PClient \<Rightarrow> PClient" where
  "rc_log a h bs er st = (if failed er then st else st\<lparr>rc_wire := rc_wire st @ [(a, h, bs)]\<rparr>)"

text \<open>A read brings one to \<open>buffSize\<close> bytes from an established connection.\<close>

definition rc_read :: "addr \<Rightarrow> byte list \<Rightarrow> PClient \<Rightarrow> PClient" where
  "rc_read a bs st =
     (rc_session a (\<lambda>s. s\<lparr>ps_buffer := fill bs (ps_buffer s)\<rparr>) st)\<lparr>rc_received := rc_received st @ [(a, bs)]\<rparr>"

definition rc_complete :: "nat \<Rightarrow> rc_event \<Rightarrow> PClient \<Rightarrow> PClient run" where
  "rc_complete i e st =
     (case (e, rc_pending st ! i) of
        (RE_Opened _ er options, RC_Accept a) \<Rightarrow>
          PClient_HandleAccept a er options (rc_up a er (rc_drop i st))
      | (RE_Opened _ er options, RC_Connect a) \<Rightarrow>
          (if failed er \<or> ps_open (rc_heap st a)
           then PClient_HandleConnect a er options (rc_up a er (rc_drop i st)) else Done st)
      | (RE_Read _ er bs, RC_ReadClient a) \<Rightarrow>
          (if failed er then PClient_HandleClientRead er 0 (rc_drop i st)
           else if ps_up (rc_heap st a) \<and> bs \<noteq> [] \<and> length bs \<le> buffSize
           then PClient_HandleClientRead ec_ok (length bs) (rc_read a bs (rc_drop i st)) else Done st)
      | (RE_Read _ er bs, RC_ReadServer a) \<Rightarrow>
          (if failed er then PClient_HandleServerRead er 0 (rc_drop i st)
           else if ps_up (rc_heap st a) \<and> bs \<noteq> [] \<and> length bs \<le> buffSize
           then PClient_HandleServerRead ec_ok (length bs) (rc_read a bs (rc_drop i st)) else Done st)
      | (RE_Written _ er, RC_Write a b n h) \<Rightarrow>
          (if failed er \<or> ps_up (rc_heap st a)
           then PClient_written h er (rc_log a h (take n (ps_buffer (rc_heap st b))) er (rc_drop i st)) else Done st)
      | (RE_Written _ er, RC_Byte a r h) \<Rightarrow>
          (if failed er \<or> ps_up (rc_heap st a)
           then PClient_written h er (rc_log a h [r] er (rc_drop i st)) else Done st)
      | _ \<Rightarrow> Done st)"

fun rc_index :: "rc_event \<Rightarrow> nat" where
  "rc_index (RE_Opened i _ _) = i"
| "rc_index (RE_Read i _ _) = i"
| "rc_index (RE_Written i _) = i"
| "rc_index RE_Stop = 0"

definition rc_step :: "rc_event \<Rightarrow> PClient \<Rightarrow> PClient run" where
  "rc_step e st =
     (if rc_stopped st then Done st
      else if e = RE_Stop then Done (PClient_Stop st)
      else if rc_index e < length (rc_pending st) then rc_complete (rc_index e) e st
      else Done st)"

fun rc_steps :: "rc_event list \<Rightarrow> PClient \<Rightarrow> PClient run" where
  "rc_steps [] st = Done st"
| "rc_steps (e # es) st = bind_run (rc_step e st) (rc_steps es)"

inductive rc_reachable :: "PClient \<Rightarrow> bool" where
  start: "rc_reachable (PClient_Construct resolves raw)"
| step: "rc_reachable st \<Longrightarrow> rc_step e st = Done t \<Longrightarrow> rc_reachable t"

section \<open>From the server to the client\<close>

text \<open>
  The operations of this direction follow each other: connecting, reading from the server,
  writing what was read to the client. \<open>down_bytes\<close> are the bytes such a write will send.
\<close>

definition is_down :: "rc_op \<Rightarrow> bool" where
  "is_down p = (case p of RC_Connect _ \<Rightarrow> True | RC_ReadServer _ \<Rightarrow> True
     | RC_Write _ _ _ h \<Rightarrow> h = H_ClientWrite | RC_Byte _ _ h \<Rightarrow> h = H_ClientWrite | _ \<Rightarrow> False)"

definition down_bytes :: "PClient \<Rightarrow> byte list" where
  "down_bytes st = concat (map (\<lambda>p. case p of RC_Write _ b n H_ClientWrite \<Rightarrow> take n (ps_buffer (rc_heap st b)) | _ \<Rightarrow> [])
     (rc_pending st))"

definition received_from_server :: "PClient \<Rightarrow> byte list" where
  "received_from_server st = concat (map snd (filter (\<lambda>r. Some (fst r) = rc_second st) (rc_received st)))"

definition sent_to_client :: "PClient \<Rightarrow> byte list" where
  "sent_to_client st = concat (map (\<lambda>w. snd (snd w)) (filter (\<lambda>w. fst (snd w) = H_ClientWrite) (rc_wire st)))"

end
