(* ===== verification/Printer_Claims.thy ===== *)
theory Printer_Claims
  imports Printer_Client
begin

text \<open>
  What the client of the printer proxy guarantees: from the server to the client the bytes are
  passed on exactly; from the client to the server they are not, as the handler of one read
  starts two writes that each start the next read.
\<close>

section \<open>The invariant of the direction from the server\<close>

definition op_ok :: "rc_op \<Rightarrow> bool" where
  "op_ok p = (case p of RC_Accept a \<Rightarrow> a = 0 | RC_Connect a \<Rightarrow> a = 1 | RC_ReadClient a \<Rightarrow> a = 0
     | RC_ReadServer a \<Rightarrow> a = 1 | RC_Write a b n h \<Rightarrow> h = H_ClientWrite \<longrightarrow> a = 0 \<and> b = 1 | RC_Byte a r h \<Rightarrow> h = H_ServerWrite)"

definition payload :: "byte list \<Rightarrow> rc_op \<Rightarrow> byte list" where
  "payload buf p = (case p of RC_Write _ _ n _ \<Rightarrow> take n buf | _ \<Rightarrow> [])"

text \<open>The operations in flight, the buffer of the server's session, the bytes received and sent.\<close>

definition down_inv :: "rc_op list \<Rightarrow> byte list \<Rightarrow> byte list \<Rightarrow> byte list \<Rightarrow> bool" where
  "down_inv ps buf recv sent \<longleftrightarrow>
     list_all op_ok ps \<and> length (filter is_down ps) \<le> 1 \<and>
     (\<exists>lost. recv = sent @ lost \<and> (\<forall>p \<in> set ps. is_down p \<longrightarrow> lost = payload buf p))"

definition rc_inv :: "PClient \<Rightarrow> bool" where
  "rc_inv st \<longleftrightarrow>
     rc_first st = Some 0 \<and> rc_second st = Some 1 \<and>
     down_inv (rc_pending st) (ps_buffer (rc_heap st 1)) (received_from_server st) (sent_to_client st)"

lemma is_down_simps [simp]:
  "\<not> is_down (RC_Accept a)" "is_down (RC_Connect a)" "\<not> is_down (RC_ReadClient a)" "is_down (RC_ReadServer a)"
  "is_down (RC_Write a b n h) \<longleftrightarrow> h = H_ClientWrite" "is_down (RC_Byte a r h) \<longleftrightarrow> h = H_ClientWrite"
  by (simp_all add: is_down_def)

lemma op_ok_simps [simp]:
  "op_ok (RC_Accept a) \<longleftrightarrow> a = 0" "op_ok (RC_Connect a) \<longleftrightarrow> a = 1" "op_ok (RC_ReadClient a) \<longleftrightarrow> a = 0"
  "op_ok (RC_ReadServer a) \<longleftrightarrow> a = 1" "op_ok (RC_Write a b n H_ClientWrite) \<longleftrightarrow> a = 0 \<and> b = 1"
  "op_ok (RC_Write a b n H_ServerWrite)" "op_ok (RC_Byte a r h) \<longleftrightarrow> h = H_ServerWrite"
  by (simp_all add: op_ok_def)

lemma down_inv_drop:
  assumes inv: "down_inv ps buf recv sent" and i: "i < length ps"
  shows "down_inv (remove_at i ps) buf recv sent"
    and "is_down (ps ! i) \<Longrightarrow> filter is_down (remove_at i ps) = []"
proof -
  have sub: "set (remove_at i ps) \<subseteq> set ps" by (rule mset_remove_at [OF i])
  have len: "length (filter is_down (remove_at i ps)) = length (filter is_down ps) - (if is_down (ps ! i) then 1 else 0)"
    by (rule filter_remove_at [OF i])
  show "down_inv (remove_at i ps) buf recv sent"
    using inv sub len by (auto simp: down_inv_def list_all_iff)
  show "filter is_down (remove_at i ps) = []" if "is_down (ps ! i)"
    using inv len that by (simp add: down_inv_def)
qed

text \<open>An operation outside this direction starts.\<close>

lemma down_inv_other:
  "down_inv ps buf recv sent \<Longrightarrow> \<not> is_down p \<Longrightarrow> op_ok p \<Longrightarrow> down_inv (ps @ [p]) buf recv sent"
  by (auto simp: down_inv_def)

text \<open>The next operation of the direction starts when none is in flight.\<close>

lemma down_inv_next:
  "list_all op_ok ps \<Longrightarrow> filter is_down ps = [] \<Longrightarrow> op_ok p \<Longrightarrow> recv = sent @ payload buf p \<Longrightarrow>
   down_inv (ps @ [p]) buf recv sent"
  by (auto simp: down_inv_def filter_empty_conv)

lemma down_inv_at:
  assumes "down_inv ps buf recv sent" and "i < length ps" and "is_down (ps ! i)"
  shows "recv = sent @ payload buf (ps ! i)"
  using assms nth_mem [OF assms(2)] by (auto simp: down_inv_def)

text \<open>What the helpers leave.\<close>

lemma rc_sel [simp]:
  "rc_first (rc_session a f st) = rc_first st" "rc_second (rc_session a f st) = rc_second st"
  "rc_pending (rc_session a f st) = rc_pending st" "rc_received (rc_session a f st) = rc_received st"
  "rc_wire (rc_session a f st) = rc_wire st" "rc_heap (rc_session a f st) = (rc_heap st)(a := f (rc_heap st a))"
  "rc_stopped (rc_session a f st) = rc_stopped st"
  "rc_first (rc_start p st) = rc_first st" "rc_second (rc_start p st) = rc_second st"
  "rc_pending (rc_start p st) = rc_pending st @ [p]" "rc_received (rc_start p st) = rc_received st"
  "rc_wire (rc_start p st) = rc_wire st" "rc_heap (rc_start p st) = rc_heap st" "rc_stopped (rc_start p st) = rc_stopped st"
  "rc_first (rc_drop i st) = rc_first st" "rc_second (rc_drop i st) = rc_second st"
  "rc_pending (rc_drop i st) = remove_at i (rc_pending st)" "rc_received (rc_drop i st) = rc_received st"
  "rc_wire (rc_drop i st) = rc_wire st" "rc_heap (rc_drop i st) = rc_heap st" "rc_stopped (rc_drop i st) = rc_stopped st"
  "rc_fresh (rc_start p st) = rc_fresh st" "rc_fresh (rc_session a f st) = rc_fresh st"
  by (simp_all add: rc_session_def rc_start_def rc_drop_def)

text \<open>Updates that close or open sessions leave the buffers and the rest.\<close>

lemma rc_inv_session:
  "rc_inv st \<Longrightarrow> ps_buffer (f (rc_heap st a)) = ps_buffer (rc_heap st a) \<Longrightarrow> rc_inv (rc_session a f st)"
  by (auto simp: rc_inv_def received_from_server_def sent_to_client_def)

lemma rc_inv_Close: "rc_inv st \<Longrightarrow> rc_inv (PClient_Close st)"
  by (auto simp: PClient_Close_def stop_some_def PSession_Stop_def intro!: rc_inv_session split: option.split)

lemma rc_inv_up: "rc_inv st \<Longrightarrow> rc_inv (rc_up a er st)"
  by (auto simp: rc_up_def intro: rc_inv_session)

lemma rc_inv_drop: "rc_inv st \<Longrightarrow> i < length (rc_pending st) \<Longrightarrow> rc_inv (rc_drop i st)"
  by (auto simp: rc_inv_def received_from_server_def sent_to_client_def intro: down_inv_drop)

lemma rc_inv_start: "rc_inv st \<Longrightarrow> \<not> is_down p \<Longrightarrow> op_ok p \<Longrightarrow> rc_inv (rc_start p st)"
  by (auto simp: rc_inv_def received_from_server_def sent_to_client_def intro: down_inv_other)

lemma rc_inv_log: "rc_inv st \<Longrightarrow> rc_inv (rc_log a H_ServerWrite bs er st)"
  by (auto simp: rc_inv_def rc_log_def received_from_server_def sent_to_client_def)

lemma rc_inv_HandleServerWrite: "rc_inv st \<Longrightarrow> PClient_HandleServerWrite er st = Done t \<Longrightarrow> rc_inv t"
  by (auto simp: PClient_HandleServerWrite_def rc_inv_def [of st] split: if_splits intro: rc_inv_Close
      intro!: rc_inv_start)

lemma rc_inv_ops: "rc_inv st \<Longrightarrow> i < length (rc_pending st) \<Longrightarrow> op_ok (rc_pending st ! i)"
  by (simp add: rc_inv_def down_inv_def list_all_length)

text \<open>The end of an operation of the direction from the server starts the next one.\<close>

lemma rc_inv_next:
  assumes inv: "rc_inv st" and i: "i < length (rc_pending st)" and d: "is_down (rc_pending st ! i)"
    and p: "op_ok p"
    and t: "rc_first t = rc_first st" "rc_second t = rc_second st" "rc_pending t = remove_at i (rc_pending st) @ [p]"
    and data: "received_from_server t = sent_to_client t @ payload (ps_buffer (rc_heap t 1)) p"
  shows "rc_inv t"
proof -
  have "down_inv (rc_pending st) (ps_buffer (rc_heap st 1)) (received_from_server st) (sent_to_client st)"
    using inv by (simp add: rc_inv_def)
  from down_inv_drop [OF this i] d have "list_all op_ok (remove_at i (rc_pending st))"
      "filter is_down (remove_at i (rc_pending st)) = []"
    by (simp_all add: down_inv_def)
  then have "down_inv (rc_pending t) (ps_buffer (rc_heap t 1)) (received_from_server t) (sent_to_client t)"
    unfolding t(3) using p data by (rule down_inv_next)
  then show ?thesis using inv t(1,2) by (simp add: rc_inv_def)
qed

lemma rc_inv_data:
  "rc_inv st \<Longrightarrow> i < length (rc_pending st) \<Longrightarrow> is_down (rc_pending st ! i) \<Longrightarrow>
   received_from_server st = sent_to_client st @ payload (ps_buffer (rc_heap st 1)) (rc_pending st ! i)"
  unfolding rc_inv_def using down_inv_at by blast

lemma rc_inv_opened:
  assumes inv: "rc_inv st" and i: "i < length (rc_pending st)" and s: "rc_complete i (RE_Opened j er opt) st = Done t"
  shows "rc_inv t"
proof -
  note gone = rc_inv_up [OF rc_inv_drop [OF inv i]]
  show ?thesis
  proof (cases "rc_pending st ! i")
    case (RC_Accept a)
    with s gone [of a er] rc_inv_Close [OF gone [of a er]] rc_inv_HandleServerWrite [OF gone [of a er]] show ?thesis
      by (auto simp: rc_complete_def PClient_HandleAccept_def split: if_splits)
  next
    case (RC_Connect a)
    show ?thesis
    proof (cases "failed er \<or> \<not> opt")
      case True
      with s inv RC_Connect rc_inv_Close [OF gone [of a er]] show ?thesis
        by (auto simp: rc_complete_def PClient_HandleConnect_def split: if_splits)
    next
      case False
      have "rc_inv (rc_start (RC_ReadServer 1) (rc_up a er (rc_drop i st)))"
        by (rule rc_inv_next [OF inv i, where p = "RC_ReadServer 1"])
          (use rc_inv_data [OF inv i] RC_Connect in
            \<open>simp_all add: rc_up_def received_from_server_def sent_to_client_def payload_def\<close>)
      moreover have "rc_second st = Some 1" using inv by (simp add: rc_inv_def)
      ultimately show ?thesis
        using s inv RC_Connect False rc_inv_ops [OF inv i]
        by (auto simp: rc_complete_def PClient_HandleConnect_def PClient_HandleClientWrite_def rc_up_def split: if_splits)
    qed
  qed (use s inv in \<open>simp_all add: rc_complete_def\<close>)
qed

lemma rc_inv_read:
  assumes inv: "rc_inv st" and i: "i < length (rc_pending st)" and s: "rc_complete i (RE_Read j er bs) st = Done t"
  shows "rc_inv t"
proof -
  note gone = rc_inv_drop [OF inv i]
  have ses: "rc_first st = Some 0" "rc_second st = Some 1" using inv by (simp_all add: rc_inv_def)
  show ?thesis
  proof (cases "rc_pending st ! i")
    case (RC_ReadClient a)
    then have a: "a = 0" using rc_inv_ops [OF inv i] by simp
    let ?r = "rc_read 0 bs (rc_drop i st)"
    have "rc_inv ?r"
      using gone by (auto simp: rc_inv_def rc_read_def received_from_server_def sent_to_client_def)
    then have "rc_inv (rc_start (RC_Byte 0 0 H_ServerWrite) (rc_start (RC_Write 1 0 n H_ServerWrite)
        (rc_session 0 (PSession_SetTransferred n) ?r)))" for n
      by (intro rc_inv_start rc_inv_session) (simp_all add: PSession_SetTransferred_def)
    with s inv RC_ReadClient a ses rc_inv_Close [OF gone] show ?thesis
      by (auto simp: rc_complete_def PClient_HandleClientRead_def rc_read_def Let_def split: if_splits)
  next
    case (RC_ReadServer a)
    then have a: "a = 1" using rc_inv_ops [OF inv i] by simp
    let ?t = "rc_start (RC_Write 0 1 (length bs) H_ClientWrite)
        (rc_session 1 (PSession_SetTransferred (length bs)) (rc_read 1 bs (rc_drop i st)))"
    have "received_from_server st = sent_to_client st"
      using rc_inv_data [OF inv i] RC_ReadServer by (simp add: payload_def)
    then have "rc_inv ?t"
      by (intro rc_inv_next [OF inv i, where p = "RC_Write 0 1 (length bs) H_ClientWrite"])
        (use RC_ReadServer ses in \<open>simp_all add: rc_read_def received_from_server_def sent_to_client_def payload_def
          PSession_SetTransferred_def fill_def\<close>)
    with s inv RC_ReadServer a ses rc_inv_Close [OF gone] show ?thesis
      by (auto simp: rc_complete_def PClient_HandleServerRead_def rc_read_def split: if_splits)
  qed (use s inv in \<open>simp_all add: rc_complete_def\<close>)
qed

lemma rc_inv_written:
  assumes inv: "rc_inv st" and i: "i < length (rc_pending st)" and s: "rc_complete i (RE_Written j er) st = Done t"
  shows "rc_inv t"
proof -
  note gone = rc_inv_drop [OF inv i]
  have ses: "rc_second st = Some 1" using inv by (simp add: rc_inv_def)
  show ?thesis
  proof (cases "rc_pending st ! i")
    case (RC_Write a b n h)
    show ?thesis
    proof (cases h)
      case H_ServerWrite
      with s inv RC_Write rc_inv_HandleServerWrite [OF rc_inv_log [OF gone]] show ?thesis
        by (auto simp: rc_complete_def PClient_written_def split: if_splits)
    next
      case H_ClientWrite
      then have ab: "a = 0" "b = 1" using rc_inv_ops [OF inv i] RC_Write by simp_all
      show ?thesis
      proof (cases "failed er")
        case True
        with s inv RC_Write H_ClientWrite rc_inv_Close [OF gone] show ?thesis
          by (auto simp: rc_complete_def PClient_written_def PClient_HandleClientWrite_def rc_log_def)
      next
        case False
        let ?l = "rc_log 0 H_ClientWrite (take n (ps_buffer (rc_heap st 1))) er (rc_drop i st)"
        have "received_from_server st = sent_to_client st @ take n (ps_buffer (rc_heap st 1))"
          using rc_inv_data [OF inv i] RC_Write H_ClientWrite by (simp add: payload_def)
        then have "rc_inv (rc_start (RC_ReadServer 1) ?l)"
          by (intro rc_inv_next [OF inv i, where p = "RC_ReadServer 1"])
            (use RC_Write H_ClientWrite False in
              \<open>simp_all add: rc_log_def received_from_server_def sent_to_client_def payload_def\<close>)
        with s inv RC_Write H_ClientWrite False ab ses show ?thesis
          by (auto simp: rc_complete_def PClient_written_def PClient_HandleClientWrite_def rc_log_def split: if_splits)
      qed
    qed
  next
    case (RC_Byte a r h)
    then have "h = H_ServerWrite" using rc_inv_ops [OF inv i] by simp
    with s inv RC_Byte rc_inv_HandleServerWrite [OF rc_inv_log [OF gone]] show ?thesis
      by (auto simp: rc_complete_def PClient_written_def split: if_splits)
  qed (use s inv in \<open>simp_all add: rc_complete_def\<close>)
qed

lemma rc_inv_step: "rc_inv st \<Longrightarrow> rc_step e st = Done t \<Longrightarrow> rc_inv t"
proof -
  assume inv: "rc_inv st" and s: "rc_step e st = Done t"
  have stop: "rc_inv (PClient_Stop st)"
  proof -
    have "rc_inv (s\<lparr>rc_work := False, rc_stopped := True\<rparr>) = rc_inv s" for s
      by (simp add: rc_inv_def received_from_server_def sent_to_client_def)
    then show ?thesis using rc_inv_Close [OF inv] by (simp add: PClient_Stop_def)
  qed
  show ?thesis
    using s inv stop rc_inv_opened [OF inv] rc_inv_read [OF inv] rc_inv_written [OF inv]
    by (cases e) (auto simp: rc_step_def split: if_splits)
qed

lemma rc_inv_reachable: "rc_reachable st \<Longrightarrow> rc_inv st"
proof (induction rule: rc_reachable.induct)
  case (start resolves raw)
  show ?case
  proof (cases resolves)
    case True
    then show ?thesis
      by (simp add: PClient_Construct_def PClient_Connect_def PClient_Accept_def rc_new_def Let_def rc_inv_def
          down_inv_def payload_def received_from_server_def sent_to_client_def)
  next
    case False
    then have no: "(if resolves then x else y) = y" for x y :: PClient by simp
    show ?thesis
      unfolding PClient_Construct_def PClient_Connect_def Let_def no
      by (rule rc_inv_Close) (simp add: PClient_Accept_def rc_new_def Let_def rc_inv_def
          down_inv_def payload_def received_from_server_def sent_to_client_def)
  qed
qed (rule rc_inv_step)

section \<open>The properties\<close>

text \<open>C21: whatever the client does and whichever operations fail, what the printer client has
  written to its client for the server is, byte for byte and in order, the beginning of what it
  has read from the server, and it is all of it whenever the next read from the server is
  waiting.\<close>

theorem PClient_passes_server_bytes:
  assumes "rc_reachable st"
  shows "\<exists>lost. received_from_server st = sent_to_client st @ lost \<and>
    (RC_ReadServer 1 \<in> set (rc_pending st) \<longrightarrow> lost = [])"
proof -
  have "down_inv (rc_pending st) (ps_buffer (rc_heap st 1)) (received_from_server st) (sent_to_client st)"
    using rc_inv_reachable [OF assms] by (simp add: rc_inv_def)
  then show ?thesis by (fastforce simp: down_inv_def payload_def)
qed

text \<open>From the client to the server a message is lost when the next one comes quickly: the
  reply byte that \<open>HandleClientRead\<close> writes at once makes its completion read again into the
  buffer that is still being written to the server, so of two messages of the same length the
  server gets the second one twice.\<close>

theorem PClient_overwrites_request:
  assumes "rc_first st = Some a" and "rc_second st = Some b" and "\<not> rc_stopped st"
    and "rc_pending st = [RC_ReadServer b, RC_ReadClient a]"
    and "ps_up (rc_heap st a)" and "ps_up (rc_heap st b)" and "a \<noteq> b"
    and "length c1 = length c2" and "10 \<le> length c1" and "length c1 \<le> buffSize"
  shows "\<exists>t. rc_steps [RE_Read 1 ec_ok c1, RE_Written 2 ec_ok, RE_Read 2 ec_ok c2, RE_Written 1 ec_ok, RE_Written 1 ec_ok] st = Done t \<and>
    rc_received t = rc_received st @ [(a, c1), (a, c2)] \<and>
    rc_wire t = rc_wire st @ [(a, H_ServerWrite, [0]), (b, H_ServerWrite, c2), (b, H_ServerWrite, c2)]"
proof -
  have "c1 \<noteq> []" "c2 \<noteq> []" using assms(8,9) by auto
  then show ?thesis
    using assms by (auto simp: rc_step_def rc_complete_def PClient_HandleClientRead_def PClient_HandleServerWrite_def
        PClient_written_def rc_read_def rc_log_def remove_at_def fill_def PSession_SetTransferred_def Let_def)
qed

text \<open>The script: both connections are made, the server sends two messages, one is passed on.\<close>

definition printer_reached :: "rc_event list \<Rightarrow> PClient" where
  "printer_reached es = (case rc_steps es (PClient_Construct True (0, 0)) of Done st \<Rightarrow> st
     | _ \<Rightarrow> PClient_Construct True (0, 0))"

lemma rc_reachable_steps: "rc_reachable st \<Longrightarrow> rc_steps es st = Done t \<Longrightarrow> rc_reachable t"
proof (induction es arbitrary: st)
  case (Cons e es)
  then obtain s where "rc_step e st = Done s" "rc_steps es s = Done t" by auto
  with Cons.IH [of s] rc_reachable.step [OF Cons.prems(1)] show ?case by blast
qed simp

lemma printer_reached_reachable: "rc_reachable (printer_reached es)"
proof (cases "rc_steps es (PClient_Construct True (0, 0))")
  case (Done t)
  then show ?thesis using rc_reachable_steps [OF rc_reachable.start Done] by (simp add: printer_reached_def)
qed (simp_all add: printer_reached_def rc_reachable.start)

definition printer_connected :: "rc_event list" where
  "printer_connected = [RE_Opened 1 ec_ok True, RE_Opened 0 ec_ok True]"

lemma PClient_passes_server_bytes_witness:
  "received_from_server (printer_reached (printer_connected @ [RE_Read 0 ec_ok [1, 2], RE_Written 1 ec_ok])) = [1, 2] \<and>
   sent_to_client (printer_reached (printer_connected @ [RE_Read 0 ec_ok [1, 2], RE_Written 1 ec_ok])) = [1, 2]"
proof -
  let ?s = "printer_reached (printer_connected @ [RE_Read 0 ec_ok [1, 2], RE_Written 1 ec_ok])"
  have "RC_ReadServer 1 \<in> set (rc_pending ?s)" "received_from_server ?s = [1, 2]" by code_simp+
  with PClient_passes_server_bytes [OF printer_reached_reachable,
      of "printer_connected @ [RE_Read 0 ec_ok [1, 2], RE_Written 1 ec_ok]"] show ?thesis by auto
qed

lemma PClient_overwrites_request_witness:
  "\<exists>t. rc_steps [RE_Read 1 ec_ok (replicate 10 1), RE_Written 2 ec_ok, RE_Read 2 ec_ok (replicate 10 2),
      RE_Written 1 ec_ok, RE_Written 1 ec_ok] (printer_reached printer_connected) = Done t \<and>
    rc_received t = [(0, replicate 10 1), (0, replicate 10 2)] \<and>
    rc_wire t = [(0, H_ServerWrite, [0]), (1, H_ServerWrite, replicate 10 2), (1, H_ServerWrite, replicate 10 2)]"
proof -
  let ?s = "printer_reached printer_connected"
  have s: "rc_first ?s = Some 0" "rc_second ?s = Some 1" "\<not> rc_stopped ?s"
      "rc_pending ?s = [RC_ReadServer 1, RC_ReadClient 0]"
      "ps_up (rc_heap ?s 0)" "ps_up (rc_heap ?s 1)" by code_simp+
  have w: "rc_received ?s = []" "rc_wire ?s = []" by code_simp+
  have "(0 :: nat) \<noteq> 1" "length (replicate 10 (1 :: byte)) = length (replicate 10 (2 :: byte))"
      "10 \<le> length (replicate 10 (1 :: byte))" "length (replicate 10 (1 :: byte)) \<le> buffSize"
    by (simp_all add: buffSize_def)
  from PClient_overwrites_request [OF s this] show ?thesis
    unfolding w append.append_Nil .
qed

end
