(* ===== verification/Printer_Server.thy ===== *)
theory Printer_Server
  imports Printer_Client
begin

text \<open>
  The server side of the printer proxy (\<open>printer_server/src\<close>): it accepts the proxy client,
  connects to the print server when the first bytes come, and queues what comes before the
  connection is made. The model is that of the client side, with the flags and the queue of
  the server's sessions. The string that \<open>HandleAcceptorQueue\<close> writes from is local to it; the
  write takes its bytes when it starts.
\<close>

section \<open>Sessions\<close>

record PSSession = PSession +
  pz_queue :: "byte list list"
  pz_connected :: bool
  pz_connecting :: bool

definition PSSession_Construct :: "nat \<Rightarrow> PSSession" where
  "PSSession_Construct raw =
     \<lparr>ps_open = False, ps_up = False, ps_buffer = [], ps_transferred = raw, pz_queue = [],
      pz_connected = False, pz_connecting = False\<rparr>"

definition PSSession_SetTransferred :: "nat \<Rightarrow> PSSession \<Rightarrow> PSSession" where
  "PSSession_SetTransferred n s = s\<lparr>ps_transferred := n\<rparr>"

definition PSSession_SetConnected :: "bool \<Rightarrow> PSSession \<Rightarrow> PSSession" where
  "PSSession_SetConnected c s = s\<lparr>pz_connected := c\<rparr>"

definition PSSession_SetConnecting :: "bool \<Rightarrow> PSSession \<Rightarrow> PSSession" where
  "PSSession_SetConnecting c s = s\<lparr>pz_connecting := c\<rparr>"

definition PSSession_Stop :: "PSSession \<Rightarrow> PSSession" where
  "PSSession_Stop s =
     (if ps_open s
      then s\<lparr>pz_queue := [], pz_connecting := False, pz_connected := False, ps_open := False, ps_up := False\<rparr>
      else s)"

section \<open>The state\<close>

datatype rs_handler = S_ClientWrite | S_ServerWrite

datatype rs_op =
    RS_Accept addr
  | RS_Connect addr
  | RS_ReadClient addr
  | RS_ReadServer addr
  | RS_Write addr addr nat rs_handler
  | RS_Queue addr "byte list"

record PServer =
  rs_heap :: "addr \<Rightarrow> PSSession"
  rs_fresh :: addr
  rs_first :: "addr option"
  rs_second :: "addr option"
  rs_pending :: "rs_op list"
  rs_work :: bool
  rs_stopped :: bool
  rs_wire :: "(addr \<times> byte list) list"

definition rs_session :: "addr \<Rightarrow> (PSSession \<Rightarrow> PSSession) \<Rightarrow> PServer \<Rightarrow> PServer" where
  "rs_session a f st = st\<lparr>rs_heap := (rs_heap st)(a := f (rs_heap st a))\<rparr>"

definition rs_start :: "rs_op \<Rightarrow> PServer \<Rightarrow> PServer" where
  "rs_start p st = st\<lparr>rs_pending := rs_pending st @ [p]\<rparr>"

definition rs_new :: "nat \<Rightarrow> PServer \<Rightarrow> PServer" where
  "rs_new raw st = st\<lparr>rs_heap := (rs_heap st)(rs_fresh st := PSSession_Construct raw), rs_fresh := Suc (rs_fresh st)\<rparr>"

definition rs_stop_some :: "addr option \<Rightarrow> PServer \<Rightarrow> PServer" where
  "rs_stop_some x st = (case x of None \<Rightarrow> st | Some a \<Rightarrow> rs_session a PSSession_Stop st)"

definition PServer_Close :: "PServer \<Rightarrow> PServer" where
  "PServer_Close st = rs_stop_some (rs_second st) (rs_stop_some (rs_first st) st)"

definition PServer_Accept :: "nat \<Rightarrow> PServer \<Rightarrow> PServer" where
  "PServer_Accept raw st =
     (let a = rs_fresh st in rs_start (RS_Accept a) ((rs_new raw st)\<lparr>rs_first := Some a\<rparr>))"

definition PServer_Connect :: "bool \<Rightarrow> nat \<Rightarrow> PServer \<Rightarrow> PServer" where
  "PServer_Connect resolves raw st =
     (let a = rs_fresh st;
          st1 = rs_session a (PSSession_SetConnecting True) ((rs_new raw st)\<lparr>rs_second := Some a\<rparr>)
      in if resolves then rs_start (RS_Connect a) (rs_session a (\<lambda>s. s\<lparr>ps_open := True\<rparr>) st1)
         else PServer_Close st1)"

definition PServer_Construct :: "nat \<Rightarrow> PServer" where
  "PServer_Construct raw =
     PServer_Accept raw
       \<lparr>rs_heap = (\<lambda>_. PSSession_Construct 0), rs_fresh = 0, rs_first = None, rs_second = None,
        rs_pending = [], rs_work = True, rs_stopped = False, rs_wire = []\<rparr>"

definition PServer_Stop :: "PServer \<Rightarrow> PServer" where
  "PServer_Stop st = (PServer_Close st)\<lparr>rs_work := False, rs_stopped := True\<rparr>"

section \<open>Handlers\<close>

definition PServer_HandleClientWrite :: "error_code \<Rightarrow> PServer \<Rightarrow> PServer run" where
  "PServer_HandleClientWrite er st =
     (if failed er then Done (PServer_Close st)
      else case rs_second st of None \<Rightarrow> Crash | Some b \<Rightarrow> Done (rs_start (RS_ReadServer b) st))"

definition PServer_HandleServerWrite :: "error_code \<Rightarrow> PServer \<Rightarrow> PServer run" where
  "PServer_HandleServerWrite er st =
     (if failed er then Done (PServer_Close st)
      else case rs_first st of None \<Rightarrow> Crash | Some a \<Rightarrow> Done (rs_start (RS_ReadClient a) st))"

definition PServer_HandleAcceptorQueue :: "error_code \<Rightarrow> PServer \<Rightarrow> PServer run" where
  "PServer_HandleAcceptorQueue er st =
     (if failed er then Done (PServer_Close st)
      else case rs_first st of
        None \<Rightarrow> Crash
      | Some a \<Rightarrow>
          (case pz_queue (rs_heap st a) of
             [] \<Rightarrow> Done st
           | message # r \<Rightarrow>
               (case rs_second st of
                  None \<Rightarrow> Crash
                | Some b \<Rightarrow> Done (rs_session a (\<lambda>s. s\<lparr>pz_queue := r\<rparr>) (rs_start (RS_Queue b message) st)))))"

definition PServer_HandleConnect :: "addr \<Rightarrow> error_code \<Rightarrow> bool \<Rightarrow> PServer \<Rightarrow> PServer run" where
  "PServer_HandleConnect session er options st =
     (if failed er then Done (PServer_Close st)
      else
        (let st1 = rs_session session (PSSession_SetConnected True \<circ> PSSession_SetConnecting False) st
         in if \<not> options then Done (PServer_Close st1)
            else bind_run (PServer_HandleClientWrite ec_ok st1) (PServer_HandleAcceptorQueue ec_ok)))"

definition PServer_HandleAccept :: "addr \<Rightarrow> error_code \<Rightarrow> bool \<Rightarrow> PServer \<Rightarrow> PServer run" where
  "PServer_HandleAccept session er options st =
     (if failed er \<or> \<not> options then Done (PServer_Close st) else PServer_HandleServerWrite ec_ok st)"

definition PServer_HandleServerRead :: "error_code \<Rightarrow> nat \<Rightarrow> PServer \<Rightarrow> PServer run" where
  "PServer_HandleServerRead er transferred st =
     (if failed er then Done (PServer_Close st)
      else case (rs_first st, rs_second st) of
        (Some a, Some b) \<Rightarrow>
          Done (rs_start (RS_Write a b transferred S_ClientWrite)
            (rs_session b (PSSession_SetTransferred transferred) st))
      | _ \<Rightarrow> Crash)"

definition PServer_push :: "addr \<Rightarrow> PServer \<Rightarrow> PServer" where
  "PServer_push a st =
     rs_session a (\<lambda>s. s\<lparr>pz_queue := pz_queue s @ [take (ps_transferred s) (ps_buffer s)]\<rparr>) st"

text \<open>\<open>IsConnecting\<close> is asked of the acceptor's session, as in the code.\<close>

definition PServer_HandleClientRead :: "error_code \<Rightarrow> nat \<Rightarrow> bool \<Rightarrow> nat \<Rightarrow> PServer \<Rightarrow> PServer run" where
  "PServer_HandleClientRead er transferred resolves raw st =
     (if failed er then Done (PServer_Close st)
      else case rs_first st of
        None \<Rightarrow> Crash
      | Some a \<Rightarrow>
          (let st1 = rs_session a (PSSession_SetTransferred transferred) st;
               connected = (case rs_second st1 of None \<Rightarrow> False | Some b \<Rightarrow> pz_connected (rs_heap st1 b))
           in case (connected, rs_second st1) of
                (True, Some b) \<Rightarrow>
                  (if pz_queue (rs_heap st1 a) = []
                   then Done (rs_start (RS_Write b a transferred S_ServerWrite) st1)
                   else PServer_HandleServerWrite ec_ok (PServer_push a st1))
              | _ \<Rightarrow>
                  (if pz_connecting (rs_heap st1 a)
                   then PServer_HandleServerWrite ec_ok (PServer_push a st1)
                   else PServer_HandleServerWrite ec_ok (PServer_Connect resolves raw (PServer_push a st1)))))"

definition PServer_written :: "rs_handler \<Rightarrow> error_code \<Rightarrow> PServer \<Rightarrow> PServer run" where
  "PServer_written h er st =
     (case h of S_ClientWrite \<Rightarrow> PServer_HandleClientWrite er st | S_ServerWrite \<Rightarrow> PServer_HandleServerWrite er st)"

section \<open>The machine\<close>

datatype rs_event =
    ZE_Opened nat error_code bool
  | ZE_Read nat error_code "byte list" bool nat
  | ZE_Written nat error_code
  | ZE_Stop

definition rs_drop :: "nat \<Rightarrow> PServer \<Rightarrow> PServer" where
  "rs_drop i st = st\<lparr>rs_pending := remove_at i (rs_pending st)\<rparr>"

definition rs_up :: "addr \<Rightarrow> error_code \<Rightarrow> PServer \<Rightarrow> PServer" where
  "rs_up a er st = (if failed er then st else rs_session a (\<lambda>s. s\<lparr>ps_open := True, ps_up := True\<rparr>) st)"

definition rs_log :: "addr \<Rightarrow> byte list \<Rightarrow> error_code \<Rightarrow> PServer \<Rightarrow> PServer" where
  "rs_log a bs er st = (if failed er then st else st\<lparr>rs_wire := rs_wire st @ [(a, bs)]\<rparr>)"

definition rs_read :: "addr \<Rightarrow> byte list \<Rightarrow> PServer \<Rightarrow> PServer" where
  "rs_read a bs st = rs_session a (\<lambda>s. s\<lparr>ps_buffer := fill bs (ps_buffer s)\<rparr>) st"

definition rs_complete :: "nat \<Rightarrow> rs_event \<Rightarrow> PServer \<Rightarrow> PServer run" where
  "rs_complete i e st =
     (case (e, rs_pending st ! i) of
        (ZE_Opened _ er options, RS_Accept a) \<Rightarrow>
          PServer_HandleAccept a er options (rs_up a er (rs_drop i st))
      | (ZE_Opened _ er options, RS_Connect a) \<Rightarrow>
          (if failed er \<or> ps_open (rs_heap st a)
           then PServer_HandleConnect a er options (rs_up a er (rs_drop i st)) else Done st)
      | (ZE_Read _ er bs resolves raw, RS_ReadClient a) \<Rightarrow>
          (if failed er then PServer_HandleClientRead er 0 resolves raw (rs_drop i st)
           else if ps_up (rs_heap st a) \<and> bs \<noteq> [] \<and> length bs \<le> buffSize
           then PServer_HandleClientRead ec_ok (length bs) resolves raw (rs_read a bs (rs_drop i st)) else Done st)
      | (ZE_Read _ er bs _ _, RS_ReadServer a) \<Rightarrow>
          (if failed er then PServer_HandleServerRead er 0 (rs_drop i st)
           else if ps_up (rs_heap st a) \<and> bs \<noteq> [] \<and> length bs \<le> buffSize
           then PServer_HandleServerRead ec_ok (length bs) (rs_read a bs (rs_drop i st)) else Done st)
      | (ZE_Written _ er, RS_Write a b n h) \<Rightarrow>
          (if failed er \<or> ps_up (rs_heap st a)
           then PServer_written h er (rs_log a (take n (ps_buffer (rs_heap st b))) er (rs_drop i st)) else Done st)
      | (ZE_Written _ er, RS_Queue a bs) \<Rightarrow>
          (if failed er \<or> ps_up (rs_heap st a)
           then PServer_HandleAcceptorQueue er (rs_log a bs er (rs_drop i st)) else Done st)
      | _ \<Rightarrow> Done st)"

fun rs_index :: "rs_event \<Rightarrow> nat" where
  "rs_index (ZE_Opened i _ _) = i"
| "rs_index (ZE_Read i _ _ _ _) = i"
| "rs_index (ZE_Written i _) = i"
| "rs_index ZE_Stop = 0"

definition rs_step :: "rs_event \<Rightarrow> PServer \<Rightarrow> PServer run" where
  "rs_step e st =
     (if rs_stopped st then Done st
      else if e = ZE_Stop then Done (PServer_Stop st)
      else if rs_index e < length (rs_pending st) then rs_complete (rs_index e) e st
      else Done st)"

fun rs_steps :: "rs_event list \<Rightarrow> PServer \<Rightarrow> PServer run" where
  "rs_steps [] st = Done st"
| "rs_steps (e # es) st = bind_run (rs_step e st) (rs_steps es)"


section \<open>Lemmas\<close>

lemma rs_sel [simp]:
  "rs_first (rs_session a f st) = rs_first st" "rs_second (rs_session a f st) = rs_second st"
  "rs_pending (rs_session a f st) = rs_pending st" "rs_wire (rs_session a f st) = rs_wire st"
  "rs_heap (rs_session a f st) = (rs_heap st)(a := f (rs_heap st a))" "rs_fresh (rs_session a f st) = rs_fresh st"
  "rs_stopped (rs_session a f st) = rs_stopped st"
  "rs_first (rs_start p st) = rs_first st" "rs_second (rs_start p st) = rs_second st"
  "rs_pending (rs_start p st) = rs_pending st @ [p]" "rs_wire (rs_start p st) = rs_wire st"
  "rs_heap (rs_start p st) = rs_heap st" "rs_fresh (rs_start p st) = rs_fresh st" "rs_stopped (rs_start p st) = rs_stopped st"
  "rs_first (rs_drop i st) = rs_first st" "rs_second (rs_drop i st) = rs_second st"
  "rs_pending (rs_drop i st) = remove_at i (rs_pending st)" "rs_wire (rs_drop i st) = rs_wire st"
  "rs_heap (rs_drop i st) = rs_heap st" "rs_fresh (rs_drop i st) = rs_fresh st" "rs_stopped (rs_drop i st) = rs_stopped st"
  by (simp_all add: rs_session_def rs_start_def rs_drop_def)





text \<open>A chunk that comes while no session is connected is queued and starts a connection.\<close>

definition unconnected :: "addr \<Rightarrow> PServer \<Rightarrow> bool" where
  "unconnected a st \<longleftrightarrow>
     rs_first st = Some a \<and> a < rs_fresh st \<and> \<not> rs_stopped st \<and>
     (\<forall>b. rs_second st = Some b \<longrightarrow> b \<noteq> a \<and> \<not> pz_connected (rs_heap st b)) \<and>
     ps_up (rs_heap st a) \<and> ps_open (rs_heap st a) \<and> \<not> pz_connecting (rs_heap st a)"

lemma chunk_connects:
  assumes u: "unconnected a st" and i: "i < length (rs_pending st)" "rs_pending st ! i = RS_ReadClient a"
    and c: "c \<noteq> []" "length c \<le> buffSize"
  shows "\<exists>t. rs_step (ZE_Read i ec_ok c True raw) st = Done t \<and> unconnected a t \<and>
    rs_second t = Some (rs_fresh st) \<and> rs_fresh t = Suc (rs_fresh st) \<and>
    rs_pending t = remove_at i (rs_pending st) @ [RS_Connect (rs_fresh st), RS_ReadClient a] \<and>
    pz_queue (rs_heap t a) = pz_queue (rs_heap st a) @ [c] \<and> rs_wire t = rs_wire st \<and>
    ps_open (rs_heap t (rs_fresh st)) \<and> \<not> ps_up (rs_heap t (rs_fresh st)) \<and>
    (\<forall>d. d \<noteq> a \<longrightarrow> d \<noteq> rs_fresh st \<longrightarrow> rs_heap t d = rs_heap st d)"
proof -
  let ?f = "rs_fresh st"
  have ne: "a \<noteq> ?f" using u by (simp add: unconnected_def)
  let ?s0 = "rs_read a c (rs_drop i st)"
  let ?s = "PServer_push a (rs_session a (PSSession_SetTransferred (length c)) ?s0)"
  have "rs_step (ZE_Read i ec_ok c True raw) st = PServer_HandleServerWrite ec_ok (PServer_Connect True raw ?s)"
    using u i c by (cases "rs_second st") (simp_all add: rs_step_def rs_complete_def PServer_HandleClientRead_def
        unconnected_def rs_read_def PSSession_SetTransferred_def Let_def)
  also have "\<dots> = Done (rs_start (RS_ReadClient a) (PServer_Connect True raw ?s))"
    using u by (simp add: PServer_HandleServerWrite_def PServer_Connect_def PServer_push_def rs_read_def rs_new_def
        unconnected_def Let_def)
  finally have step: "rs_step (ZE_Read i ec_ok c True raw) st = Done (rs_start (RS_ReadClient a) (PServer_Connect True raw ?s))" .
  show ?thesis
    unfolding step using u ne
    by (auto simp: unconnected_def PServer_Connect_def PServer_push_def rs_read_def rs_new_def Let_def fill_def
        PSSession_SetTransferred_def PSSession_SetConnecting_def PSSession_Construct_def)
qed

text \<open>Two chunks that arrive before the print server is connected start two connections, as
  the code asks the wrong session whether it is connecting; when the first one is made, the
  first chunk is written to the session of the second, where it cannot be sent, and the error
  closes both sessions and drops the queue: nothing reaches the print server.\<close>

theorem PServer_second_chunk_reconnects:
  assumes "unconnected a st" and "rs_pending st = [RS_ReadClient a]" and "pz_queue (rs_heap st a) = []"
    and "c1 \<noteq> []" and "length c1 \<le> buffSize" and "c2 \<noteq> []" and "length c2 \<le> buffSize" and "b = rs_fresh st"
  shows "\<exists>s t. rs_steps [ZE_Read 0 ec_ok c1 True 0, ZE_Read 1 ec_ok c2 True 0, ZE_Opened 0 ec_ok True] st = Done s \<and>
    rs_pending s = [RS_Connect (Suc b), RS_ReadClient a, RS_ReadServer (Suc b), RS_Queue (Suc b) c1] \<and>
    rs_step (ZE_Written 3 ec_ok) s = Done s \<and>
    rs_step (ZE_Written 3 (ec_other e)) s = Done t \<and>
    rs_wire t = rs_wire st \<and> \<not> ps_open (rs_heap t a) \<and> \<not> ps_open (rs_heap t (Suc b)) \<and> pz_queue (rs_heap t a) = []"
proof -
  obtain s1 where s1: "rs_step (ZE_Read 0 ec_ok c1 True 0) st = Done s1" "unconnected a s1" "rs_fresh s1 = Suc b"
      "rs_pending s1 = [RS_Connect b, RS_ReadClient a]" "pz_queue (rs_heap s1 a) = [c1]" "rs_wire s1 = rs_wire st"
      "ps_open (rs_heap s1 b)"
    using chunk_connects [OF assms(1), of 0 c1 0] assms by (auto simp: remove_at_def)
  have ab: "a \<noteq> b" "a \<noteq> Suc b" "a < b" using assms(1,8) by (auto simp: unconnected_def)
  obtain s2 where s2: "rs_step (ZE_Read 1 ec_ok c2 True 0) s1 = Done s2" "unconnected a s2" "rs_second s2 = Some (Suc b)"
      "rs_pending s2 = [RS_Connect b, RS_Connect (Suc b), RS_ReadClient a]" "pz_queue (rs_heap s2 a) = [c1, c2]"
      "rs_wire s2 = rs_wire st" "ps_open (rs_heap s2 (Suc b))" "\<not> ps_up (rs_heap s2 (Suc b))" "ps_open (rs_heap s2 b)"
    using chunk_connects [OF s1(2), of 1 c2 0] s1 assms(6,7) ab by (auto simp: remove_at_def)
  let ?up = "rs_session b (PSSession_SetConnected True \<circ> PSSession_SetConnecting False)
      (rs_up b ec_ok (rs_drop 0 s2))"
  let ?s = "rs_session a (\<lambda>s. s\<lparr>pz_queue := [c2]\<rparr>)
      (rs_start (RS_Queue (Suc b) c1) (rs_start (RS_ReadServer (Suc b)) ?up))"
  have s3: "rs_step (ZE_Opened 0 ec_ok True) s2 = Done ?s"
    using s2 ab by (simp add: rs_step_def rs_complete_def unconnected_def PServer_HandleConnect_def rs_up_def
        PServer_HandleClientWrite_def PServer_HandleAcceptorQueue_def)
  have p: "rs_pending ?s = [RS_Connect (Suc b), RS_ReadClient a, RS_ReadServer (Suc b), RS_Queue (Suc b) c1]"
    using s2(4) by (simp add: rs_up_def remove_at_def)
  have up: "\<not> ps_up (rs_heap ?s (Suc b))" "\<not> rs_stopped ?s" "rs_wire ?s = rs_wire st"
      "rs_first ?s = Some a" "rs_second ?s = Some (Suc b)" "ps_open (rs_heap ?s a)" "ps_open (rs_heap ?s (Suc b))"
    using s2 ab by (simp_all add: rs_up_def unconnected_def)
  have stay: "rs_step (ZE_Written 3 ec_ok) ?s = Done ?s"
    using p up(1,2) by (simp add: rs_step_def rs_complete_def)
  have fail: "rs_step (ZE_Written 3 (ec_other e)) ?s = Done (PServer_Close (rs_drop 3 ?s))"
    using p up(1,2) by (simp add: rs_step_def rs_complete_def PServer_HandleAcceptorQueue_def rs_log_def)
  have shut: "rs_wire (PServer_Close (rs_drop 3 ?s)) = rs_wire st"
      "\<not> ps_open (rs_heap (PServer_Close (rs_drop 3 ?s)) a)" "\<not> ps_open (rs_heap (PServer_Close (rs_drop 3 ?s)) (Suc b))"
      "pz_queue (rs_heap (PServer_Close (rs_drop 3 ?s)) a) = []"
    using up(3-7) ab by (simp_all add: PServer_Close_def rs_stop_some_def PSSession_Stop_def)
  have run: "rs_steps [ZE_Read 0 ec_ok c1 True 0, ZE_Read 1 ec_ok c2 True 0, ZE_Opened 0 ec_ok True] st = Done ?s"
    using s1(1) s2(1) s3 by simp
  show ?thesis
    by (intro exI conjI) (fact run, fact p, fact stay, fact fail, fact shut(1), fact shut(2), fact shut(3), fact shut(4))
qed

text \<open>The script: the client is accepted; then the server is connected and the queue is sent.\<close>

definition pserver_reached :: "rs_event list \<Rightarrow> PServer" where
  "pserver_reached es = (case rs_steps es (PServer_Construct 0) of Done st \<Rightarrow> st | _ \<Rightarrow> PServer_Construct 0)"



lemma PServer_second_chunk_reconnects_witness:
  "\<exists>s. rs_steps [ZE_Read 0 ec_ok [1] True 0, ZE_Read 1 ec_ok [2] True 0, ZE_Opened 0 ec_ok True]
      (pserver_reached [ZE_Opened 0 ec_ok True]) = Done s \<and>
    rs_pending s = [RS_Connect 2, RS_ReadClient 0, RS_ReadServer 2, RS_Queue 2 [1]]"
proof -
  let ?s = "pserver_reached [ZE_Opened 0 ec_ok True]"
  have s: "rs_pending ?s = [RS_ReadClient 0]" "pz_queue (rs_heap ?s 0) = []" "1 = rs_fresh ?s" by code_simp+
  have "rs_first ?s = Some 0" "rs_second ?s = None" "\<not> rs_stopped ?s" "ps_up (rs_heap ?s 0)" "ps_open (rs_heap ?s 0)"
      "\<not> pz_connecting (rs_heap ?s 0)" by code_simp+
  then have "unconnected 0 ?s" using s(3) by (simp add: unconnected_def)
  moreover have "[1] \<noteq> ([] :: byte list)" "length [1 :: byte] \<le> buffSize" "[2] \<noteq> ([] :: byte list)"
      "length [2 :: byte] \<le> buffSize" by (simp_all add: buffSize_def)
  ultimately obtain x where "rs_steps [ZE_Read 0 ec_ok [1] True 0, ZE_Read 1 ec_ok [2] True 0, ZE_Opened 0 ec_ok True] ?s = Done x"
      "rs_pending x = [RS_Connect (Suc 1), RS_ReadClient 0, RS_ReadServer (Suc 1), RS_Queue (Suc 1) [1]]"
    using PServer_second_chunk_reconnects [OF _ s(1,2) _ _ _ _ s(3)] by blast
  then show ?thesis by (metis Suc_1)
qed

end
