(* ===== verification/Nat_Test.thy ===== *)
theory Nat_Test
  imports Nat_Client_Props "HOL-Library.Multiset"
begin

text \<open>
  \<open>opennattest/src/main.cpp\<close>: two clients connected by a direct session that send each other
  heartbeats, on the client of \<open>Nat_Client\<close>. The handlers that only log (\<open>HandleConnect1\<close>,
  \<open>HandleError\<close>, \<open>HandleReceiveServer\<close>) are not modelled; \<open>Loop\<close> is in \<open>Sample_Resolver\<close>.

  A heartbeat of \<open>Event.proto\<close> is its type; the generated code that writes and parses it is a
  parameter. An absent type is read as the first of the enumeration, so a parsed heartbeat has one
  of the two.
\<close>

section \<open>The handlers\<close>





section \<open>Two clients and a connection\<close>









section \<open>The session of one client\<close>















text \<open>
  Bytes that arrive: without a whole frame they are kept and the read goes on; a frame without
  more behind it is signalled and leaves the buffer empty.
\<close>

definition nt_frame :: "byte list \<Rightarrow> byte list" where
  "nt_frame p = p @ delimiter"

lemma nt_frame_nonempty [simp]: "nt_frame p \<noteq> []"
  by (simp add: nt_frame_def delimiter_def)





section \<open>One heartbeat under way\<close>


























section \<open>Heartbeats for ever\<close>













end
