(* ===== verification/Downloader.thy ===== *)
theory Downloader
  imports Asio
begin

text \<open>
  The HTTP download of \<open>property_tree\<close> (\<open>Downloader.h\<close>, \<open>Downloader.cpp\<close>): one chain of
  asynchronous operations - resolve, connect, send the request, read the status line, read the
  headers, read the body until the server closes - with a stream buffer for the response and a
  destination file. At most one operation is outstanding; it is part of the state, and its
  completion is a step. The extraction of words, numbers and lines from the buffer through
  \<open>std::istream\<close> is written out with its stream state.
\<close>

section \<open>Formatted input\<close>

text \<open>
  An input stream over the buffer: the characters left, and the \<open>eofbit\<close> and the \<open>failbit\<close>.
  An extraction on a stream that is not good only sets the \<open>failbit\<close>.
\<close>

record istream =
  is_rest :: string
  is_eof :: bool
  is_fail :: bool

definition is_open :: "string \<Rightarrow> istream" where
  "is_open s = \<lparr>is_rest = s, is_eof = False, is_fail = False\<rparr>"

abbreviation CR :: char where "CR \<equiv> CHR 0x0D"
abbreviation LF :: char where "LF \<equiv> CHR 0x0A"

definition isspace :: "char \<Rightarrow> bool" where
  "isspace c \<longleftrightarrow> c \<in> {CHR 0x20, CHR 0x09, LF, CHR 0x0B, CHR 0x0C, CR}"

definition extract_word :: "istream \<Rightarrow> string \<times> istream" where
  "extract_word s =
     (if is_eof s \<or> is_fail s then ([], s\<lparr>is_fail := True\<rparr>)
      else (let t = dropWhile isspace (is_rest s);
                w = takeWhile (\<lambda>c. \<not> isspace c) t;
                r = dropWhile (\<lambda>c. \<not> isspace c) t
            in (w, \<lparr>is_rest = r, is_eof = (r = []), is_fail = (w = [])\<rparr>)))"

text \<open>
  \<open>operator>>\<close> for an \<open>unsigned int\<close>: an optional sign and digits. No digits and a value that
  does not fit set the \<open>failbit\<close>; a minus sign negates modulo 2 to the 32.
\<close>

definition number_value :: "string \<Rightarrow> int" where
  "number_value s = foldl (\<lambda>v c. 10 * v + (of_char c - 48)) 0 s"

definition extract_unsigned :: "istream \<Rightarrow> u32 \<times> istream" where
  "extract_unsigned s =
     (if is_eof s \<or> is_fail s then (0, s\<lparr>is_fail := True\<rparr>)
      else (let t = dropWhile isspace (is_rest s);
                neg = (t \<noteq> [] \<and> hd t = CHR ''-'');
                u = (if t \<noteq> [] \<and> hd t \<in> {CHR ''-'', CHR ''+''} then tl t else t);
                ds = takeWhile is_digit u;
                r = dropWhile is_digit u;
                n = number_value ds
            in if ds = [] then (0, \<lparr>is_rest = r, is_eof = (r = []), is_fail = True\<rparr>)
               else if 2 ^ 32 \<le> n then (- 1, \<lparr>is_rest = r, is_eof = (r = []), is_fail = True\<rparr>)
               else (if neg then - of_int n else of_int n,
                     \<lparr>is_rest = r, is_eof = (r = []), is_fail = False\<rparr>)))"

text \<open>\<open>std::getline\<close>: up to the line feed, which is consumed and not stored.\<close>

definition getline :: "istream \<Rightarrow> string \<times> istream" where
  "getline s =
     (if is_eof s \<or> is_fail s then ([], s\<lparr>is_fail := True\<rparr>)
      else (let l = takeWhile (\<lambda>c. c \<noteq> LF) (is_rest s);
                r = dropWhile (\<lambda>c. c \<noteq> LF) (is_rest s)
            in if r = [] then (l, \<lparr>is_rest = [], is_eof = True, is_fail = (l = [])\<rparr>)
               else (l, \<lparr>is_rest = tl r, is_eof = False, is_fail = False\<rparr>)))"

section \<open>The state\<close>

datatype dl_handler = H_StatusLine | H_Headers

datatype dl_op =
    O_Resolve string string
  | O_Connect
  | O_Write
  | O_Until string dl_handler
  | O_AtLeast1

datatype dl_print =
    P_Error error_code
  | P_Invalid
  | P_Status u32
  | P_Header string
  | P_Blank
  | P_Size nat

record Downloader =
  dl_pending :: "dl_op option"
  dl_request :: string
  dl_sent :: string
  dl_response :: string
  dl_file :: string
  dl_out :: "dl_print list"

abbreviation crlf :: string where "crlf \<equiv> [CR, LF]"

definition dl_start :: "dl_op \<Rightarrow> Downloader \<Rightarrow> Downloader" where
  "dl_start oper st = st\<lparr>dl_pending := Some oper\<rparr>"

definition dl_print :: "dl_print \<Rightarrow> Downloader \<Rightarrow> Downloader" where
  "dl_print p st = st\<lparr>dl_out := dl_out st @ [p]\<rparr>"

text \<open>\<open>destinationFile_ << &response_\<close> moves all of the buffer to the file.\<close>

definition dl_flush :: "Downloader \<Rightarrow> Downloader" where
  "dl_flush st = st\<lparr>dl_file := dl_file st @ dl_response st, dl_response := []\<rparr>"

definition Downloader_request :: "string \<Rightarrow> string \<Rightarrow> string" where
  "Downloader_request server path =
     ''GET '' @ path @ '' HTTP/1.1'' @ crlf @ ''Host: '' @ server @ crlf @
     ''Accept: */*'' @ crlf @ ''Connection: close'' @ crlf @ crlf"

text \<open>\<open>opened\<close> is whether the destination file could be created.\<close>

definition Downloader_Construct ::
  "string \<Rightarrow> string \<Rightarrow> string \<Rightarrow> bool \<Rightarrow> exn + Downloader" where
  "Downloader_Construct server port path opened =
     (if opened
      then Inr \<lparr>dl_pending = Some (O_Resolve server port), dl_request = Downloader_request server path,
                dl_sent = [], dl_response = [], dl_file = [], dl_out = []\<rparr>
      else Inl (runtime_error ''Unable to create file''))"

section \<open>The handlers\<close>

definition Downloader_HandleResolve :: "error_code \<Rightarrow> Downloader \<Rightarrow> Downloader" where
  "Downloader_HandleResolve err st =
     (if \<not> failed err then dl_start O_Connect st else dl_print (P_Error err) st)"

definition Downloader_HandleConnect :: "error_code \<Rightarrow> Downloader \<Rightarrow> Downloader" where
  "Downloader_HandleConnect err st =
     (if \<not> failed err then dl_start O_Write st else dl_print (P_Error err) st)"

definition Downloader_HandleWriteRequest :: "error_code \<Rightarrow> Downloader \<Rightarrow> Downloader" where
  "Downloader_HandleWriteRequest err st =
     (if \<not> failed err then dl_start (O_Until crlf H_StatusLine) st else dl_print (P_Error err) st)"

definition Downloader_HandleReadStatusLine :: "error_code \<Rightarrow> Downloader \<Rightarrow> Downloader" where
  "Downloader_HandleReadStatusLine err st =
     (if \<not> failed err then
        (let (http_version, s1) = extract_word (is_open (dl_response st));
             (status_code, s2) = extract_unsigned s1;
             (status_message, s3) = getline s2;
             st = st\<lparr>dl_response := is_rest s3\<rparr>
         in if is_fail s3 \<or> take 5 http_version \<noteq> ''HTTP/'' then dl_print P_Invalid st
            else if status_code \<noteq> 200 then dl_print (P_Status status_code) st
            else dl_start (O_Until (crlf @ crlf) H_Headers) st)
      else dl_print (P_Error err) st)"

text \<open>A line that was read leaves fewer characters, or the stream at its end.\<close>

definition is_measure :: "istream \<Rightarrow> nat" where
  "is_measure s = length (is_rest s) + (if is_eof s then 0 else 1)"

lemma getline_fewer:
  assumes "\<not> is_fail (snd (getline s))"
  shows "is_measure (snd (getline s)) < is_measure s"
proof -
  have good: "\<not> is_eof s" "\<not> is_fail s"
    using assms unfolding getline_def by (auto split: if_splits)
  show ?thesis
  proof (cases "dropWhile (\<lambda>c. c \<noteq> LF) (is_rest s)")
    case Nil
    with good show ?thesis by (simp add: getline_def is_measure_def Let_def)
  next
    case (Cons c r)
    then have "length r < length (is_rest s)"
      using length_dropWhile_le [of "\<lambda>c. c \<noteq> LF" "is_rest s"] by simp
    with Cons good show ?thesis by (simp add: getline_def is_measure_def Let_def)
  qed
qed

text \<open>The loop over the header lines, on the characters of the buffer.\<close>

function header_loop :: "istream \<Rightarrow> dl_print list \<Rightarrow> string \<times> dl_print list" where
  "header_loop s out =
     (let (header, s') = getline s
      in if is_fail s' \<or> header = [CR] then (is_rest s', out @ [P_Blank])
         else header_loop s' (out @ [P_Header header]))"
  by pat_completeness auto
termination
proof (relation "measure (\<lambda>(s, out). is_measure s)")
  fix s :: istream and out :: "dl_print list" and p header s'
  assume p: "p = getline s" "(header, s') = p" and n: "\<not> (is_fail s' \<or> header = [CR])"
  then have "s' = snd (getline s)" by (metis snd_conv)
  with n getline_fewer [of s] have "is_measure s' < is_measure s" by simp
  then show "((s', out @ [P_Header header]), (s, out)) \<in> measure (\<lambda>(s, out). is_measure s)"
    by simp
qed simp

declare header_loop.simps [simp del]

definition Downloader_HandleReadHeaders :: "error_code \<Rightarrow> Downloader \<Rightarrow> Downloader" where
  "Downloader_HandleReadHeaders err st =
     (if \<not> failed err then
        (let (rest, out) = header_loop (is_open (dl_response st)) (dl_out st);
             st = st\<lparr>dl_response := rest, dl_out := out\<rparr>;
             st = (if rest \<noteq> [] then dl_flush st else st)
         in dl_start O_AtLeast1 st)
      else dl_print (P_Error err) st)"

text \<open>\<open>boost::asio::error::eof\<close> is the value 2 of its category.\<close>

definition eof :: error_code where
  "eof = ec_other 2"

definition Downloader_HandleReadContent :: "error_code \<Rightarrow> Downloader \<Rightarrow> Downloader" where
  "Downloader_HandleReadContent err st =
     (if \<not> failed err then
        dl_start O_AtLeast1 (dl_flush (dl_print (P_Size (length (dl_response st))) st))
      else if err \<noteq> eof then dl_print (P_Error err) st
      else st)"

section \<open>Completions\<close>

text \<open>
  What may happen next: the resolve, connect or write operation ends; bytes arrive for the
  outstanding read; a search ends at once because the buffer already holds its delimiter; a
  read fails. A step that is not possible is \<open>None\<close>. The handler runs after the operation is
  no longer outstanding.
\<close>

datatype dl_event = E_Done error_code | E_Data string | E_Found | E_Fail error_code

definition dl_found :: "dl_handler \<Rightarrow> error_code \<Rightarrow> Downloader \<Rightarrow> Downloader" where
  "dl_found h = (case h of
       H_StatusLine \<Rightarrow> Downloader_HandleReadStatusLine
     | H_Headers \<Rightarrow> Downloader_HandleReadHeaders)"

definition dl_arrive :: "string \<Rightarrow> Downloader \<Rightarrow> Downloader" where
  "dl_arrive c st = st\<lparr>dl_response := dl_response st @ c\<rparr>"

definition dl_idle :: "Downloader \<Rightarrow> Downloader" where
  "dl_idle st = st\<lparr>dl_pending := None\<rparr>"

definition dl_written :: "Downloader \<Rightarrow> Downloader" where
  "dl_written st = st\<lparr>dl_sent := dl_sent st @ dl_request st, dl_request := []\<rparr>"

fun dl_step :: "dl_event \<Rightarrow> Downloader \<Rightarrow> Downloader option" where
  "dl_step (E_Done ec) st = (case dl_pending st of
       Some (O_Resolve server port) \<Rightarrow> Some (Downloader_HandleResolve ec (dl_idle st))
     | Some O_Connect \<Rightarrow> Some (Downloader_HandleConnect ec (dl_idle st))
     | Some O_Write \<Rightarrow> Some (Downloader_HandleWriteRequest ec
         (dl_idle (if failed ec then st else dl_written st)))
     | _ \<Rightarrow> None)"
| "dl_step (E_Data c) st =
     (if c = [] then None
      else (case dl_pending st of
         Some (O_Until d h) \<Rightarrow>
           if read_until d (dl_response st) \<noteq> None then None
           else if read_until d (dl_response st @ c) = None then Some (dl_arrive c st)
           else Some (dl_found h ec_ok (dl_idle (dl_arrive c st)))
       | Some O_AtLeast1 \<Rightarrow> Some (Downloader_HandleReadContent ec_ok (dl_idle (dl_arrive c st)))
       | _ \<Rightarrow> None))"
| "dl_step E_Found st = (case dl_pending st of
       Some (O_Until d h) \<Rightarrow>
         if read_until d (dl_response st) = None then None
         else Some (dl_found h ec_ok (dl_idle st))
     | _ \<Rightarrow> None)"
| "dl_step (E_Fail ec) st =
     (if \<not> failed ec then None
      else (case dl_pending st of
         Some (O_Until d h) \<Rightarrow>
           if read_until d (dl_response st) \<noteq> None then None
           else Some (dl_found h ec (dl_idle st))
       | Some O_AtLeast1 \<Rightarrow> Some (Downloader_HandleReadContent ec (dl_idle st))
       | _ \<Rightarrow> None))"

fun dl_steps :: "dl_event list \<Rightarrow> Downloader \<Rightarrow> Downloader option" where
  "dl_steps [] st = Some st"
| "dl_steps (e # es) st = Option.bind (dl_step e st) (dl_steps es)"

lemma dl_steps_append:
  "dl_steps (es @ fs) st = Option.bind (dl_steps es st) (dl_steps fs)"
proof (induction es arbitrary: st)
  case (Cons e es)
  then show ?case by (cases "dl_step e st") simp_all
qed simp

fun arrived :: "dl_event list \<Rightarrow> string" where
  "arrived [] = []"
| "arrived (E_Data c # es) = c @ arrived es"
| "arrived (_ # es) = arrived es"

section \<open>The shape of a response\<close>

definition plain :: "string \<Rightarrow> bool" where
  "plain l \<longleftrightarrow> LF \<notin> set l"

definition header_block :: "string list \<Rightarrow> string" where
  "header_block ls = concat (map (\<lambda>l. l @ crlf) ls) @ crlf"

lemma header_block_simps [simp]:
  "header_block [] = crlf"
  "header_block (l # ls) = l @ crlf @ header_block ls"
  by (simp_all add: header_block_def)

lemma starts_with_Cons [simp]:
  "starts_with [] s"
  "starts_with (a # d) (b # s) \<longleftrightarrow> a = b \<and> starts_with d s"
  "\<not> starts_with (a # d) []"
  by (auto simp: starts_with_def)

lemma read_until_crlf:
  "plain l \<Longrightarrow> read_until crlf (l @ crlf @ r) = Some (length l + 2)"
proof (induction l)
  case (Cons c l)
  then show ?case by (cases l) (auto simp: plain_def)
qed simp

lemma read_until_crlf2_line:
  "plain l \<Longrightarrow>
   read_until (crlf @ crlf) (l @ crlf @ r) =
     map_option (\<lambda>n. length l + n) (read_until (crlf @ crlf) (crlf @ r))"
proof (induction l)
  case Nil
  show ?case by (simp add: option.map_ident)
next
  case (Cons c l)
  have "\<not> starts_with (crlf @ crlf) (c # l @ crlf @ r)"
    using Cons.prems by (cases l) (auto simp: plain_def)
  moreover have "plain l" using Cons.prems by (simp add: plain_def)
  ultimately show ?case
    using Cons.IH by (simp add: option.map_comp comp_def del: starts_with_Cons)
qed

lemma read_until_crlf2_crlf:
  "\<not> starts_with crlf r \<Longrightarrow>
   read_until (crlf @ crlf) (crlf @ r) = map_option (\<lambda>n. 2 + n) (read_until (crlf @ crlf) r)"
  by (simp add: option.map_comp comp_def)

lemma read_until_header_block:
  assumes "ls \<noteq> []" and "\<forall>l \<in> set ls. l \<noteq> [] \<and> plain l"
  shows "read_until (crlf @ crlf) (header_block ls @ body) = Some (length (header_block ls))"
  using assms
proof (induction ls rule: list_nonempty_induct)
  case (single l)
  then show ?case using read_until_crlf2_line [of l "crlf @ body"] by simp
next
  case (cons l ls)
  let ?r = "header_block ls @ body"
  obtain k ks where ls: "ls = k # ks" using cons.hyps by (cases ls) auto
  with cons.prems obtain c k' where k: "k = c # k'" "c \<noteq> LF" "LF \<notin> set k'"
    by (cases k) (auto simp: plain_def)
  have "\<not> starts_with crlf ?r" using k ls by (cases k') auto
  from read_until_crlf2_crlf [OF this] cons
  have "read_until (crlf @ crlf) (crlf @ ?r) = Some (2 + length (header_block ls))" by simp
  with cons read_until_crlf2_line [of l ?r] show ?case by simp
qed

section \<open>Parsing a response\<close>

lemma span_stop:
  "(\<forall>x \<in> set l. P x) \<Longrightarrow> \<not> P y \<Longrightarrow> takeWhile P (l @ y # r) = l"
  "(\<forall>x \<in> set l. P x) \<Longrightarrow> \<not> P y \<Longrightarrow> dropWhile P (l @ y # r) = y # r"
  by (induction l) auto

lemma getline_open:
  "plain l \<Longrightarrow> getline (is_open (l @ LF # r)) = (l, is_open r)"
proof -
  assume "plain l"
  then have "takeWhile (\<lambda>c. c \<noteq> LF) (l @ LF # r) = l"
    "dropWhile (\<lambda>c. c \<noteq> LF) (l @ LF # r) = LF # r"
    by (intro span_stop; auto simp: plain_def)+
  then show ?thesis by (simp add: getline_def is_open_def)
qed

lemma header_loop_block:
  assumes "\<forall>l \<in> set ls. l \<noteq> [] \<and> plain l"
  shows "header_loop (is_open (header_block ls @ body)) out =
    (body, out @ map (\<lambda>l. P_Header (l @ [CR])) ls @ [P_Blank])"
  using assms
proof (induction ls arbitrary: out)
  case Nil
  have "getline (is_open ([CR] @ LF # body)) = ([CR], is_open body)"
    by (rule getline_open) (simp add: plain_def)
  then show ?case by (simp add: header_loop.simps is_open_def)
next
  case (Cons l ls)
  have "getline (is_open ((l @ [CR]) @ LF # header_block ls @ body)) =
      (l @ [CR], is_open (header_block ls @ body))"
    by (rule getline_open) (use Cons.prems in \<open>simp add: plain_def\<close>)
  then have "header_loop (is_open (header_block (l # ls) @ body)) out =
      header_loop (is_open (header_block ls @ body)) (out @ [P_Header (l @ [CR])])"
    using Cons.prems by (subst header_loop.simps) (simp add: is_open_def)
  with Cons show ?case by simp
qed

definition status_line :: "string \<Rightarrow> string \<Rightarrow> string" where
  "status_line version reason = version @ '' 200'' @ reason @ crlf"

definition good_status :: "string \<Rightarrow> string \<Rightarrow> bool" where
  "good_status version reason \<longleftrightarrow>
     take 5 version = ''HTTP/'' \<and> list_all (\<lambda>c. \<not> isspace c) version \<and>
     plain reason \<and> (reason \<noteq> [] \<longrightarrow> \<not> is_digit (hd reason))"

lemma plain_status:
  "good_status version reason \<Longrightarrow> plain (version @ '' 200'' @ reason)"
  by (auto simp: good_status_def plain_def isspace_def list_all_iff)

lemma parse_status:
  assumes "good_status version reason"
  shows "extract_word (is_open (status_line version reason @ r)) =
      (version, is_open ('' 200'' @ reason @ crlf @ r))"
    and "extract_unsigned (is_open ('' 200'' @ reason @ crlf @ r)) =
      (200, is_open (reason @ crlf @ r))"
    and "getline (is_open (reason @ crlf @ r)) = (reason @ [CR], is_open r)"
proof -
  have v: "version \<noteq> []" "\<forall>c \<in> set version. \<not> isspace c"
    using assms by (auto simp: good_status_def list_all_iff)
  have ns: "dropWhile isspace (version @ s) = version @ s" for s
    using v by (cases version) auto
  have tw: "takeWhile (\<lambda>c. \<not> isspace c) (version @ CHR '' '' # s) = version"
    "dropWhile (\<lambda>c. \<not> isspace c) (version @ CHR '' '' # s) = CHR '' '' # s" for s
    using span_stop [of version "\<lambda>c. \<not> isspace c" "CHR '' ''" s] v by (simp_all add: isspace_def)
  let ?s = "''200'' @ reason @ crlf @ r"
  have "status_line version reason @ r = version @ CHR '' '' # ?s"
    by (simp add: status_line_def)
  moreover have "extract_word (is_open (version @ CHR '' '' # ?s)) =
      (version, is_open (CHR '' '' # ?s))"
    unfolding extract_word_def is_open_def istream.simps Let_def ns tw using v(1) by simp
  ultimately show "extract_word (is_open (status_line version reason @ r)) =
      (version, is_open ('' 200'' @ reason @ crlf @ r))"
    by simp
  have "\<not> is_digit CR" by (simp add: is_digit_def)
  with assms obtain c u where u: "reason @ crlf @ r = c # u" "\<not> is_digit c"
    by (cases reason) (auto simp: good_status_def)
  have dig: "is_digit CHR ''2''" "is_digit CHR ''0''" by (simp_all add: is_digit_def)
  have d: "dropWhile isspace ('' 200'' @ c # u) = ''200'' @ c # u"
    by (simp add: isspace_def)
  have h: "hd (''200'' @ c # u) \<notin> {CHR ''-'', CHR ''+''}" "hd (''200'' @ c # u) \<noteq> CHR ''-''"
    by simp_all
  have v2: "number_value ''200'' = 200" by code_simp
  have "extract_unsigned (is_open ('' 200'' @ c # u)) = (200, is_open (c # u))"
    unfolding extract_unsigned_def is_open_def istream.simps Let_def d
    using h u(2) v2 dig by simp
  with u show "extract_unsigned (is_open ('' 200'' @ reason @ crlf @ r)) =
      (200, is_open (reason @ crlf @ r))"
    by simp
  have "getline (is_open ((reason @ [CR]) @ LF # r)) = (reason @ [CR], is_open r)"
    by (rule getline_open) (use assms in \<open>simp add: good_status_def plain_def\<close>)
  then show "getline (is_open (reason @ crlf @ r)) = (reason @ [CR], is_open r)"
    by simp
qed

section \<open>The download of one response\<close>

text \<open>
  Where the chain is after the bytes \<open>r\<close> of a response have arrived: in the status line, in the
  headers, or in the body, with the file holding what of the body there is.
\<close>

definition download_at :: "string \<Rightarrow> string \<Rightarrow> string \<Rightarrow> Downloader \<Rightarrow> bool" where
  "download_at sl hb r st \<longleftrightarrow>
     dl_pending st = Some (O_Until crlf H_StatusLine) \<and> dl_response st = r \<and> dl_file st = [] \<or>
     dl_pending st = Some (O_Until (crlf @ crlf) H_Headers) \<and> r = sl @ dl_response st \<and> dl_file st = [] \<or>
     dl_pending st = Some O_AtLeast1 \<and> r = sl @ hb @ dl_file st \<and> dl_response st = []"

lemma prefix_found:
  assumes "read_until d b \<noteq> None" and "b @ k = p @ q" and "read_until d (p @ q) = Some (length p)"
  obtains b' where "b = p @ b'"
proof -
  obtain n where n: "read_until d b = Some n" using assms(1) by blast
  with assms(2,3) read_until_append [OF n, of k] have "n = length p" by simp
  with read_until_bounds [OF n] assms(2) have "b = p @ drop n b"
    by (metis append_eq_append_conv_if append_take_drop_id)
  then show thesis by (rule that)
qed

lemma dl_sel [simp]:
  "dl_pending (dl_start oper st) = Some oper" "dl_response (dl_start oper st) = dl_response st"
  "dl_file (dl_start oper st) = dl_file st" "dl_sent (dl_start oper st) = dl_sent st"
  "dl_pending (dl_print p st) = dl_pending st" "dl_response (dl_print p st) = dl_response st"
  "dl_file (dl_print p st) = dl_file st" "dl_sent (dl_print p st) = dl_sent st"
  "dl_pending (dl_flush st) = dl_pending st" "dl_response (dl_flush st) = []"
  "dl_file (dl_flush st) = dl_file st @ dl_response st" "dl_sent (dl_flush st) = dl_sent st"
  "dl_pending (dl_idle st) = None" "dl_response (dl_idle st) = dl_response st"
  "dl_file (dl_idle st) = dl_file st" "dl_sent (dl_idle st) = dl_sent st"
  "dl_pending (dl_arrive c st) = dl_pending st" "dl_response (dl_arrive c st) = dl_response st @ c"
  "dl_file (dl_arrive c st) = dl_file st" "dl_sent (dl_arrive c st) = dl_sent st"
  by (simp_all add: dl_start_def dl_print_def dl_flush_def dl_idle_def dl_arrive_def)

lemma HandleReadStatusLine_good:
  assumes "good_status version reason" and "dl_response st = status_line version reason @ b"
  shows "dl_pending (Downloader_HandleReadStatusLine ec_ok st) = Some (O_Until (crlf @ crlf) H_Headers)"
    and "dl_response (Downloader_HandleReadStatusLine ec_ok st) = b"
    and "dl_file (Downloader_HandleReadStatusLine ec_ok st) = dl_file st"
  using assms parse_status [OF assms(1), of b]
  by (simp_all add: Downloader_HandleReadStatusLine_def good_status_def is_open_def)

lemma HandleReadHeaders_good:
  assumes "\<forall>l \<in> set ls. l \<noteq> [] \<and> plain l" and "dl_response st = header_block ls @ b"
  shows "dl_pending (Downloader_HandleReadHeaders ec_ok st) = Some O_AtLeast1"
    and "dl_response (Downloader_HandleReadHeaders ec_ok st) = []"
    and "dl_file (Downloader_HandleReadHeaders ec_ok st) = dl_file st @ b"
  using assms header_loop_block [OF assms(1), of b "dl_out st"]
  by (simp_all add: Downloader_HandleReadHeaders_def Let_def)

lemma read_until_status_line:
  "good_status version reason \<Longrightarrow>
   read_until crlf (status_line version reason @ r) = Some (length (status_line version reason))"
  using read_until_crlf [OF plain_status, of version reason r] by (simp add: status_line_def)

text \<open>A search that has found its delimiter in a part of the response runs its handler on all of that part.\<close>

lemma found_status:
  assumes "good_status version reason" and "read_until crlf (dl_response st) \<noteq> None"
    and "dl_response st @ k = status_line version reason @ q" and "dl_file st = []"
  shows "download_at (status_line version reason) hb (dl_response st)
    (Downloader_HandleReadStatusLine ec_ok st)"
proof -
  obtain b where "dl_response st = status_line version reason @ b"
    using prefix_found [OF assms(2,3) read_until_status_line [OF assms(1)]] by blast
  with HandleReadStatusLine_good [OF assms(1) this] assms(4) show ?thesis
    by (simp add: download_at_def)
qed

lemma found_headers:
  assumes "ls \<noteq> []" and "\<forall>l \<in> set ls. l \<noteq> [] \<and> plain l"
    and "read_until (crlf @ crlf) (dl_response st) \<noteq> None"
    and "dl_response st @ k = header_block ls @ body" and "dl_file st = []"
  shows "download_at sl (header_block ls) (sl @ dl_response st) (Downloader_HandleReadHeaders ec_ok st)"
proof -
  obtain b where "dl_response st = header_block ls @ b"
    using prefix_found [OF assms(3,4) read_until_header_block [OF assms(1,2)]] by blast
  with HandleReadHeaders_good [OF assms(2) this] assms(5) show ?thesis
    by (simp add: download_at_def)
qed

lemma download_step:
  assumes "good_status version reason" and "ls \<noteq> []" and "\<forall>l \<in> set ls. l \<noteq> [] \<and> plain l"
    and "status_line version reason @ header_block ls @ body = r @ arrived [e] @ k"
    and "download_at (status_line version reason) (header_block ls) r st"
    and "dl_step e st = Some st'"
  shows "download_at (status_line version reason) (header_block ls) (r @ arrived [e]) st' \<or>
    dl_pending st' = None"
proof -
  let ?sl = "status_line version reason" and ?hb = "header_block ls"
  from assms(5) consider
    (status) "dl_pending st = Some (O_Until crlf H_StatusLine)" "dl_response st = r" "dl_file st = []" |
    (headers) "dl_pending st = Some (O_Until (crlf @ crlf) H_Headers)" "r = ?sl @ dl_response st"
      "dl_file st = []" |
    (body) "dl_pending st = Some O_AtLeast1" "r = ?sl @ ?hb @ dl_file st" "dl_response st = []"
    unfolding download_at_def by blast
  then show ?thesis
  proof cases
    case status
    show ?thesis
    proof (cases e)
      case (E_Data c)
      let ?s = "dl_idle (dl_arrive c st)"
      have "read_until crlf (r @ c) \<noteq> None \<Longrightarrow> download_at ?sl ?hb (dl_response ?s)
          (Downloader_HandleReadStatusLine ec_ok ?s)"
        by (rule found_status [OF assms(1), where k = k and q = "?hb @ body"]) (use status assms(4) E_Data in auto)
      with status E_Data assms(6) show ?thesis
        by (auto simp: dl_found_def download_at_def split: if_splits)
    next
      case E_Found
      have "read_until crlf r \<noteq> None \<Longrightarrow> download_at ?sl ?hb (dl_response (dl_idle st))
          (Downloader_HandleReadStatusLine ec_ok (dl_idle st))"
        by (rule found_status [OF assms(1), where k = k and q = "?hb @ body"]) (use status assms(4) E_Found in auto)
      with status E_Found assms(6) show ?thesis
        by (auto simp: dl_found_def split: if_splits)
    qed (use status assms(6) in \<open>auto simp: dl_found_def Downloader_HandleReadStatusLine_def split: if_splits\<close>)
  next
    case headers
    show ?thesis
    proof (cases e)
      case (E_Data c)
      let ?s = "dl_idle (dl_arrive c st)"
      have "read_until (crlf @ crlf) (dl_response st @ c) \<noteq> None \<Longrightarrow>
          download_at ?sl ?hb (?sl @ dl_response ?s) (Downloader_HandleReadHeaders ec_ok ?s)"
        by (rule found_headers [OF assms(2,3), where k = k and body = body]) (use headers assms(4) E_Data in auto)
      with headers E_Data assms(6) show ?thesis
        by (auto simp: dl_found_def download_at_def split: if_splits)
    next
      case E_Found
      have "read_until (crlf @ crlf) (dl_response st) \<noteq> None \<Longrightarrow>
          download_at ?sl ?hb (?sl @ dl_response (dl_idle st)) (Downloader_HandleReadHeaders ec_ok (dl_idle st))"
        by (rule found_headers [OF assms(2,3), where k = k and body = body]) (use headers assms(4) E_Found in auto)
      with headers E_Found assms(6) show ?thesis
        by (auto simp: dl_found_def split: if_splits)
    qed (use headers assms(6) in \<open>auto simp: dl_found_def Downloader_HandleReadHeaders_def split: if_splits\<close>)
  next
    case body
    with assms(6) show ?thesis
      by (cases e) (auto simp: Downloader_HandleReadContent_def download_at_def split: if_splits)
  qed
qed

lemma download_chain:
  assumes "good_status version reason" and "ls \<noteq> []" and "\<forall>l \<in> set ls. l \<noteq> [] \<and> plain l"
    and "status_line version reason @ header_block ls @ body = r @ arrived es"
    and "download_at (status_line version reason) (header_block ls) r st"
    and "dl_steps (es @ [E_Fail eof]) st = Some st'"
  shows "dl_file st' = body \<and> dl_pending st' = None"
  using assms(4-6)
proof (induction es arbitrary: r st)
  case Nil
  let ?sl = "status_line version reason" and ?hb = "header_block ls"
  from Nil(3) have step: "dl_step (E_Fail eof) st = Some st'"
    by (cases "dl_step (E_Fail eof) st") simp_all
  from Nil(2) consider
    (status) "dl_pending st = Some (O_Until crlf H_StatusLine)" "dl_response st = r" |
    (headers) "dl_pending st = Some (O_Until (crlf @ crlf) H_Headers)" "r = ?sl @ dl_response st" |
    (body) "dl_pending st = Some O_AtLeast1" "r = ?sl @ ?hb @ dl_file st"
    unfolding download_at_def by blast
  then show ?case
  proof cases
    case status
    then have "dl_response st = ?sl @ ?hb @ body" using Nil(1) by simp
    with read_until_status_line [OF assms(1)] have "read_until crlf (dl_response st) \<noteq> None"
      by simp
    with status step show ?thesis by (auto split: if_splits)
  next
    case headers
    then have "dl_response st = ?hb @ body" using Nil(1) by simp
    with read_until_header_block [OF assms(2,3)]
    have "read_until (crlf @ crlf) (dl_response st) \<noteq> None" by simp
    with headers step show ?thesis by (auto split: if_splits)
  next
    case body
    with Nil(1) step show ?thesis
      by (auto simp: Downloader_HandleReadContent_def eof_def split: if_splits)
  qed
next
  case (Cons e es)
  then obtain s where s: "dl_step e st = Some s" "dl_steps (es @ [E_Fail eof]) s = Some st'"
    by (cases "dl_step e st") simp_all
  have split: "arrived (e # es) = arrived [e] @ arrived es" by (cases e) simp_all
  with Cons.prems(1) have
    "download_at (status_line version reason) (header_block ls) (r @ arrived [e]) s \<or> dl_pending s = None"
    using download_step [OF assms(1-3) _ Cons.prems(2) s(1)] by metis
  then show ?case
  proof
    assume "download_at (status_line version reason) (header_block ls) (r @ arrived [e]) s"
    with Cons.IH [of "r @ arrived [e]" s] Cons.prems(1) s(2) split show ?thesis by simp
  next
    assume "dl_pending s = None"
    then have "dl_step x s = None" for x by (cases x) simp_all
    with s(2) show ?thesis by (cases es) simp_all
  qed
qed

text \<open>C22: A download saves exactly the body of the response. For every response with status 200
  and at least one header, however the connection cuts it into pieces and however these fall
  relative to the status line and the headers: when the server has closed after the whole
  response, the destination file holds the body and nothing is outstanding any more.\<close>

theorem Downloader_saves_body:
  assumes "good_status version reason" and "ls \<noteq> []" and "\<forall>l \<in> set ls. l \<noteq> [] \<and> plain l"
    and "arrived es = status_line version reason @ header_block ls @ body"
    and "Downloader_Construct server port path True = Inr st0"
    and "dl_steps (replicate 3 (E_Done ec_ok) @ es @ [E_Fail eof]) st0 = Some st"
  shows "dl_file st = body \<and> dl_pending st = None"
proof -
  define st1 where "st1 = dl_start (O_Until crlf H_StatusLine) (dl_idle (dl_written (dl_idle st0)))"
  have "dl_steps (replicate 3 (E_Done ec_ok)) st0 = Some st1"
    using assms(5) by (auto simp: Downloader_Construct_def numeral_3_eq_3 st1_def dl_start_def dl_idle_def
      dl_written_def Downloader_HandleResolve_def Downloader_HandleConnect_def Downloader_HandleWriteRequest_def)
  with assms(6) have "dl_steps (es @ [E_Fail eof]) st1 = Some st"
    by (simp add: dl_steps_append del: dl_steps.simps)
  moreover have "download_at (status_line version reason) (header_block ls) [] st1"
    using assms(5) by (auto simp: download_at_def st1_def dl_written_def Downloader_Construct_def dl_idle_def dl_start_def)
  ultimately show ?thesis
    using download_chain [OF assms(1-3), of body "[]" es st1 st] assms(4) by simp
qed

lemma Downloader_saves_body_witness:
  "let es = map E_Data [''HTTP/1.1 200 OK'' @ [CR], LF # ''A: b'' @ crlf @ [CR], LF # ''bo'', ''dy''] in
   case Downloader_Construct ''host'' ''80'' ''/'' True of
     Inr st0 \<Rightarrow> (case dl_steps (replicate 3 (E_Done ec_ok) @ es @ [E_Fail eof]) st0 of
       Some st \<Rightarrow> dl_file st = ''body'' \<and> dl_pending st = None
     | None \<Rightarrow> False)
   | Inl _ \<Rightarrow> False"
proof -
  let ?es = "map E_Data [''HTTP/1.1 200 OK'' @ [CR], LF # ''A: b'' @ crlf @ [CR], LF # ''bo'', ''dy'']"
  obtain st0 where st0: "Downloader_Construct ''host'' ''80'' ''/'' True = Inr st0"
    by (simp add: Downloader_Construct_def)
  moreover have "(case Downloader_Construct ''host'' ''80'' ''/'' True of
      Inr s \<Rightarrow> dl_steps (replicate 3 (E_Done ec_ok) @ ?es @ [E_Fail eof]) s | Inl _ \<Rightarrow> None) \<noteq> None"
    by code_simp
  ultimately obtain st where st: "dl_steps (replicate 3 (E_Done ec_ok) @ ?es @ [E_Fail eof]) st0 = Some st"
    by auto
  have "good_status ''HTTP/1.1'' '' OK''" by code_simp
  moreover have "\<forall>l \<in> set [''A: b'']. l \<noteq> [] \<and> plain l" by code_simp
  moreover have "arrived ?es = status_line ''HTTP/1.1'' '' OK'' @ header_block [''A: b''] @ ''body''"
    by code_simp
  ultimately have "dl_file st = ''body'' \<and> dl_pending st = None"
    using Downloader_saves_body [of "''HTTP/1.1''" "'' OK''" "[''A: b'']" ?es] st0 st by blast
  with st0 st show ?thesis by (simp add: Let_def)
qed

text \<open>A response without any header is lost. When the blank line follows the status line
  directly, the handler of the status line takes its first line end, so the search for the end
  of the headers looks for it in the body: of a body without an empty line nothing is saved,
  however it arrives, and the end of the connection is reported as an error.\<close>

theorem Downloader_headerless_body_lost:
  assumes "good_status version reason" and "read_until (crlf @ crlf) (crlf @ body) = None"
    and "Downloader_Construct server port path True = Inr st0"
  shows "\<exists>st. dl_steps (replicate 3 (E_Done ec_ok) @
      [E_Data (status_line version reason @ crlf @ body), E_Fail eof]) st0 = Some st \<and>
    dl_file st = [] \<and> dl_pending st = None \<and> dl_out st = [P_Error eof]"
proof -
  define st1 where "st1 = dl_start (O_Until crlf H_StatusLine) (dl_idle (dl_written (dl_idle st0)))"
  define c where "c = status_line version reason @ crlf @ body"
  define s where "s = dl_idle (dl_arrive c st1)"
  define st2 where "st2 = Downloader_HandleReadStatusLine ec_ok s"
  have c: "read_until crlf c \<noteq> None" "c \<noteq> []"
    unfolding c_def read_until_status_line [OF assms(1)] by (auto simp: status_line_def)
  have st1: "dl_response st1 = []" "dl_file st1 = []" "dl_out st1 = []"
    "dl_pending st1 = Some (O_Until crlf H_StatusLine)"
    using assms(3) by (auto simp: st1_def dl_written_def Downloader_Construct_def dl_idle_def dl_start_def)
  then have s: "dl_response s = status_line version reason @ crlf @ body" "dl_file s = []" "dl_out s = []"
    by (simp_all add: s_def c_def dl_idle_def dl_arrive_def)
  have st2: "dl_pending st2 = Some (O_Until (crlf @ crlf) H_Headers)" "dl_response st2 = crlf @ body"
    "dl_file st2 = []" "dl_out st2 = []"
    using HandleReadStatusLine_good [OF assms(1) s(1)] s parse_status [OF assms(1), of "crlf @ body"] assms(1)
    by (simp_all add: st2_def Downloader_HandleReadStatusLine_def good_status_def is_open_def dl_start_def)
  have "dl_steps (replicate 3 (E_Done ec_ok)) st0 = Some st1"
    using assms(3) by (auto simp: Downloader_Construct_def numeral_3_eq_3 st1_def dl_start_def dl_idle_def
      dl_written_def Downloader_HandleResolve_def Downloader_HandleConnect_def Downloader_HandleWriteRequest_def)
  moreover have "dl_step (E_Data c) st1 = Some st2"
    using st1 c by (auto simp: dl_found_def st2_def s_def)
  moreover have "dl_step (E_Fail eof) st2 = Some (dl_print (P_Error eof) (dl_idle st2))"
    using st2 assms(2) by (simp add: dl_found_def Downloader_HandleReadHeaders_def eof_def)
  ultimately have "dl_steps (replicate 3 (E_Done ec_ok) @ [E_Data c, E_Fail eof]) st0 =
      Some (dl_print (P_Error eof) (dl_idle st2))"
    by (simp add: dl_steps_append)
  with st2 show ?thesis by (simp add: c_def dl_print_def dl_idle_def)
qed

lemma Downloader_headerless_body_lost_witness:
  "\<exists>st0 st. dl_steps (replicate 3 (E_Done ec_ok) @
      [E_Data (status_line ''HTTP/1.1'' '' OK'' @ crlf @ ''body''), E_Fail eof]) st0 = Some st \<and>
    Downloader_Construct ''host'' ''80'' ''/'' True = Inr st0 \<and>
    dl_file st = [] \<and> dl_pending st = None \<and> dl_out st = [P_Error eof]"
proof -
  obtain st0 where "Downloader_Construct ''host'' ''80'' ''/'' True = Inr st0"
    by (simp add: Downloader_Construct_def)
  moreover have "good_status ''HTTP/1.1'' '' OK''" "read_until (crlf @ crlf) (crlf @ ''body'') = None"
    by code_simp+
  ultimately show ?thesis
    using Downloader_headerless_body_lost [of "''HTTP/1.1''" "'' OK''" "''body''"] by blast
qed

end
