(* ===== verification/Thread_Condition.thy ===== *)
theory Thread_Condition
  imports Main
begin

text \<open>
  The condition variable sample (\<open>_multi-threading/condition/src/main.cpp\<close>): one thread pushes
  three random numbers, the other prints them, and each waits for the other on one condition
  variable. A step is what a thread does between two points where the other can see or change
  the shared state. The mutex has an owner; locking is not possible while it has one; \<open>wait\<close>
  gives the mutex up and sleeps in one step, a notification wakes the sleepers, and a woken
  thread takes the mutex again. A condition variable may also wake without a notification:
  that is an event of its own. The parameter \<open>rnd\<close> is the sequence that \<open>std::rand\<close> returns.
\<close>

datatype thread = Fill | Print

datatype fpc = F_Lock | F_Push | F_Notify | F_Wait | F_Sleep | F_Wake | F_Unlock | F_End

datatype ppc =
  P_Lock | P_Check | P_Wait | P_Sleep | P_Wake | P_Print | P_Incr | P_Notify | P_Unlock | P_End

record Cond =
  cd_mutex :: "thread option"
  cd_numbers :: "int list"
  cd_fill :: fpc
  cd_fill_i :: nat
  cd_print :: ppc
  cd_print_i :: nat
  cd_next :: nat
  cd_out :: "int list"

definition cond_start :: Cond where
  "cond_start = \<lparr>cd_mutex = None, cd_numbers = [], cd_fill = F_Lock, cd_fill_i = 0,
     cd_print = P_Lock, cd_print_i = 0, cd_next = 1, cd_out = []\<rparr>"

text \<open>A loop iteration ends by unlocking; the third one is the last.\<close>

definition fill_next :: "Cond \<Rightarrow> Cond" where
  "fill_next st = (let i = Suc (cd_fill_i st) in
     st\<lparr>cd_mutex := None, cd_fill_i := i, cd_fill := (if i < 3 then F_Lock else F_End)\<rparr>)"

definition print_next :: "Cond \<Rightarrow> Cond" where
  "print_next st = (let i = Suc (cd_print_i st) in
     st\<lparr>cd_mutex := None, cd_print_i := i, cd_print := (if i < 3 then P_Lock else P_End)\<rparr>)"

definition fill_step :: "(nat \<Rightarrow> int) \<Rightarrow> Cond \<Rightarrow> Cond option" where
  "fill_step rnd st = (case cd_fill st of
       F_Lock \<Rightarrow> if cd_mutex st = None then Some (st\<lparr>cd_mutex := Some Fill, cd_fill := F_Push\<rparr>) else None
     | F_Push \<Rightarrow> Some (st\<lparr>cd_numbers := cd_numbers st @ [rnd (length (cd_numbers st))], cd_fill := F_Notify\<rparr>)
     | F_Notify \<Rightarrow> Some (st\<lparr>cd_fill := F_Wait,
         cd_print := (if cd_print st = P_Sleep then P_Wake else cd_print st)\<rparr>)
     | F_Wait \<Rightarrow> Some (st\<lparr>cd_mutex := None, cd_fill := F_Sleep\<rparr>)
     | F_Sleep \<Rightarrow> None
     | F_Wake \<Rightarrow> if cd_mutex st = None then Some (st\<lparr>cd_mutex := Some Fill, cd_fill := F_Unlock\<rparr>) else None
     | F_Unlock \<Rightarrow> Some (fill_next st)
     | F_End \<Rightarrow> None)"

definition print_step :: "Cond \<Rightarrow> Cond option" where
  "print_step st = (case cd_print st of
       P_Lock \<Rightarrow> if cd_mutex st = None then Some (st\<lparr>cd_mutex := Some Print, cd_print := P_Check\<rparr>) else None
     | P_Check \<Rightarrow> Some (st\<lparr>cd_print := (if length (cd_numbers st) \<noteq> cd_next st then P_Wait else P_Print)\<rparr>)
     | P_Wait \<Rightarrow> Some (st\<lparr>cd_mutex := None, cd_print := P_Sleep\<rparr>)
     | P_Sleep \<Rightarrow> None
     | P_Wake \<Rightarrow> if cd_mutex st = None then Some (st\<lparr>cd_mutex := Some Print, cd_print := P_Check\<rparr>) else None
     | P_Print \<Rightarrow> Some (st\<lparr>cd_out := cd_out st @ [last (cd_numbers st)], cd_print := P_Incr\<rparr>)
     | P_Incr \<Rightarrow> Some (st\<lparr>cd_next := Suc (cd_next st), cd_print := P_Notify\<rparr>)
     | P_Notify \<Rightarrow> Some (st\<lparr>cd_print := P_Unlock,
         cd_fill := (if cd_fill st = F_Sleep then F_Wake else cd_fill st)\<rparr>)
     | P_Unlock \<Rightarrow> Some (print_next st)
     | P_End \<Rightarrow> None)"

datatype cond_event = Run thread | Spurious thread

fun cond_step :: "(nat \<Rightarrow> int) \<Rightarrow> cond_event \<Rightarrow> Cond \<Rightarrow> Cond option" where
  "cond_step rnd (Run Fill) st = fill_step rnd st"
| "cond_step rnd (Run Print) st = print_step st"
| "cond_step rnd (Spurious Fill) st =
     (if cd_fill st = F_Sleep then Some (st\<lparr>cd_fill := F_Wake\<rparr>) else None)"
| "cond_step rnd (Spurious Print) st =
     (if cd_print st = P_Sleep then Some (st\<lparr>cd_print := P_Wake\<rparr>) else None)"

fun cond_steps :: "(nat \<Rightarrow> int) \<Rightarrow> cond_event list \<Rightarrow> Cond \<Rightarrow> Cond option" where
  "cond_steps rnd [] st = Some st"
| "cond_steps rnd (e # es) st = Option.bind (cond_step rnd e st) (cond_steps rnd es)"

text \<open>\<open>main\<close> joins both threads.\<close>

definition cond_joined :: "Cond \<Rightarrow> bool" where
  "cond_joined st \<longleftrightarrow> cd_fill st = F_End \<and> cd_print st = P_End"

section \<open>The hand-over\<close>

text \<open>
  The counters behind the invariant: the numbers pushed, printed and acknowledged, read off the
  program points of the two threads.
\<close>

definition fill_holds :: "fpc \<Rightarrow> bool" where
  "fill_holds p \<longleftrightarrow> p \<in> {F_Push, F_Notify, F_Wait, F_Unlock}"

definition print_holds :: "ppc \<Rightarrow> bool" where
  "print_holds p \<longleftrightarrow> p \<in> {P_Check, P_Wait, P_Print, P_Incr, P_Notify, P_Unlock}"

definition pushed :: "Cond \<Rightarrow> nat" where
  "pushed st = cd_fill_i st + (if cd_fill st \<in> {F_Lock, F_Push, F_End} then 0 else 1)"

definition printed :: "Cond \<Rightarrow> nat" where
  "printed st = cd_print_i st + (if cd_print st \<in> {P_Incr, P_Notify, P_Unlock} then 1 else 0)"

definition acknowledged :: "Cond \<Rightarrow> nat" where
  "acknowledged st = cd_print_i st + (if cd_print st = P_Unlock then 1 else 0)"

definition cond_inv :: "(nat \<Rightarrow> int) \<Rightarrow> Cond \<Rightarrow> bool" where
  "cond_inv rnd st \<longleftrightarrow>
     (cd_mutex st = Some Fill \<longleftrightarrow> fill_holds (cd_fill st)) \<and>
     (cd_mutex st = Some Print \<longleftrightarrow> print_holds (cd_print st)) \<and>
     cd_numbers st = map rnd [0..<pushed st] \<and>
     cd_out st = map rnd [0..<printed st] \<and>
     cd_next st = Suc (cd_print_i st) + (if cd_print st \<in> {P_Notify, P_Unlock} then 1 else 0) \<and>
     (cd_fill st = F_End \<longleftrightarrow> cd_fill_i st = 3) \<and> cd_fill_i st \<le> 3 \<and>
     (cd_print st = P_End \<longleftrightarrow> cd_print_i st = 3) \<and> cd_print_i st \<le> 3 \<and>
     acknowledged st = cd_fill_i st + (if cd_fill st \<in> {F_Wake, F_Unlock} then 1 else 0) \<and>
     (cd_print st \<in> {P_Wait, P_Sleep} \<longrightarrow> cd_fill st \<notin> {F_Wait, F_Sleep}) \<and>
     (cd_print st \<in> {P_Print, P_Incr, P_Notify} \<longrightarrow> cd_fill st \<in> {F_Notify, F_Wait, F_Sleep})"

lemmas cond_defs = cond_inv_def fill_holds_def print_holds_def pushed_def printed_def acknowledged_def

lemma upt_3: "[0..<3] = [0..<2] @ [2 :: nat]"
  by (simp add: upt_rec)

lemma cond_inv_start: "cond_inv rnd cond_start"
  by (simp add: cond_defs cond_start_def)

text \<open>A step first, with the invariant folded; then the invariant on the components.\<close>

lemma cond_inv_fill:
  "cond_inv rnd st \<Longrightarrow> fill_step rnd st = Some st' \<Longrightarrow> cond_inv rnd st'"
  apply (cases st)
  subgoal for m xs f i p j n out
    apply (cases f; simp add: fill_step_def fill_next_def Let_def split: if_split_asm)
    by (cases p; hypsubst; auto simp: cond_defs upt_3)+
  done

lemma cond_inv_print:
  "cond_inv rnd st \<Longrightarrow> print_step st = Some st' \<Longrightarrow> cond_inv rnd st'"
  apply (cases st)
  subgoal for m xs f i p j n out
    apply (cases p; simp add: print_step_def print_next_def Let_def split: if_split_asm)
    by (cases f; hypsubst; auto simp: cond_defs upt_3)+
  done

text \<open>
  The invariant holds as long as neither thread wakes without a notification.
\<close>

fun notified :: "cond_event \<Rightarrow> bool" where
  "notified (Run _) = True"
| "notified (Spurious _) = False"

lemma cond_inv_step:
  "cond_inv rnd st \<Longrightarrow> notified e \<Longrightarrow> cond_step rnd e st = Some st' \<Longrightarrow> cond_inv rnd st'"
  by (induction rnd e st rule: cond_step.induct) (auto intro: cond_inv_fill cond_inv_print)

text \<open>
  What is left to do. The notification of one thread starts the check of the other again; it is
  paid for by the notifying thread.
\<close>

definition fill_left :: "fpc \<Rightarrow> nat" where
  "fill_left p = (case p of F_Lock \<Rightarrow> 12 | F_Push \<Rightarrow> 11 | F_Notify \<Rightarrow> 10 | F_Wait \<Rightarrow> 4 | F_Sleep \<Rightarrow> 3
     | F_Wake \<Rightarrow> 2 | F_Unlock \<Rightarrow> 1 | F_End \<Rightarrow> 0)"

definition print_left :: "ppc \<Rightarrow> nat" where
  "print_left p = (case p of P_Wake \<Rightarrow> 8 | P_Lock \<Rightarrow> 8 | P_Check \<Rightarrow> 7 | P_Wait \<Rightarrow> 6 | P_Sleep \<Rightarrow> 5
     | P_Print \<Rightarrow> 4 | P_Incr \<Rightarrow> 3 | P_Notify \<Rightarrow> 2 | P_Unlock \<Rightarrow> 1 | P_End \<Rightarrow> 0)"

definition cond_left :: "Cond \<Rightarrow> nat" where
  "cond_left st = 12 * (2 - cd_fill_i st) + fill_left (cd_fill st) +
     8 * (2 - cd_print_i st) + print_left (cd_print st)"

lemma cond_left_fill:
  "cond_inv rnd st \<Longrightarrow> fill_step rnd st = Some st' \<Longrightarrow> cond_left st' < cond_left st"
  apply (cases st)
  subgoal for m xs f i p j n out
    by (cases f; simp add: fill_step_def fill_next_def Let_def split: if_split_asm;
        hypsubst?; auto simp: cond_left_def fill_left_def print_left_def cond_inv_def)
  done

lemma cond_left_print:
  "cond_inv rnd st \<Longrightarrow> print_step st = Some st' \<Longrightarrow> cond_left st' < cond_left st"
  apply (cases st)
  subgoal for m xs f i p j n out
    by (cases p; simp add: print_step_def print_next_def Let_def split: if_split_asm;
        hypsubst?; auto simp: cond_left_def fill_left_def print_left_def cond_inv_def)
  done

text \<open>A state in which neither thread can go on is the end.\<close>

lemma cond_stuck:
  assumes "cond_inv rnd st" and "fill_step rnd st = None" and "print_step st = None"
  shows "cond_joined st"
proof (cases st)
  case (fields m xs f i p j n out)
  have "f \<in> {F_Lock, F_Sleep, F_Wake, F_End}" "p \<in> {P_Lock, P_Sleep, P_Wake, P_End}"
    using assms(2,3) fields
    by (cases f; cases p; simp add: fill_step_def print_step_def split: if_split_asm)+
  then show ?thesis
    using assms fields
    by (cases m; cases f; cases p; simp add: fill_step_def print_step_def cond_joined_def)
       (auto simp: cond_defs intro: thread.exhaust)
qed

lemma cond_run:
  assumes "cond_inv rnd st" and "list_all notified es" and "cond_steps rnd es st = Some st'"
  shows "cond_inv rnd st' \<and> length es + cond_left st' \<le> cond_left st"
  using assms
proof (induction es arbitrary: st)
  case (Cons e es)
  then obtain s where s: "cond_step rnd e st = Some s" "cond_steps rnd es s = Some st'"
    by (cases "cond_step rnd e st") simp_all
  moreover have "cond_left s < cond_left st"
    using Cons.prems(1,2) s(1) cond_left_fill cond_left_print
    by (cases "(rnd, e, st)" rule: cond_step.cases) auto
  moreover have "cond_inv rnd s" using cond_inv_step [OF Cons.prems(1) _ s(1)] Cons.prems(2) by simp
  ultimately show ?case using Cons.IH [of s] Cons.prems(2) by simp
qed simp

text \<open>C25: The two threads of the condition variable sample finish their work when no wait
  returns without a notification: every execution, however the threads are scheduled, has at
  most 60 steps, and when neither thread can go on both have ended and the three random numbers
  were printed, each once and in order.\<close>

theorem Condition_prints_all:
  assumes "list_all notified es" and "cond_steps rnd es cond_start = Some st"
  shows "length es \<le> 60 \<and>
    (cond_step rnd (Run Fill) st = None \<and> cond_step rnd (Run Print) st = None \<longrightarrow>
       cond_joined st \<and> cd_out st = map rnd [0, 1, 2])"
proof -
  have inv: "cond_inv rnd st" and len: "length es + cond_left st \<le> cond_left cond_start"
    using cond_run [OF cond_inv_start assms] by simp_all
  have "cond_left cond_start = 60"
    by (simp add: cond_left_def cond_start_def fill_left_def print_left_def)
  moreover have "cd_out st = map rnd [0, 1, 2]" if "cond_joined st"
    using that inv by (auto simp: cond_joined_def cond_defs upt_rec numeral_2_eq_2)
  ultimately show ?thesis using len cond_stuck [OF inv] by simp
qed

text \<open>A schedule that keeps \<open>Fill\<close> ahead until it sleeps, and runs \<open>Print\<close> and \<open>Fill\<close> in turn.\<close>

definition cond_schedule :: "cond_event list" where
  "cond_schedule = concat (replicate 3
     (replicate 4 (Run Fill) @ replicate 6 (Run Print) @ replicate 2 (Run Fill)))"

lemma Condition_prints_all_witness:
  "\<exists>st. cond_steps (\<lambda>n. int n * 10) cond_schedule cond_start = Some st \<and>
     cond_joined st \<and> cd_out st = [0, 10, 20]"
proof -
  have "(case cond_steps (\<lambda>n. int n * 10) cond_schedule cond_start of
      Some st \<Rightarrow> cond_step (\<lambda>n. int n * 10) (Run Fill) st = None \<and> cond_step (\<lambda>n. int n * 10) (Run Print) st = None
    | None \<Rightarrow> False)"
    by code_simp
  then obtain st where st: "cond_steps (\<lambda>n. int n * 10) cond_schedule cond_start = Some st"
    "cond_step (\<lambda>n. int n * 10) (Run Fill) st = None" "cond_step (\<lambda>n. int n * 10) (Run Print) st = None"
    by (auto split: option.splits)
  moreover have "list_all notified cond_schedule" by code_simp
  ultimately show ?thesis
    using Condition_prints_all [OF _ st(1)] by simp
qed

section \<open>A wake-up without a notification\<close>






end
