(* ===== verification/Thread_App.thy ===== *)
theory Thread_App
  imports Main
begin

text \<open>
  The class \<open>App\<close> of the promise sample and of the task scheduler's program (\<open>App.h\<close>): any
  number of threads wait in \<open>WaitForTerminationRequest\<close>, any number call \<open>Terminate\<close>. A step
  is what a thread does between two points where another can see or change the state; \<open>wait\<close>
  releases the mutex and sleeps in one step, and may wake without a notification. The threads
  of each kind are numbered; an event that is not possible is \<open>None\<close>.
\<close>

datatype wait_pc = W_Idle | W_Lock | W_Check | W_Block | W_Sleep | W_Wake | W_Unlock | W_Return

datatype term_pc = T_Idle | T_Lock | T_Set | T_Notify | T_Unlock | T_Return

datatype app_owner = Waiter nat | Terminator nat

record App =
  ap_mutex :: "app_owner option"
  ap_terminated :: bool
  ap_wait :: "nat \<Rightarrow> wait_pc"
  ap_term :: "nat \<Rightarrow> term_pc"

definition App_Construct :: App where
  "App_Construct = \<lparr>ap_mutex = None, ap_terminated = False, ap_wait = (\<lambda>_. W_Idle), ap_term = (\<lambda>_. T_Idle)\<rparr>"

definition ap_goto :: "nat \<Rightarrow> wait_pc \<Rightarrow> App \<Rightarrow> App" where
  "ap_goto c p st = st\<lparr>ap_wait := (ap_wait st)(c := p)\<rparr>"

definition ap_tgoto :: "nat \<Rightarrow> term_pc \<Rightarrow> App \<Rightarrow> App" where
  "ap_tgoto c p st = st\<lparr>ap_term := (ap_term st)(c := p)\<rparr>"

definition ap_notify_all :: "App \<Rightarrow> App" where
  "ap_notify_all st = st\<lparr>ap_wait := (\<lambda>c. if ap_wait st c = W_Sleep then W_Wake else ap_wait st c)\<rparr>"

definition WaitForTerminationRequest_step :: "nat \<Rightarrow> App \<Rightarrow> App option" where
  "WaitForTerminationRequest_step c st = (case ap_wait st c of
       W_Lock \<Rightarrow> if ap_mutex st = None then Some (ap_goto c W_Check (st\<lparr>ap_mutex := Some (Waiter c)\<rparr>)) else None
     | W_Check \<Rightarrow> Some (ap_goto c (if ap_terminated st then W_Unlock else W_Block) st)
     | W_Block \<Rightarrow> Some (ap_goto c W_Sleep (st\<lparr>ap_mutex := None\<rparr>))
     | W_Wake \<Rightarrow> if ap_mutex st = None then Some (ap_goto c W_Check (st\<lparr>ap_mutex := Some (Waiter c)\<rparr>)) else None
     | W_Unlock \<Rightarrow> Some (ap_goto c W_Return (st\<lparr>ap_mutex := None\<rparr>))
     | _ \<Rightarrow> None)"

definition Terminate_step :: "nat \<Rightarrow> App \<Rightarrow> App option" where
  "Terminate_step c st = (case ap_term st c of
       T_Lock \<Rightarrow> if ap_mutex st = None then Some (ap_tgoto c T_Set (st\<lparr>ap_mutex := Some (Terminator c)\<rparr>)) else None
     | T_Set \<Rightarrow> Some (ap_tgoto c T_Notify (st\<lparr>ap_terminated := True\<rparr>))
     | T_Notify \<Rightarrow> Some (ap_tgoto c T_Unlock (ap_notify_all st))
     | T_Unlock \<Rightarrow> Some (ap_tgoto c T_Return (st\<lparr>ap_mutex := None\<rparr>))
     | _ \<Rightarrow> None)"

datatype app_event = Call_Wait nat | Call_Terminate nat | Run_Wait nat | Run_Terminate nat | Spurious_wake nat

fun app_step :: "app_event \<Rightarrow> App \<Rightarrow> App option" where
  "app_step (Call_Wait c) st = (if ap_wait st c = W_Idle then Some (ap_goto c W_Lock st) else None)"
| "app_step (Call_Terminate c) st = (if ap_term st c = T_Idle then Some (ap_tgoto c T_Lock st) else None)"
| "app_step (Run_Wait c) st = WaitForTerminationRequest_step c st"
| "app_step (Run_Terminate c) st = Terminate_step c st"
| "app_step (Spurious_wake c) st = (if ap_wait st c = W_Sleep then Some (ap_goto c W_Wake st) else None)"

fun app_steps :: "app_event list \<Rightarrow> App \<Rightarrow> App option" where
  "app_steps [] st = Some st"
| "app_steps (e # es) st = Option.bind (app_step e st) (app_steps es)"

section \<open>The invariant\<close>

definition wait_holds :: "wait_pc \<Rightarrow> bool" where
  "wait_holds p \<longleftrightarrow> p = W_Check \<or> p = W_Block \<or> p = W_Unlock"

definition term_holds :: "term_pc \<Rightarrow> bool" where
  "term_holds p \<longleftrightarrow> p = T_Set \<or> p = T_Notify \<or> p = T_Unlock"

definition app_inv :: "App \<Rightarrow> bool" where
  "app_inv st \<longleftrightarrow>
     (\<forall>c. ap_mutex st = Some (Waiter c) \<longleftrightarrow> wait_holds (ap_wait st c)) \<and>
     (\<forall>c. ap_mutex st = Some (Terminator c) \<longleftrightarrow> term_holds (ap_term st c)) \<and>
     (\<forall>c. ap_wait st c = W_Unlock \<or> ap_wait st c = W_Return \<longrightarrow> ap_terminated st) \<and>
     (\<forall>c. ap_wait st c = W_Block \<longrightarrow> \<not> ap_terminated st) \<and>
     (\<forall>c. ap_wait st c = W_Sleep \<longrightarrow> \<not> ap_terminated st \<or> (\<exists>d. ap_term st d = T_Notify)) \<and>
     (\<forall>d. ap_term st d = T_Notify \<or> ap_term st d = T_Unlock \<or> ap_term st d = T_Return \<longrightarrow> ap_terminated st)"

lemmas app_defs = app_inv_def wait_holds_def term_holds_def

lemma app_inv_start: "app_inv App_Construct"
  by (simp add: app_defs App_Construct_def)

lemma app_inv_wait:
  assumes "app_inv st" and "WaitForTerminationRequest_step c st = Some st'"
  shows "app_inv st'"
proof (cases "ap_wait st c")
  case W_Block
  then have "ap_mutex st = Some (Waiter c)" "\<not> ap_terminated st"
    using assms(1) unfolding app_defs by metis+
  with W_Block assms show ?thesis
    by (auto simp: WaitForTerminationRequest_step_def ap_goto_def app_defs split: if_split_asm)
next
  case W_Unlock
  then have "ap_mutex st = Some (Waiter c)" "ap_terminated st"
    using assms(1) unfolding app_defs by metis+
  with W_Unlock assms show ?thesis
    by (auto simp: WaitForTerminationRequest_step_def ap_goto_def app_defs split: if_split_asm)
next
  case W_Check
  then have "ap_mutex st = Some (Waiter c)" using assms(1) unfolding app_defs by metis
  with W_Check assms show ?thesis
    by (auto simp: WaitForTerminationRequest_step_def ap_goto_def app_defs split: if_split_asm)
qed (use assms in \<open>auto simp: WaitForTerminationRequest_step_def ap_goto_def app_defs split: if_split_asm\<close>)

lemma app_inv_terminate:
  assumes "app_inv st" and "Terminate_step c st = Some st'"
  shows "app_inv st'"
proof (cases "ap_term st c")
  case T_Set
  then have m: "ap_mutex st = Some (Terminator c)" using assms(1) unfolding app_defs by metis
  then have "ap_wait st d \<noteq> W_Block" for d
    using assms(1) unfolding app_defs by (metis app_owner.distinct(1) option.inject)
  with m T_Set assms show ?thesis
    by (auto simp: Terminate_step_def ap_tgoto_def app_defs split: if_split_asm)
next
  case T_Notify
  then have "ap_mutex st = Some (Terminator c)" "ap_terminated st"
    using assms(1) unfolding app_defs by metis+
  with T_Notify assms show ?thesis
    by (auto simp: Terminate_step_def ap_tgoto_def ap_notify_all_def app_defs split: if_split_asm)
next
  case T_Unlock
  then have m: "ap_mutex st = Some (Terminator c)" "ap_terminated st"
    using assms(1) unfolding app_defs by metis+
  have "ap_term st d \<noteq> T_Notify" for d
  proof
    assume d: "ap_term st d = T_Notify"
    then have "ap_mutex st = Some (Terminator d)"
      using assms(1) by (auto simp: app_inv_def term_holds_def)
    with m d T_Unlock show False by auto
  qed
  with m T_Unlock assms show ?thesis
    by (auto simp: Terminate_step_def ap_tgoto_def app_defs split: if_split_asm) metis+
qed (use assms in \<open>auto simp: Terminate_step_def ap_tgoto_def app_defs split: if_split_asm\<close>)

lemma app_inv_goto:
  assumes inv: "app_inv st" and c: "ap_wait st c = W_Idle \<or> ap_wait st c = W_Sleep"
    and p: "p = W_Lock \<or> p = W_Wake"
  shows "app_inv (ap_goto c p st)"
proof -
  let ?st = "ap_goto c p st"
  have same: "ap_mutex ?st = ap_mutex st" "ap_term ?st = ap_term st" "ap_terminated ?st = ap_terminated st"
    by (simp_all add: ap_goto_def)
  have holds: "wait_holds (ap_wait ?st d) = wait_holds (ap_wait st d)" for d
    using c p by (auto simp: ap_goto_def wait_holds_def)
  have other: "ap_wait ?st d = q \<Longrightarrow> q \<noteq> W_Lock \<Longrightarrow> q \<noteq> W_Wake \<Longrightarrow> ap_wait st d = q" for d q
    using p by (auto simp: ap_goto_def split: if_split_asm)
  show ?thesis
    unfolding app_inv_def same holds
    using inv other [of _ W_Unlock] other [of _ W_Return] other [of _ W_Block] other [of _ W_Sleep]
    unfolding app_inv_def by (intro conjI) (simp_all, blast+)
qed

lemma app_inv_tgoto:
  assumes inv: "app_inv st" and c: "ap_term st c = T_Idle"
  shows "app_inv (ap_tgoto c T_Lock st)"
proof -
  let ?st = "ap_tgoto c T_Lock st"
  have same: "ap_mutex ?st = ap_mutex st" "ap_wait ?st = ap_wait st" "ap_terminated ?st = ap_terminated st"
    by (simp_all add: ap_tgoto_def)
  have holds: "term_holds (ap_term ?st d) = term_holds (ap_term st d)" for d
    using c by (auto simp: ap_tgoto_def term_holds_def)
  have other: "q \<noteq> T_Lock \<Longrightarrow> q \<noteq> T_Idle \<Longrightarrow> ap_term ?st d = q \<longleftrightarrow> ap_term st d = q" for d q
    using c by (auto simp: ap_tgoto_def)
  show ?thesis
    using inv unfolding app_inv_def same holds by (simp add: other)
qed

lemma app_inv_step: "app_inv st \<Longrightarrow> app_step e st = Some st' \<Longrightarrow> app_inv st'"
  by (cases e) (auto intro: app_inv_goto app_inv_tgoto app_inv_wait app_inv_terminate split: if_split_asm)

lemma app_inv_steps: "app_inv st \<Longrightarrow> app_steps es st = Some st' \<Longrightarrow> app_inv st'"
proof (induction es arbitrary: st)
  case (Cons e es)
  then show ?case by (cases "app_step e st") (auto intro: app_inv_step)
qed simp

text \<open>What a waiting thread has left to do once the flag is set.\<close>

definition wait_left :: "wait_pc \<Rightarrow> nat" where
  "wait_left p = (case p of W_Lock \<Rightarrow> 3 | W_Wake \<Rightarrow> 3 | W_Check \<Rightarrow> 2 | W_Unlock \<Rightarrow> 1 | _ \<Rightarrow> 0)"

text \<open>C24: No termination request is lost. In every reachable state of the application object, with
  any number of threads that wait and that call \<open>Terminate\<close> and with wake-ups of any kind: a wait
  has returned only if termination was requested; once a call of \<open>Terminate\<close> has returned or has
  notified, and no other one is about to notify, no thread sleeps, and a thread that waits can
  take its next step when the mutex is free and returns after at most three steps of its own.\<close>

theorem App_no_lost_request:
  assumes "app_steps es App_Construct = Some st"
  shows "(ap_wait st c = W_Return \<longrightarrow> ap_terminated st) \<and>
    (ap_term st d \<in> {T_Unlock, T_Return} \<and> (\<forall>d'. ap_term st d' \<noteq> T_Notify) \<longrightarrow>
       ap_wait st c \<noteq> W_Sleep \<and>
       (ap_wait st c \<notin> {W_Idle, W_Return} \<longrightarrow> wait_left (ap_wait st c) \<in> {1..3} \<and>
          (ap_mutex st \<in> {None, Some (Waiter c)} \<longrightarrow>
             (\<exists>st'. app_step (Run_Wait c) st = Some st' \<and>
                wait_left (ap_wait st' c) < wait_left (ap_wait st c) \<and>
                (wait_left (ap_wait st' c) = 0 \<longrightarrow> ap_wait st' c = W_Return)))))"
proof -
  have inv: "app_inv st" using app_inv_steps [OF app_inv_start assms] .
  have ret: "ap_wait st c = W_Return \<longrightarrow> ap_terminated st"
    using inv unfolding app_inv_def by blast
  moreover have "ap_wait st c \<noteq> W_Sleep \<and>
       (ap_wait st c \<notin> {W_Idle, W_Return} \<longrightarrow> wait_left (ap_wait st c) \<in> {1..3} \<and>
          (ap_mutex st \<in> {None, Some (Waiter c)} \<longrightarrow>
             (\<exists>st'. app_step (Run_Wait c) st = Some st' \<and>
                wait_left (ap_wait st' c) < wait_left (ap_wait st c) \<and>
                (wait_left (ap_wait st' c) = 0 \<longrightarrow> ap_wait st' c = W_Return))))"
    if t: "ap_term st d \<in> {T_Unlock, T_Return}" "\<forall>d'. ap_term st d' \<noteq> T_Notify"
  proof -
    have T: "ap_terminated st" using inv t(1) unfolding app_inv_def by blast
    then have p: "ap_wait st c \<noteq> W_Sleep" "ap_wait st c \<noteq> W_Block"
      using inv t(2) unfolding app_inv_def by blast+
    have m: "ap_wait st c \<in> {W_Lock, W_Wake} \<Longrightarrow> ap_mutex st \<noteq> Some (Waiter c)"
      using inv by (auto simp: app_defs)
    show ?thesis
      using p m T
      by (cases "ap_wait st c")
         (auto simp: wait_left_def WaitForTerminationRequest_step_def ap_goto_def)
  qed
  ultimately show ?thesis by blast
qed

definition app_example :: "app_event list" where
  "app_example = [Call_Wait 0, Run_Wait 0, Run_Wait 0, Run_Wait 0, Call_Terminate 0, Run_Terminate 0,
     Run_Terminate 0, Run_Terminate 0, Run_Terminate 0]"

lemma App_no_lost_request_witness:
  "\<exists>st st'. app_steps app_example App_Construct = Some st \<and> app_step (Run_Wait 0) st = Some st' \<and>
     wait_left (ap_wait st' 0) < wait_left (ap_wait st 0)"
proof -
  have run: "case app_steps app_example App_Construct of None \<Rightarrow> False
    | Some st \<Rightarrow> ap_term st 0 = T_Return \<and> ap_wait st 0 = W_Wake \<and> ap_mutex st = None"
    by code_simp
  then obtain st where st: "app_steps app_example App_Construct = Some st"
    "ap_term st 0 = T_Return" "ap_wait st 0 = W_Wake" "ap_mutex st = None"
    by (auto split: option.splits)
  have "ap_term st d \<noteq> T_Notify" for d
  proof (cases "d = 0")
    case False
    with st(1) show ?thesis
      by (auto simp: app_example_def App_Construct_def WaitForTerminationRequest_step_def Terminate_step_def
        ap_goto_def ap_tgoto_def ap_notify_all_def)
  qed (use st in simp)
  with st App_no_lost_request [OF st(1), of 0 0] show ?thesis by auto
qed

end
