(* ===== verification/Thread_Loops.thy ===== *)
theory Thread_Loops
  imports Main
begin

text \<open>
  Worker threads that another thread asks to stop: the monitor sample
  (\<open>_multi-threading/monitor\<close>), whose loop reads a flag, and the interruption sample
  (\<open>_multi-threading/interruption\<close>), whose loop reaches an interruption point; and the promise
  sample (\<open>_multi-threading/promise\<close>), where a thread waits for a value for a limited time.
  A step of a thread is what it does between two points where the other can see or change the
  shared state. What both loops have in common is the locale \<open>stoppable\<close>.
\<close>

section \<open>Loops that can be stopped\<close>

text \<open>
  A worker whose remaining work shrinks with each of its steps from the moment it was asked to
  stop: it ends after that many steps.
\<close>

locale stoppable =
  fixes work :: "'s \<Rightarrow> 's option" and asked :: "'s \<Rightarrow> bool" and ended :: "'s \<Rightarrow> bool"
    and left :: "'s \<Rightarrow> nat"
  assumes goes_on: "asked s \<Longrightarrow> \<not> ended s \<Longrightarrow> \<exists>s'. work s = Some s' \<and> asked s' \<and> left s' < left s"
    and over: "ended s \<Longrightarrow> work s = None"
begin

fun works :: "nat \<Rightarrow> 's \<Rightarrow> 's" where
  "works 0 s = s"
| "works (Suc n) s = (case work s of None \<Rightarrow> s | Some s' \<Rightarrow> works n s')"

lemma ends: "asked s \<Longrightarrow> left s \<le> n \<Longrightarrow> ended (works n s)"
proof (induction n arbitrary: s)
  case 0
  then show ?case using goes_on [of s] by auto
next
  case (Suc n)
  then show ?case
    using goes_on [of s] over [of s] by (cases "ended s") (auto split: option.splits)
qed

end

section \<open>The monitor\<close>

datatype monitor_pc = N_None | N_Enter | N_Check | N_Sleep | N_End

datatype monitor_main = A_JoinEmpty | A_Start | A_Loop | A_TryJoin | A_Stop | A_Join | A_Exit | A_Caught

record Monitor =
  mn_running :: bool
  mn_thread :: monitor_pc
  mn_main :: monitor_main

definition Monitor_Construct :: Monitor where
  "Monitor_Construct = \<lparr>mn_running = False, mn_thread = N_None, mn_main = A_JoinEmpty\<rparr>"

definition Monitor_IsRunning :: "Monitor \<Rightarrow> bool" where
  "Monitor_IsRunning st = mn_running st"

definition Monitor_Stop :: "Monitor \<Rightarrow> Monitor" where
  "Monitor_Stop st = st\<lparr>mn_running := False\<rparr>"

definition StartMonitor_step :: "Monitor \<Rightarrow> Monitor option" where
  "StartMonitor_step st = (case mn_thread st of
       N_Enter \<Rightarrow> Some (st\<lparr>mn_running := True, mn_thread := N_Check\<rparr>)
     | N_Check \<Rightarrow> Some (st\<lparr>mn_thread := (if \<not> mn_running st then N_End else N_Sleep)\<rparr>)
     | N_Sleep \<Rightarrow> Some (st\<lparr>mn_thread := N_Check\<rparr>)
     | _ \<Rightarrow> None)"

text \<open>
  \<open>main\<close>. The first \<open>join\<close> is one of a thread object without a thread: \<open>strict\<close> is whether the
  library is built to throw then. \<open>try_join_for\<close> succeeds when the thread has ended, and gives
  up after its second otherwise.
\<close>

definition monitor_main_step :: "bool \<Rightarrow> Monitor \<Rightarrow> Monitor option" where
  "monitor_main_step strict st = (case mn_main st of
       A_JoinEmpty \<Rightarrow> Some (st\<lparr>mn_main := (if strict then A_Caught else A_Start)\<rparr>)
     | A_Start \<Rightarrow> Some (st\<lparr>mn_thread := N_Enter, mn_main := A_Loop\<rparr>)
     | A_Loop \<Rightarrow> Some (st\<lparr>mn_main := (if \<not> Monitor_IsRunning st then A_TryJoin else A_Stop)\<rparr>)
     | A_TryJoin \<Rightarrow> Some (st\<lparr>mn_main := (if mn_thread st = N_End then A_Stop else A_Loop)\<rparr>)
     | A_Stop \<Rightarrow> Some ((Monitor_Stop st)\<lparr>mn_main := A_Join\<rparr>)
     | A_Join \<Rightarrow> if mn_thread st = N_End then Some (st\<lparr>mn_main := A_Exit\<rparr>) else None
     | _ \<Rightarrow> None)"

inductive monitor_reachable :: "bool \<Rightarrow> Monitor \<Rightarrow> bool" for strict where
  start: "monitor_reachable strict Monitor_Construct"
| thread: "monitor_reachable strict st \<Longrightarrow> StartMonitor_step st = Some st' \<Longrightarrow> monitor_reachable strict st'"
| main: "monitor_reachable strict st \<Longrightarrow> monitor_main_step strict st = Some st' \<Longrightarrow> monitor_reachable strict st'"

text \<open>The flag has been set before \<open>main\<close> leaves its loop, so the thread does not set it again.\<close>

definition monitor_inv :: "Monitor \<Rightarrow> bool" where
  "monitor_inv st \<longleftrightarrow>
     (mn_thread st = N_None \<longleftrightarrow> mn_main st \<in> {A_JoinEmpty, A_Start, A_Caught}) \<and>
     (mn_thread st = N_Enter \<longrightarrow> \<not> mn_running st) \<and>
     (mn_main st \<in> {A_Stop, A_Join, A_Exit} \<longrightarrow> mn_thread st \<noteq> N_Enter) \<and>
     (mn_main st \<in> {A_JoinEmpty, A_Start, A_Caught, A_Join, A_Exit} \<longrightarrow> \<not> mn_running st) \<and>
     (mn_main st = A_Exit \<longrightarrow> mn_thread st = N_End)"

lemma monitor_inv_thread:
  "monitor_inv st \<Longrightarrow> StartMonitor_step st = Some st' \<Longrightarrow> monitor_inv st'"
  apply (cases st)
  subgoal for r t m
    by (cases t; simp add: StartMonitor_step_def; hypsubst; cases m; simp add: monitor_inv_def)
  done

lemma monitor_inv_main:
  "monitor_inv st \<Longrightarrow> monitor_main_step strict st = Some st' \<Longrightarrow> monitor_inv st'"
  apply (cases st)
  subgoal for r t m
    by (cases m; simp add: monitor_main_step_def Monitor_IsRunning_def Monitor_Stop_def split: if_split_asm;
        hypsubst; cases t; simp add: monitor_inv_def)
  done

lemma monitor_reachable_inv: "monitor_reachable strict st \<Longrightarrow> monitor_inv st"
proof (induction rule: monitor_reachable.induct)
  case start
  show ?case by (simp add: monitor_inv_def Monitor_Construct_def)
qed (rule monitor_inv_thread monitor_inv_main; assumption)+

definition monitor_asked :: "Monitor \<Rightarrow> bool" where
  "monitor_asked st \<longleftrightarrow> \<not> mn_running st \<and> mn_thread st \<in> {N_Check, N_Sleep, N_End}"

definition monitor_left :: "Monitor \<Rightarrow> nat" where
  "monitor_left st = (case mn_thread st of N_Sleep \<Rightarrow> 2 | N_Check \<Rightarrow> 1 | _ \<Rightarrow> 0)"

interpretation mon: stoppable StartMonitor_step monitor_asked "\<lambda>st. mn_thread st = N_End" monitor_left
proof
  fix st
  assume "monitor_asked st" "mn_thread st \<noteq> N_End"
  then show "\<exists>s'. StartMonitor_step st = Some s' \<and> monitor_asked s' \<and> monitor_left s' < monitor_left st"
    by (cases "mn_thread st") (simp_all add: monitor_asked_def monitor_left_def StartMonitor_step_def)
qed (simp add: StartMonitor_step_def)

text \<open>C36: The request to stop the monitor is never overwritten. In every reachable state of the
  monitor sample with \<open>main\<close> behind its call of \<open>Stop\<close> the flag is false, and the monitor thread
  ends after at most two more steps of its own; \<open>main\<close> leaves only when the thread has ended.\<close>

theorem Monitor_stop_holds:
  assumes "monitor_reachable strict st"
  shows "(mn_main st \<in> {A_Join, A_Exit} \<longrightarrow>
      \<not> mn_running st \<and> mn_thread (mon.works 2 st) = N_End) \<and>
    (mn_main st = A_Exit \<longrightarrow> mn_thread st = N_End)"
proof -
  have inv: "monitor_inv st" using assms by (rule monitor_reachable_inv)
  have m: "mn_thread st \<noteq> N_Enter \<and> mn_thread st \<noteq> N_None \<and> \<not> mn_running st"
    if "mn_main st = A_Join \<or> mn_main st = A_Exit"
    using that inv by (elim disjE; simp add: monitor_inv_def)
  have "mn_thread (mon.works 2 st) = N_End" if "mn_main st = A_Join \<or> mn_main st = A_Exit"
  proof (rule mon.ends)
    show "monitor_asked st"
      using m [OF that] by (cases "mn_thread st"; simp add: monitor_asked_def)
    show "monitor_left st \<le> 2" by (simp add: monitor_left_def split: monitor_pc.split)
  qed
  moreover have "mn_main st = A_Exit \<longrightarrow> mn_thread st = N_End"
    using inv unfolding monitor_inv_def by blast
  ultimately show ?thesis using m by blast
qed

fun monitor_run :: "bool \<Rightarrow> bool list \<Rightarrow> Monitor \<Rightarrow> Monitor option" where
  "monitor_run strict [] st = Some st"
| "monitor_run strict (b # bs) st =
     Option.bind (if b then monitor_main_step strict st else StartMonitor_step st) (monitor_run strict bs)"

lemma monitor_run_reachable:
  "monitor_reachable strict st \<Longrightarrow> monitor_run strict bs st = Some st' \<Longrightarrow> monitor_reachable strict st'"
proof (induction bs arbitrary: st)
  case (Cons b bs)
  then show ?case
    by (cases "if b then monitor_main_step strict st else StartMonitor_step st")
       (auto intro: monitor_reachable.intros split: if_split_asm)
qed simp

lemma Monitor_stop_holds_witness:
  "\<exists>st. monitor_reachable False st \<and> mn_main st = A_Join \<and> mn_thread st = N_Sleep \<and>
     \<not> mn_running st \<and> mn_thread (mon.works 2 st) = N_End"
proof -
  have "case monitor_run False [True, True, False, False, True, True] Monitor_Construct of None \<Rightarrow> False
    | Some st \<Rightarrow> mn_main st = A_Join \<and> mn_thread st = N_Sleep"
    by code_simp
  then obtain st where run: "monitor_run False [True, True, False, False, True, True] Monitor_Construct = Some st"
    and "mn_main st = A_Join" "mn_thread st = N_Sleep"
    by (auto split: option.splits simp del: monitor_run.simps)
  moreover have "monitor_reachable False st"
    using monitor_run_reachable [OF monitor_reachable.start run] .
  ultimately show ?thesis using Monitor_stop_holds [of False st] by auto
qed

section \<open>Interruption\<close>

datatype loop_pc = L_None | L_Point | L_Print | L_End

datatype loop_main = I_Start | I_Interrupt | I_Join | I_Exit

record Loop =
  lp_requested :: bool
  lp_thread :: loop_pc
  lp_main :: loop_main

definition Loop_Construct :: Loop where
  "Loop_Construct = \<lparr>lp_requested = False, lp_thread = L_None, lp_main = I_Start\<rparr>"

text \<open>An interruption point that finds a request throws; the handler behind the loop ends it.\<close>

definition LoopFunc_step :: "Loop \<Rightarrow> Loop option" where
  "LoopFunc_step st = (case lp_thread st of
       L_Point \<Rightarrow> Some (if lp_requested st then st\<lparr>lp_requested := False, lp_thread := L_End\<rparr>
                        else st\<lparr>lp_thread := L_Print\<rparr>)
     | L_Print \<Rightarrow> Some (st\<lparr>lp_thread := L_Point\<rparr>)
     | _ \<Rightarrow> None)"

definition loop_main_step :: "Loop \<Rightarrow> Loop option" where
  "loop_main_step st = (case lp_main st of
       I_Start \<Rightarrow> Some (st\<lparr>lp_thread := L_Point, lp_main := I_Interrupt\<rparr>)
     | I_Interrupt \<Rightarrow> Some (st\<lparr>lp_requested := True, lp_main := I_Join\<rparr>)
     | I_Join \<Rightarrow> if lp_thread st = L_End then Some (st\<lparr>lp_main := I_Exit\<rparr>) else None
     | I_Exit \<Rightarrow> None)"

inductive loop_reachable :: "Loop \<Rightarrow> bool" where
  start: "loop_reachable Loop_Construct"
| thread: "loop_reachable st \<Longrightarrow> LoopFunc_step st = Some st' \<Longrightarrow> loop_reachable st'"
| main: "loop_reachable st \<Longrightarrow> loop_main_step st = Some st' \<Longrightarrow> loop_reachable st'"

definition loop_asked :: "Loop \<Rightarrow> bool" where
  "loop_asked st \<longleftrightarrow> lp_thread st = L_End \<or> lp_requested st \<and> lp_thread st \<noteq> L_None"

definition loop_left :: "Loop \<Rightarrow> nat" where
  "loop_left st = (case lp_thread st of L_Print \<Rightarrow> 2 | L_Point \<Rightarrow> 1 | _ \<Rightarrow> 0)"

interpretation lf: stoppable LoopFunc_step loop_asked "\<lambda>st. lp_thread st = L_End" loop_left
proof
  fix st
  assume "loop_asked st" "lp_thread st \<noteq> L_End"
  then show "\<exists>s'. LoopFunc_step st = Some s' \<and> loop_asked s' \<and> loop_left s' < loop_left st"
    by (cases "lp_thread st") (auto simp: loop_asked_def loop_left_def LoopFunc_step_def)
qed (simp add: LoopFunc_step_def)

lemma loop_reachable_asked:
  "loop_reachable st \<Longrightarrow>
     (lp_main st = I_Start \<longleftrightarrow> lp_thread st = L_None) \<and>
     (lp_main st \<in> {I_Join, I_Exit} \<longrightarrow> loop_asked st) \<and>
     (lp_main st \<in> {I_Start, I_Interrupt} \<longrightarrow> \<not> lp_requested st \<and> lp_thread st \<noteq> L_End) \<and>
     (lp_main st = I_Exit \<longrightarrow> lp_thread st = L_End)"
proof (induction rule: loop_reachable.induct)
  case (thread st st')
  then show ?case
    by (cases "lp_thread st") (auto simp: LoopFunc_step_def loop_asked_def split: if_split_asm)
next
  case (main st st')
  then show ?case
    by (cases "lp_main st") (auto simp: loop_main_step_def loop_asked_def split: if_split_asm)
qed (simp add: Loop_Construct_def loop_asked_def)

text \<open>The interrupted loop ends after at most two more steps, wherever the request finds it.\<close>

lemma Loop_interrupted_ends:
  "loop_reachable st \<Longrightarrow> lp_main st = I_Join \<Longrightarrow> lp_thread (lf.works 2 st) = L_End"
  using loop_reachable_asked [of st] lf.ends [of st 2] by (simp add: loop_left_def split: loop_pc.split)

section \<open>A value promised to a thread\<close>

text \<open>
  The promise and its status, where the two threads are, and what was printed. Time is counted
  in seconds; a thread may run later than the time it waits for.
\<close>

datatype Obj_Status = Obj_Stopped | Obj_NotRunning

datatype func_pc = Fn_None | Fn_Start | Fn_Wait nat | Fn_Ready | Fn_Timeout | Fn_End

datatype promise_main = Pm_Async | Pm_Sleep nat | Pm_Set | Pm_App

datatype promise_out = O_Ready | O_Stopped | O_NotRunning | O_Timeout

record Promise =
  pr_clock :: nat
  pr_value :: "Obj_Status option"
  pr_status :: "Obj_Status option"
  pr_func :: func_pc
  pr_main :: promise_main
  pr_out :: "promise_out list"

definition Promise_start :: Promise where
  "Promise_start = \<lparr>pr_clock = 0, pr_value = None, pr_status = None, pr_func = Fn_None,
     pr_main = Pm_Async, pr_out = []\<rparr>"

definition Func_step :: "Promise \<Rightarrow> Promise option" where
  "Func_step st = (case pr_func st of
       Fn_Start \<Rightarrow> Some (st\<lparr>pr_func := Fn_Wait (pr_clock st + 10)\<rparr>)
     | Fn_Wait d \<Rightarrow>
         if pr_value st \<noteq> None then Some (st\<lparr>pr_func := Fn_Ready\<rparr>)
         else if d \<le> pr_clock st then Some (st\<lparr>pr_func := Fn_Timeout\<rparr>) else None
     | Fn_Ready \<Rightarrow> Some (st\<lparr>pr_func := Fn_End, pr_status := pr_value st, pr_out := pr_out st @ [O_Ready] @
         (case pr_value st of Some Obj_Stopped \<Rightarrow> [O_Stopped] | Some Obj_NotRunning \<Rightarrow> [O_NotRunning] | None \<Rightarrow> [])\<rparr>)
     | Fn_Timeout \<Rightarrow> Some (st\<lparr>pr_func := Fn_End, pr_out := pr_out st @ [O_Timeout]\<rparr>)
     | _ \<Rightarrow> None)"

definition promise_main_step :: "Promise \<Rightarrow> Promise option" where
  "promise_main_step st = (case pr_main st of
       Pm_Async \<Rightarrow> Some (st\<lparr>pr_func := Fn_Start, pr_main := Pm_Sleep (pr_clock st + 2)\<rparr>)
     | Pm_Sleep u \<Rightarrow> if u \<le> pr_clock st then Some (st\<lparr>pr_main := Pm_Set\<rparr>) else None
     | Pm_Set \<Rightarrow> Some (st\<lparr>pr_value := Some Obj_Stopped, pr_main := Pm_App\<rparr>)
     | Pm_App \<Rightarrow> None)"

inductive promise_reachable :: "Promise \<Rightarrow> bool" where
  start: "promise_reachable Promise_start"
| func: "promise_reachable st \<Longrightarrow> Func_step st = Some st' \<Longrightarrow> promise_reachable st'"
| main: "promise_reachable st \<Longrightarrow> promise_main_step st = Some st' \<Longrightarrow> promise_reachable st'"
| tick: "promise_reachable st \<Longrightarrow> promise_reachable (st\<lparr>pr_clock := Suc (pr_clock st)\<rparr>)"

text \<open>The thread reports the value that \<open>main\<close> has set, or that it waited ten seconds in vain.\<close>

definition promise_inv :: "Promise \<Rightarrow> bool" where
  "promise_inv st \<longleftrightarrow>
     (pr_func st = Fn_None) = (pr_main st = Pm_Async) \<and>
     pr_value st = (if pr_main st = Pm_App then Some Obj_Stopped else None) \<and>
     (pr_func st = Fn_Ready \<longrightarrow> pr_main st = Pm_App) \<and>
     (pr_func st = Fn_Timeout \<longrightarrow> 10 \<le> pr_clock st) \<and>
     (\<forall>d. pr_func st = Fn_Wait d \<longrightarrow> 10 \<le> d) \<and>
     (if pr_func st = Fn_End
      then pr_out st = [O_Ready, O_Stopped] \<and> pr_status st = Some Obj_Stopped \<or>
           pr_out st = [O_Timeout] \<and> pr_status st = None \<and> 10 \<le> pr_clock st
      else pr_out st = [] \<and> pr_status st = None)"

lemma promise_inv_func: "promise_inv st \<Longrightarrow> Func_step st = Some st' \<Longrightarrow> promise_inv st'"
  apply (cases st)
  subgoal for c v s f m out
    by (cases f; simp add: Func_step_def split: if_split_asm; hypsubst;
        cases m; simp add: promise_inv_def)
  done

lemma promise_inv_main: "promise_inv st \<Longrightarrow> promise_main_step st = Some st' \<Longrightarrow> promise_inv st'"
  apply (cases st)
  subgoal for c v s f m out
    by (cases m; simp add: promise_main_step_def split: if_split_asm; hypsubst;
        cases f; simp add: promise_inv_def)
  done

lemma promise_inv_tick: "promise_inv st \<Longrightarrow> promise_inv (st\<lparr>pr_clock := Suc (pr_clock st)\<rparr>)"
  unfolding promise_inv_def by (auto split: if_splits)

lemma Promise_reports: "promise_reachable st \<Longrightarrow> promise_inv st"
proof (induction rule: promise_reachable.induct)
  case start
  show ?case by (simp add: promise_inv_def Promise_start_def)
qed (rule promise_inv_func promise_inv_main promise_inv_tick; assumption)+

end
