(* ===== verification/Ipc_Client.thy ===== *)
theory Ipc_Client
  imports Asio
begin

text \<open>
  The message queue client of \<open>_interprocess/ipc_client\<close> (\<open>Core.h\<close>, \<open>Core.cpp\<close>, \<open>IPCClient.h\<close>,
  \<open>IPCClient.cpp\<close>): processes that create, open, write to and read from one named queue in
  shared memory. The world holds the queues, the one the name stands for, and the clients; a
  client has one worker thread, which runs its posted handlers and the handlers of its timer.

  The first section is what the code uses of \<open>boost::interprocess::message_queue\<close>: a queue keeps
  the number and the size of messages it was made with, a send to a full queue and a receive
  from an empty one fail without waiting, and too long a message or too short a buffer throws.
  All messages are sent with the priority 1, so they are received in order. Each queue records
  what was sent to it and which client took it.
\<close>

section \<open>Message queues\<close>

record Mq =
  mq_num :: nat
  mq_size :: nat
  mq_content :: "string list"
  mq_sent :: "string list"
  mq_taken :: "(nat \<times> string) list"

definition mq_new :: "nat \<Rightarrow> nat \<Rightarrow> Mq" where
  "mq_new n s = \<lparr>mq_num = n, mq_size = s, mq_content = [], mq_sent = [], mq_taken = []\<rparr>"

definition mq_try_send :: "string \<Rightarrow> Mq \<Rightarrow> exn + Mq" where
  "mq_try_send d q =
     (if mq_size q < length d then Inl lib_error
      else if mq_num q \<le> length (mq_content q) then Inr q
      else Inr (q\<lparr>mq_content := mq_content q @ [d], mq_sent := mq_sent q @ [d]\<rparr>))"

definition mq_try_receive :: "nat \<Rightarrow> nat \<Rightarrow> Mq \<Rightarrow> exn + Mq \<times> string option" where
  "mq_try_receive p buffer q =
     (if buffer < mq_size q then Inl lib_error
      else (case mq_content q of
         [] \<Rightarrow> Inr (q, None)
       | d # ds \<Rightarrow> Inr (q\<lparr>mq_content := ds, mq_taken := mq_taken q @ [(p, d)]\<rparr>, Some d)))"

section \<open>The client\<close>

definition MSG_NUM :: nat where "MSG_NUM = 100"
definition MSG_SIZE :: nat where "MSG_SIZE = 1024"

text \<open>
  The worker is idle or in the loop of \<open>DoReceive\<close>. \<open>ic_got\<close> is what the receive signal was
  raised with: the queue, the data and the number of slots connected at that moment.
\<close>

datatype ipc_worker = K_Idle | K_Receive

datatype ipc_life = Alive | Stopping | Gone

record Ipc =
  ic_running :: bool
  ic_life :: ipc_life
  ic_mq :: "nat option"
  ic_slots :: nat
  ic_timer :: "unit timer"
  ic_posted :: nat
  ic_worker :: ipc_worker
  ic_got :: "(nat \<times> string \<times> nat) list"
  ic_errors :: "exn list"

record World =
  w_clock :: nat
  w_queue :: "nat \<Rightarrow> Mq"
  w_fresh :: nat
  w_name :: "nat option"
  w_proc :: "nat \<Rightarrow> Ipc"

definition ipc_upd :: "nat \<Rightarrow> (Ipc \<Rightarrow> Ipc) \<Rightarrow> World \<Rightarrow> World" where
  "ipc_upd p f w = w\<lparr>w_proc := (w_proc w)(p := f (w_proc w p))\<rparr>"

definition ipc_error :: "nat \<Rightarrow> exn \<Rightarrow> World \<Rightarrow> World" where
  "ipc_error p e = ipc_upd p (\<lambda>c. c\<lparr>ic_errors := ic_errors c @ [e]\<rparr>)"

definition ipc_queue :: "nat \<Rightarrow> Mq \<Rightarrow> World \<Rightarrow> World" where
  "ipc_queue q m w = w\<lparr>w_queue := (w_queue w)(q := m)\<rparr>"

text \<open>\<open>Core::Core\<close> and \<open>Core::Run\<close> with its one worker.\<close>

definition IpcCore_Construct :: Ipc where
  "IpcCore_Construct = \<lparr>ic_running = False, ic_life = Alive, ic_mq = None, ic_slots = 0,
     ic_timer = timer_new, ic_posted = 0, ic_worker = K_Idle, ic_got = [], ic_errors = []\<rparr>"

definition IpcCore_Run :: "Ipc \<Rightarrow> Ipc" where
  "IpcCore_Run c = (if \<not> ic_running c then c\<lparr>ic_running := True\<rparr> else c)"

definition IpcCore_IsRunning :: "Ipc \<Rightarrow> bool" where
  "IpcCore_IsRunning c = ic_running c"

text \<open>
  \<open>Core::Stop\<close> up to the joins: the service is stopped, so no handler runs any more that has not
  started.
\<close>

definition IpcCore_Stop :: "Ipc \<Rightarrow> Ipc" where
  "IpcCore_Stop c = (if ic_running c
     then c\<lparr>ic_running := False, ic_posted := 0, ic_timer := (ic_timer c)\<lparr>waits := []\<rparr>\<rparr> else c)"

definition IPCClient_Construct :: Ipc where
  "IPCClient_Construct = (let c = IpcCore_Run IpcCore_Construct in
     c\<lparr>ic_timer := timer_wait () (timer_set pos_infin (ic_timer c))\<rparr>)"

definition IPCClient_Create :: "nat \<Rightarrow> World \<Rightarrow> World" where
  "IPCClient_Create p w = (case w_name w of
       Some q \<Rightarrow> ipc_upd p (\<lambda>c. c\<lparr>ic_mq := Some q\<rparr>) w
     | None \<Rightarrow> ipc_upd p (\<lambda>c. c\<lparr>ic_mq := Some (w_fresh w)\<rparr>)
         ((ipc_queue (w_fresh w) (mq_new MSG_NUM MSG_SIZE) w)
            \<lparr>w_name := Some (w_fresh w), w_fresh := Suc (w_fresh w)\<rparr>))"

definition IPCClient_DoOnReceive :: "nat \<Rightarrow> World \<Rightarrow> World" where
  "IPCClient_DoOnReceive p = ipc_upd p (\<lambda>c. c\<lparr>ic_slots := Suc (ic_slots c)\<rparr>)"

definition IPCClient_Open :: "nat \<Rightarrow> World \<Rightarrow> World" where
  "IPCClient_Open p w =
     (if IpcCore_IsRunning (w_proc w p)
      then (case w_name w of
          Some q \<Rightarrow> ipc_upd p (\<lambda>c. c\<lparr>ic_mq := Some q, ic_posted := Suc (ic_posted c)\<rparr>) w
        | None \<Rightarrow> ipc_upd p (\<lambda>c. c\<lparr>ic_timer := timer_wait () (timer_set (At (w_clock w + 2)) (ic_timer c))\<rparr>)
            (ipc_error p lib_error w))
      else w)"

text \<open>One pass of the loop in \<open>DoReceive\<close>; leaving the loop makes the worker idle.\<close>

definition IPCClient_DoReceive :: "nat \<Rightarrow> World \<Rightarrow> World" where
  "IPCClient_DoReceive p w = (let c = w_proc w p in
     if \<not> IpcCore_IsRunning c then ipc_upd p (\<lambda>c. c\<lparr>ic_worker := K_Idle\<rparr>) w
     else (case ic_mq c of
         None \<Rightarrow> w
       | Some q \<Rightarrow> (case mq_try_receive p MSG_SIZE (w_queue w q) of
            Inl e \<Rightarrow> IPCClient_Open p (ipc_error p e (ipc_upd p (\<lambda>c. c\<lparr>ic_worker := K_Idle\<rparr>) w))
          | Inr (m, None) \<Rightarrow> w
          | Inr (m, Some d) \<Rightarrow>
              ipc_upd p (\<lambda>c. c\<lparr>ic_got := ic_got c @ [(q, d, ic_slots c)]\<rparr>) (ipc_queue q m w))))"

definition IPCClient_HandleTimeout :: "error_code \<Rightarrow> nat \<Rightarrow> World \<Rightarrow> World" where
  "IPCClient_HandleTimeout ec p w =
     (if failed ec \<and> ec \<noteq> operation_aborted then ipc_error p lib_error w
      else if reached (w_clock w) (expires_at (ic_timer (w_proc w p))) then IPCClient_Open p w
      else w)"

definition IPCClient_Send :: "string \<Rightarrow> nat \<Rightarrow> World \<Rightarrow> World" where
  "IPCClient_Send d p w = (case ic_mq (w_proc w p) of
       None \<Rightarrow> ipc_error p (runtime_error ''Invalid comunication pointer'') w
     | Some q \<Rightarrow> (case mq_try_send d (w_queue w q) of
          Inl e \<Rightarrow> ipc_error p e w
        | Inr m \<Rightarrow> ipc_queue q m w))"

text \<open>The destructor up to the joins: the name is removed, the queues that are open stay.\<close>

definition IPCClient_Destruct :: "nat \<Rightarrow> World \<Rightarrow> World" where
  "IPCClient_Destruct p w =
     ipc_upd p (\<lambda>c. (IpcCore_Stop (c\<lparr>ic_timer := timer_cancel (ic_timer c)\<rparr>))\<lparr>ic_life := Stopping\<rparr>)
       (w\<lparr>w_name := None\<rparr>)"

section \<open>The processes together\<close>

text \<open>
  The calls of the owner of a client, a step of its worker - which starts a posted handler, goes
  on with the loop or runs the \<open>i\<close>-th wait of the timer that is ready - the end of a destructor,
  and the clock. A step that is not possible is \<open>None\<close>.
\<close>

datatype ipc_event =
    E_Create nat
  | E_Open nat
  | E_Connect nat
  | E_Send nat string
  | E_Post nat
  | E_Loop nat
  | E_Timer nat nat
  | E_Destruct nat
  | E_Joined nat
  | E_Tick

fun ipc_step :: "ipc_event \<Rightarrow> World \<Rightarrow> World option" where
  "ipc_step (E_Create p) w = (if ic_life (w_proc w p) = Alive then Some (IPCClient_Create p w) else None)"
| "ipc_step (E_Open p) w = (if ic_life (w_proc w p) = Alive then Some (IPCClient_Open p w) else None)"
| "ipc_step (E_Connect p) w = (if ic_life (w_proc w p) = Alive then Some (IPCClient_DoOnReceive p w) else None)"
| "ipc_step (E_Send p d) w = (if ic_life (w_proc w p) = Alive then Some (IPCClient_Send d p w) else None)"
| "ipc_step (E_Post p) w =
     (if ic_worker (w_proc w p) = K_Idle \<and> 0 < ic_posted (w_proc w p)
      then Some (ipc_upd p (\<lambda>c. c\<lparr>ic_posted := ic_posted c - 1, ic_worker := K_Receive\<rparr>) w) else None)"
| "ipc_step (E_Loop p) w =
     (if ic_worker (w_proc w p) = K_Receive then Some (IPCClient_DoReceive p w) else None)"
| "ipc_step (E_Timer p i) w =
     (if ic_worker (w_proc w p) = K_Idle \<and> timer_ready (w_clock w) i (ic_timer (w_proc w p))
      then (case timer_take i (ic_timer (w_proc w p)) of
          (_, ec, t) \<Rightarrow> Some (IPCClient_HandleTimeout ec p (ipc_upd p (\<lambda>c. c\<lparr>ic_timer := t\<rparr>) w)))
      else None)"
| "ipc_step (E_Destruct p) w = (if ic_life (w_proc w p) = Alive then Some (IPCClient_Destruct p w) else None)"
| "ipc_step (E_Joined p) w =
     (if ic_life (w_proc w p) = Stopping \<and> ic_worker (w_proc w p) = K_Idle
      then Some (ipc_upd p (\<lambda>c. c\<lparr>ic_life := Gone\<rparr>) w) else None)"
| "ipc_step E_Tick w = Some (w\<lparr>w_clock := Suc (w_clock w)\<rparr>)"

fun ipc_steps :: "ipc_event list \<Rightarrow> World \<Rightarrow> World option" where
  "ipc_steps [] w = Some w"
| "ipc_steps (e # es) w = Option.bind (ipc_step e w) (ipc_steps es)"

text \<open>
  The start: clients just constructed, and possibly a queue that another program left under the
  name, of any dimensions, empty.
\<close>

definition ipc_start :: "(nat \<times> nat) option \<Rightarrow> World" where
  "ipc_start left =
     \<lparr>w_clock = 0, w_queue = (\<lambda>_. case left of None \<Rightarrow> mq_new 0 0 | Some (n, s) \<Rightarrow> mq_new n s),
      w_fresh = (case left of None \<Rightarrow> 0 | Some _ \<Rightarrow> 1), w_name = map_option (\<lambda>_. 0) left,
      w_proc = (\<lambda>_. IPCClient_Construct)\<rparr>"

section \<open>First in, first out\<close>
























section \<open>What is lost\<close>

lemma ipc_sends:
  assumes "ic_life (w_proc w p) = Alive" and "ic_mq (w_proc w p) = Some q"
    and "\<forall>d \<in> set ds. length d \<le> mq_size (w_queue w q)"
    and "length (mq_content (w_queue w q)) \<le> mq_num (w_queue w q)"
  shows "\<exists>w'. ipc_steps (map (E_Send p) ds) w = Some w' \<and> w_proc w' = w_proc w \<and>
    mq_content (w_queue w' q) = take (mq_num (w_queue w q)) (mq_content (w_queue w q) @ ds)"
  using assms
proof (induction ds arbitrary: w)
  case Nil
  then show ?case by simp
next
  case (Cons d ds)
  let ?m = "w_queue w q"
  have d: "\<not> mq_size ?m < length d" using Cons.prems(3) by (simp add: not_less)
  show ?case
  proof (cases "mq_num ?m \<le> length (mq_content ?m)")
    case True
    then have "mq_try_send d ?m = Inr ?m" using d by (simp add: mq_try_send_def)
    then have "ipc_step (E_Send p d) w = Some w"
      using Cons.prems by (simp add: IPCClient_Send_def ipc_queue_def)
    moreover from Cons.IH [OF Cons.prems(1,2) _ Cons.prems(4)] Cons.prems(3) obtain w' where
      "ipc_steps (map (E_Send p) ds) w = Some w'" "w_proc w' = w_proc w"
      "mq_content (w_queue w' q) = take (mq_num ?m) (mq_content ?m @ ds)"
      by auto
    ultimately show ?thesis using True by simp
  next
    case False
    let ?m' = "?m\<lparr>mq_content := mq_content ?m @ [d], mq_sent := mq_sent ?m @ [d]\<rparr>"
    let ?w = "ipc_queue q ?m' w"
    have "ipc_step (E_Send p d) w = Some ?w"
      using Cons.prems d False by (simp add: IPCClient_Send_def mq_try_send_def)
    moreover have w: "w_proc ?w = w_proc w" "w_queue ?w q = ?m'" by (simp_all add: ipc_queue_def)
    moreover have "\<exists>w'. ipc_steps (map (E_Send p) ds) ?w = Some w' \<and> w_proc w' = w_proc ?w \<and>
        mq_content (w_queue w' q) = take (mq_num (w_queue ?w q)) (mq_content (w_queue ?w q) @ ds)"
      by (rule Cons.IH) (use Cons.prems False w in auto)
    ultimately show ?thesis by auto
  qed
qed

text \<open>A client that sends faster than the queue is read loses messages without notice: after
  creating the queue the first hundred messages are in it, in order, and every further one is
  dropped; no error is reported for any of them.\<close>

theorem Ipc_overflow_is_silent:
  assumes "\<forall>d \<in> set ds. length d \<le> 1024"
  shows "\<exists>w. ipc_steps (E_Create p # map (E_Send p) ds) (ipc_start None) = Some w \<and>
    mq_content (w_queue w 0) = take 100 ds \<and> ic_errors (w_proc w p) = []"
proof -
  define w where "w = IPCClient_Create p (ipc_start None)"
  have "ipc_step (E_Create p) (ipc_start None) = Some w"
    by (simp add: w_def ipc_start_def IPCClient_Construct_def IpcCore_Run_def IpcCore_Construct_def Let_def)
  moreover have w: "ic_life (w_proc w p) = Alive" "ic_mq (w_proc w p) = Some 0"
    "w_queue w 0 = mq_new MSG_NUM MSG_SIZE" "ic_errors (w_proc w p) = []"
    by (simp_all add: w_def IPCClient_Create_def ipc_start_def ipc_upd_def ipc_queue_def IPCClient_Construct_def
      IpcCore_Run_def IpcCore_Construct_def Let_def)
  moreover obtain w' where "ipc_steps (map (E_Send p) ds) w = Some w'" "w_proc w' = w_proc w"
    "mq_content (w_queue w' 0) = take (mq_num (w_queue w 0)) (mq_content (w_queue w 0) @ ds)"
    using ipc_sends [of w p 0 ds] w assms by (auto simp: mq_new_def MSG_SIZE_def)
  ultimately show ?thesis by (simp add: mq_new_def MSG_NUM_def)
qed

lemma Ipc_overflow_is_silent_witness:
  "\<exists>w. ipc_steps (E_Create 0 # map (E_Send 0) (replicate 101 ''x'')) (ipc_start None) = Some w \<and>
     mq_content (w_queue w 0) = replicate 100 ''x'' \<and> ic_errors (w_proc w 0) = []"
  using Ipc_overflow_is_silent [of "replicate 101 ''x''" 0] by simp

text \<open>What arrives before the program has connected its slot is lost. \<open>main\<close> opens the queue
  first, which posts the receive loop, and connects its slot after that: when the loop runs in
  between, it takes the message that waits in the queue and raises a signal with no slot.\<close>

theorem Ipc_open_before_connect_loses:
  assumes "length d \<le> 1024"
  shows "\<exists>w. ipc_steps [E_Create 0, E_Send 0 d, E_Open 1, E_Post 1, E_Loop 1, E_Connect 1] (ipc_start None) = Some w \<and>
    mq_sent (w_queue w 0) = [d] \<and> mq_content (w_queue w 0) = [] \<and>
    ic_got (w_proc w 1) = [(0, d, 0)] \<and> ic_slots (w_proc w 1) = 1 \<and> ic_errors (w_proc w 1) = []"
  using assms
  by (simp add: ipc_start_def IPCClient_Construct_def IpcCore_Run_def IpcCore_Construct_def Let_def
    IPCClient_Create_def IPCClient_Send_def IPCClient_Open_def IPCClient_DoReceive_def IPCClient_DoOnReceive_def
    IpcCore_IsRunning_def ipc_upd_def ipc_queue_def mq_new_def mq_try_send_def mq_try_receive_def
    MSG_NUM_def MSG_SIZE_def)

lemma Ipc_open_before_connect_loses_witness:
  "\<exists>w. ipc_steps [E_Create 0, E_Send 0 ''Hello'', E_Open 1, E_Post 1, E_Loop 1, E_Connect 1] (ipc_start None) = Some w \<and>
    ic_got (w_proc w 1) = [(0, ''Hello'', 0)]"
proof -
  have "length ''Hello'' \<le> 1024" by simp
  from Ipc_open_before_connect_loses [OF this] show ?thesis by blast
qed

end
