(* ===== verification/Hex_Text.thy ===== *)
theory Hex_Text
  imports Prelude
begin

text \<open>
  Numbers in hexadecimal, as \<open>printf\<close>, \<open>boost::format\<close> and the stream manipulators write them,
  and the bytes of a word in memory. Shared by the samples that format a digest or a hardware
  address.
\<close>

section \<open>Hexadecimal digits\<close>

definition hex_digit :: "nat \<Rightarrow> char" where
  "hex_digit n = char_of (if n < 10 then 48 + n else 87 + n)"

definition hex_digit_upper :: "nat \<Rightarrow> char" where
  "hex_digit_upper n = char_of (if n < 10 then 48 + n else 55 + n)"

text \<open>The digits of a number without leading zeros, and padded to a field of \<open>w\<close> characters.\<close>

fun hex_digits :: "(nat \<Rightarrow> char) \<Rightarrow> nat \<Rightarrow> string" where
  "hex_digits f n = (if n < 16 then [f n] else hex_digits f (n div 16) @ [f (n mod 16)])"

declare hex_digits.simps [simp del]

definition hex_padded :: "(nat \<Rightarrow> char) \<Rightarrow> nat \<Rightarrow> nat \<Rightarrow> string" where
  "hex_padded f w n = (let s = hex_digits f n in replicate (w - length s) (f 0) @ s)"

text \<open>The last \<open>w\<close> digits, leading zeros included.\<close>

fun hex_fixed :: "(nat \<Rightarrow> char) \<Rightarrow> nat \<Rightarrow> nat \<Rightarrow> string" where
  "hex_fixed f 0 n = []"
| "hex_fixed f (Suc w) n = hex_fixed f w (n div 16) @ [f (n mod 16)]"

lemma length_hex_fixed [simp]: "length (hex_fixed f w n) = w"
  by (induction w arbitrary: n) simp_all

lemma hex_fixed_zero: "hex_fixed f w 0 = replicate w (f 0)"
  by (induction w) (simp_all add: replicate_append_same)

lemma hex_padded_fixed: "0 < w \<Longrightarrow> n < 16 ^ w \<Longrightarrow> hex_padded f w n = hex_fixed f w n"
proof (induction w arbitrary: n)
  case (Suc w)
  show ?case
  proof (cases "n < 16")
    case True
    then show ?thesis
      by (simp add: hex_padded_def hex_digits.simps [of f n] hex_fixed_zero)
  next
    case False
    then have "0 < w" using Suc.prems(2) by (cases w) simp_all
    moreover have "n div 16 < 16 ^ w" using Suc.prems(2) by (simp add: div_less_iff_less_mult mult.commute)
    ultimately have "hex_padded f w (n div 16) = hex_fixed f w (n div 16)" by (rule Suc.IH)
    with False show ?thesis
      by (simp add: hex_padded_def hex_digits.simps [of f n] Let_def)
  qed
qed simp

lemma hex_fixed_append:
  "hex_fixed f (v + w) n = hex_fixed f v (n div 16 ^ w) @ hex_fixed f w n"
proof (induction w arbitrary: n)
  case (Suc w)
  have "n div 16 div 16 ^ w = n div 16 ^ Suc w" by (simp add: div_mult2_eq)
  with Suc show ?case by simp
qed simp

lemma hex_fixed_mod: "hex_fixed f w (n mod 16 ^ w) = hex_fixed f w n"
proof (induction w arbitrary: n)
  case (Suc w)
  have "n mod 16 ^ Suc w div 16 = n div 16 mod 16 ^ w"
    by (simp add: mod_mult2_eq div_mult2_eq)
  moreover have "n mod 16 ^ Suc w mod 16 = n mod 16" by (simp add: mod_mod_cancel)
  ultimately show ?case using Suc.IH [of "n div 16"] by simp
qed simp

section \<open>Words in memory\<close>

text \<open>The four bytes of a word, most significant first, and two digits for each.\<close>

definition word_bytes :: "u32 \<Rightarrow> byte list" where
  "word_bytes x = map (\<lambda>i. ucast (drop_bit i x)) [24, 16, 8, 0]"

definition hex_bytes :: "(nat \<Rightarrow> char) \<Rightarrow> byte list \<Rightarrow> string" where
  "hex_bytes f bs = concat (map (\<lambda>b. hex_fixed f 2 (unat b)) bs)"

lemma hex_bytes_simps [simp]:
  "hex_bytes f [] = []"
  "hex_bytes f (b # bs) = hex_fixed f 2 (unat b) @ hex_bytes f bs"
  "hex_bytes f (bs @ cs) = hex_bytes f bs @ hex_bytes f cs"
  by (simp_all add: hex_bytes_def)

lemma length_word_bytes [simp]: "length (word_bytes x) = 4"
  by (simp add: word_bytes_def)

lemma unat_drop_byte: "unat (ucast (drop_bit i (x :: u32)) :: byte) = unat x div 2 ^ i mod 16 ^ 2"
  unfolding unsigned_ucast_eq unat_drop_bit_eq by (simp add: drop_bit_eq_div take_bit_eq_mod)

text \<open>The eight digits of a word are those of its bytes.\<close>

lemma hex_word: "hex_padded f 8 (unat (x :: u32)) = hex_bytes f (word_bytes x)"
proof -
  have "unat x < 16 ^ 8" using unsigned_less [of x] by simp
  then have "hex_padded f 8 (unat x) = hex_fixed f (2 + (2 + (2 + 2))) (unat x)"
    using hex_padded_fixed [of 8] by simp
  also have "\<dots> = hex_fixed f 2 (unat x div 2 ^ 24) @ hex_fixed f 2 (unat x div 2 ^ 16) @
      hex_fixed f 2 (unat x div 2 ^ 8) @ hex_fixed f 2 (unat x div 2 ^ 0)"
    unfolding hex_fixed_append by simp
  also have "\<dots> = hex_bytes f (word_bytes x)"
    unfolding word_bytes_def list.map hex_bytes_simps append_Nil2 unat_drop_byte hex_fixed_mod ..
  finally show ?thesis .
qed

end
