(* ===== verification/Uuid_Digest.thy ===== *)
theory Uuid_Digest
  imports Hex_Text
begin

text \<open>
  Identifiers made from a SHA-1 digest: the three generators of \<open>_uuid/uuid_sha1\<close> and the agent
  identifier of \<open>agent_uuid\<close>, made from the serial of the first fixed drive, the machine guid and
  the first Ethernet address. The digest (\<open>boost::uuids::detail::sha1\<close>), the parser and the name
  generator of \<open>boost::uuids\<close>, the encoding conversion and the calls of the system are parameters.
  A uuid is the list of its 16 bytes.
\<close>

section \<open>The generators of the sample\<close>

type_synonym uuid_bytes = "byte list"

definition format_digest :: "u32 list \<Rightarrow> string" where
  "format_digest ds = concat (map (\<lambda>d. hex_padded hex_digit 8 (unat d)) ds)"

text \<open>\<open>csha1\<close> is the text of \<open>boost::compute\<close>'s digest.\<close>

definition GenerateSha1 :: "(string \<Rightarrow> string) \<Rightarrow> (string \<Rightarrow> u32 list) \<Rightarrow> string \<Rightarrow> string \<times> string" where
  "GenerateSha1 csha1 sha1 input = (csha1 input, format_digest (take 5 (sha1 input)))"

definition GenerateUuid1 ::
  "(string \<Rightarrow> exn + uuid_bytes) \<Rightarrow> (string \<Rightarrow> u32 list) \<Rightarrow> string \<Rightarrow> exn + uuid_bytes" where
  "GenerateUuid1 gen sha1 input = gen (format_digest (take 4 (sha1 input)))"

definition GenerateUuid2 ::
  "(string \<Rightarrow> exn + uuid_bytes) \<Rightarrow> (uuid_bytes \<Rightarrow> string \<Rightarrow> uuid_bytes) \<Rightarrow> string \<Rightarrow> exn + uuid_bytes" where
  "GenerateUuid2 gen name_gen input = (case gen ''bd89d3ca-8776-11e8-9a94-a6cf71072f73'' of
       Inl e \<Rightarrow> Inl e
     | Inr rootns \<Rightarrow> Inr (name_gen rootns input))"

text \<open>
  The loop of \<open>GenerateUuid3\<close>: the \<open>i\<close>-th word, its bytes most significant first, is copied to
  \<open>p\<close>. The uuid starts with whatever is in its memory.
\<close>

definition memcpy :: "nat \<Rightarrow> 'a list \<Rightarrow> 'a list \<Rightarrow> 'a list" where
  "memcpy p src dst = take p dst @ src @ drop (p + length src) dst"

fun Uuid3_loop :: "u32 list \<Rightarrow> nat \<Rightarrow> nat \<Rightarrow> nat \<Rightarrow> uuid_bytes \<Rightarrow> uuid_bytes" where
  "Uuid3_loop digest 0 i p ret = ret"
| "Uuid3_loop digest (Suc n) i p ret =
     Uuid3_loop digest n (Suc i) (p + 4) (memcpy p (word_bytes (digest ! i)) ret)"

definition GenerateUuid3 :: "(string \<Rightarrow> u32 list) \<Rightarrow> uuid_bytes \<Rightarrow> string \<Rightarrow> uuid_bytes" where
  "GenerateUuid3 sha1 garbage input = Uuid3_loop (sha1 input) 4 0 0 garbage"

lemma format_digest_bytes:
  "format_digest ds = hex_bytes hex_digit (concat (map word_bytes ds))"
  by (induction ds) (simp_all add: format_digest_def hex_word)

lemma GenerateUuid3_bytes:
  assumes "length (sha1 input) = 5" and "length garbage = 16"
  shows "GenerateUuid3 sha1 garbage input = concat (map word_bytes (take 4 (sha1 input)))"
proof -
  obtain a b c d e where s: "sha1 input = [a, b, c, d, e]"
    using assms(1) by (auto simp: length_Suc_conv eval_nat_numeral)
  have "drop 16 garbage = []" using assms(2) by simp
  with s show ?thesis
    by (simp add: GenerateUuid3_def eval_nat_numeral memcpy_def)
qed

text \<open>C37: Two of the ways to make a uuid from a digest agree. Formatting the first four words of
  the SHA-1 digest as hexadecimal digits and parsing the text gives the uuid that copying the
  words in big-endian order into the uuid gives, for every input, every digest function with
  five words, and whatever the memory of the uuid held before.\<close>

theorem GenerateUuid1_is_GenerateUuid3:
  assumes "length (sha1 input) = 5" and "length garbage = 16"
    and "\<And>bs. length bs = 16 \<Longrightarrow> gen (hex_bytes hex_digit bs) = Inr bs"
  shows "GenerateUuid1 gen sha1 input = Inr (GenerateUuid3 sha1 garbage input)"
proof -
  have "length (concat (map word_bytes (take 4 (sha1 input)))) = 16"
    using assms(1) by (simp add: length_concat comp_def sum_list_triv)
  then show ?thesis
    by (simp add: GenerateUuid1_def format_digest_bytes assms(3) GenerateUuid3_bytes [of sha1 input garbage, OF assms(1,2)])
qed

text \<open>A parser of plain hexadecimal digits, as an instance.\<close>

definition hex_value :: "char \<Rightarrow> nat" where
  "hex_value c = (let n = of_char c in if n < 58 then n - 48 else n - 87)"

fun unhex :: "string \<Rightarrow> byte list" where
  "unhex (a # b # s) = of_nat (16 * hex_value a + hex_value b) # unhex s"
| "unhex _ = []"

lemma hex_value_digit: "n < 16 \<Longrightarrow> hex_value (hex_digit n) = n"
  by (auto simp: hex_value_def hex_digit_def Let_def)

lemma unhex_bytes: "unhex (hex_bytes hex_digit bs) = bs"
proof (induction bs)
  case (Cons b bs)
  have "unat b div 16 < 16"
    using unsigned_less [of b] by (simp add: div_less_iff_less_mult)
  then have "16 * hex_value (hex_digit (unat b div 16 mod 16)) + hex_value (hex_digit (unat b mod 16)) = unat b"
    by (simp add: hex_value_digit)
  then have "(of_nat (16 * hex_value (hex_digit (unat b div 16 mod 16)) + hex_value (hex_digit (unat b mod 16))) :: byte) = b"
    by simp
  with Cons show ?case by (simp add: numeral_2_eq_2 del: of_nat_add of_nat_mult)
qed simp

lemma GenerateUuid1_is_GenerateUuid3_witness:
  "GenerateUuid1 (Inr \<circ> unhex) (\<lambda>_. [0x01020304, 5, 6, 7, 8]) ''name'' =
     Inr (GenerateUuid3 (\<lambda>_. [0x01020304, 5, 6, 7, 8]) (replicate 16 0xCD) ''name'')"
  using GenerateUuid1_is_GenerateUuid3 [of "\<lambda>_. [0x01020304, 5, 6, 7, 8]" "''name''" "replicate 16 0xCD" "Inr \<circ> unhex"]
  by (simp add: unhex_bytes)

section \<open>The agent's identifier\<close>

type_synonym wstring = "u16 list"

text \<open>
  \<open>GetLogicalDriveStrings\<close> fills the buffer with the drives, each followed by a zero, and a zero
  behind the last; it returns the number of characters without that last zero. The string at
  \<open>&buf[counter]\<close> ends at the next zero.
\<close>

definition wide_at :: "wstring \<Rightarrow> nat \<Rightarrow> wstring" where
  "wide_at buf counter = takeWhile (\<lambda>c. c \<noteq> 0) (drop counter buf)"

function GetDrives_loop ::
  "(wstring \<Rightarrow> nat) \<Rightarrow> nat \<Rightarrow> wstring \<Rightarrow> nat \<Rightarrow> nat \<Rightarrow> wstring list \<Rightarrow> wstring list" where
  "GetDrives_loop drive_type ty buf len counter out =
     (let drive = wide_at buf counter; counter' = counter + (length drive + 1) in
      if drive = [] then out
      else (let out' = (if ty = drive_type drive then out @ [drive] else out) in
            if counter' < len then GetDrives_loop drive_type ty buf len counter' out' else out'))"
  by pat_completeness auto
termination
  by (relation "measure (\<lambda>(_, _, _, len, counter, _). len - counter)") auto

declare GetDrives_loop.simps [simp del]

definition GetDrives :: "(wstring \<Rightarrow> nat) \<Rightarrow> wstring \<times> nat \<Rightarrow> nat \<Rightarrow> wstring list" where
  "GetDrives drive_type filled ty = (case filled of (buf, len) \<Rightarrow>
     if len = 0 then [] else GetDrives_loop drive_type ty buf len 0 [])"

text \<open>
  The adapters are their type and address, or the call fails. The loop takes the first Ethernet
  adapter with an address of six bytes.
\<close>

definition MIB_IF_TYPE_ETHERNET :: nat where "MIB_IF_TYPE_ETHERNET = 6"

fun GetMac_loop :: "(nat \<times> byte list) list \<Rightarrow> bool \<Rightarrow> byte list \<Rightarrow> byte list" where
  "GetMac_loop [] found i = i"
| "GetMac_loop ((ty, address) # as) found i =
     (if found then i
      else if ty = MIB_IF_TYPE_ETHERNET \<and> length address = 6 then GetMac_loop as True address
      else GetMac_loop as False i)"

fun colons :: "byte list \<Rightarrow> string" where
  "colons [] = []"
| "colons [b] = hex_padded hex_digit 2 (unat b)"
| "colons (b # bs) = hex_padded hex_digit 2 (unat b) @ '':'' @ colons bs"

text \<open>
  \<open>sprintf\<close> into the string of 18 characters writes 17 of them and a zero, which stays in the string.
\<close>

definition GetMac :: "(nat \<times> byte list) list option \<Rightarrow> string" where
  "GetMac infos =
     (let i = (case infos of None \<Rightarrow> replicate 6 0 | Some as \<Rightarrow> GetMac_loop as False (replicate 6 0))
      in memcpy 0 (colons i @ [CHR 0x00]) (replicate 18 (CHR 0x00)))"

text \<open>
  The registry value is read twice, for its size and its characters; \<open>query mask\<close> is what the
  reads return under a view of the registry, or None when one of the calls fails.
\<close>

definition GetMachineGuidFromRegistry :: "(nat \<Rightarrow> wstring option) \<Rightarrow> nat \<Rightarrow> wstring" where
  "GetMachineGuidFromRegistry query view = (case query view of Some guid \<Rightarrow> guid | None \<Rightarrow> [])"

definition Generate :: "(string \<Rightarrow> u32 list) \<Rightarrow> string \<Rightarrow> string" where
  "Generate sha1 bytes = format_digest (take 5 (sha1 bytes))"

definition DRIVE_FIXED :: nat where "DRIVE_FIXED = 3"
definition KEY_WOW64_64KEY :: nat where "KEY_WOW64_64KEY = 256"

text \<open>\<open>C:\\\<close> in UTF-16, the drive that is assumed when none is found.\<close>

definition default_drive :: wstring where "default_drive = [0x43, 0x3A, 0x5C]"

definition agent_text ::
  "(wstring \<Rightarrow> nat) \<Rightarrow> wstring \<times> nat \<Rightarrow> (wstring \<Rightarrow> u32) \<Rightarrow> (nat \<Rightarrow> wstring option) \<Rightarrow>
   (nat \<times> byte list) list option \<Rightarrow> (wstring \<Rightarrow> exn + string) \<Rightarrow> exn + string" where
  "agent_text drive_type filled serial_of query infos narrow =
     (let drives = GetDrives drive_type filled DRIVE_FIXED;
          drives = (if drives = [] then drives @ [default_drive] else drives);
          serial = serial_of (drives ! 0);
          guid = GetMachineGuidFromRegistry query 0;
          guid = (if length guid = 0 then GetMachineGuidFromRegistry query KEY_WOW64_64KEY else guid);
          mac = filter (\<lambda>c. c \<noteq> CHR '':'') (GetMac infos)
      in case narrow guid of Inl e \<Rightarrow> Inl e | Inr g \<Rightarrow> Inr (to_string (unat serial) @ g @ mac))"

definition agent_main ::
  "(string \<Rightarrow> exn + uuid_bytes) \<Rightarrow> (string \<Rightarrow> u32 list) \<Rightarrow> exn + string \<Rightarrow> exn + uuid_bytes" where
  "agent_main gen sha1 text = (case text of Inl e \<Rightarrow> Inl e | Inr t \<Rightarrow> gen (Generate sha1 t))"

section \<open>Drives\<close>

definition drive_strings :: "wstring list \<Rightarrow> wstring" where
  "drive_strings ds = concat (map (\<lambda>d. d @ [0]) ds)"

lemma wide_at_drive:
  assumes "0 \<notin> set d" and "length pre = n"
  shows "wide_at (pre @ d @ 0 # rest) n = d"
proof -
  have "\<forall>x \<in> set d. x \<noteq> 0" using assms(1) by metis
  then show ?thesis using assms(2) by (simp add: wide_at_def takeWhile_tail)
qed

lemma GetDrives_loop_drives:
  assumes "ds \<noteq> []" and "\<forall>d \<in> set ds. d \<noteq> [] \<and> 0 \<notin> set d"
  shows "GetDrives_loop drive_type ty (pre @ drive_strings ds @ 0 # rest)
      (length pre + length (drive_strings ds)) (length pre) out =
    out @ filter (\<lambda>d. ty = drive_type d) ds"
  using assms
proof (induction ds arbitrary: pre out rule: list_nonempty_induct)
  case (single d)
  then have "wide_at (pre @ d @ 0 # 0 # rest) (length pre) = d" by (intro wide_at_drive) auto
  with single show ?case
    by (subst GetDrives_loop.simps) (simp add: drive_strings_def)
next
  case (cons d ds)
  have "wide_at (pre @ d @ 0 # drive_strings ds @ 0 # rest) (length pre) = d"
    using cons.prems by (intro wide_at_drive) auto
  moreover have "0 < length (drive_strings ds)"
    using cons.hyps by (cases ds) (simp_all add: drive_strings_def)
  moreover from cons.IH [of "pre @ d @ [0]"] cons.prems
  have "GetDrives_loop drive_type ty (pre @ d @ 0 # drive_strings ds @ 0 # rest)
      (length pre + (length d + 1) + length (drive_strings ds)) (length pre + (length d + 1)) out' =
    out' @ filter (\<lambda>d. ty = drive_type d) ds" for out'
    by (simp add: add.assoc)
  ultimately show ?case
    using cons.prems
    by (subst GetDrives_loop.simps) (simp add: drive_strings_def Let_def add.assoc)
qed

text \<open>The list of drives is read completely: from the buffer that the system fills with any
  number of drive names the loop returns exactly the drives of the wanted type, in their order,
  whatever is in the buffer behind them.\<close>

theorem GetDrives_filters:
  assumes "\<forall>d \<in> set ds. d \<noteq> [] \<and> 0 \<notin> set d"
  shows "GetDrives drive_type (drive_strings ds @ 0 # rest, length (drive_strings ds)) ty =
    filter (\<lambda>d. ty = drive_type d) ds"
proof (cases "ds = []")
  case True
  then show ?thesis by (simp add: GetDrives_def drive_strings_def)
next
  case False
  then have "length (drive_strings ds) \<noteq> 0" by (cases ds) (simp_all add: drive_strings_def)
  with GetDrives_loop_drives [OF False assms, of drive_type ty "[]" rest "[]"] show ?thesis
    by (simp add: GetDrives_def)
qed

lemma GetDrives_filters_witness:
  "GetDrives (\<lambda>d. length d) (drive_strings [[67, 58, 92], [65, 58], [68, 58, 92]] @ 0 # replicate 3 0,
     length (drive_strings [[67, 58, 92], [65, 58], [68, 58, 92]])) 3 = [[67, 58, 92], [68, 58, 92]]"
  using GetDrives_filters [of "[[67, 58, 92], [65, 58], [68, 58, 92 :: u16]]" "\<lambda>d. length d" "replicate 3 0" 3]
  by simp

section \<open>What is hashed\<close>

text \<open>The first Ethernet adapter with a six-byte address, or zeros.\<close>

definition ethernet :: "nat \<times> byte list \<Rightarrow> bool" where
  "ethernet a \<longleftrightarrow> fst a = MIB_IF_TYPE_ETHERNET \<and> length (snd a) = 6"

lemma GetMac_loop_found: "GetMac_loop as True i = i"
  by (cases as rule: list.exhaust) auto

lemma GetMac_loop_find:
  "GetMac_loop as False i = (case find ethernet as of None \<Rightarrow> i | Some a \<Rightarrow> snd a)"
  by (induction as) (auto simp: ethernet_def GetMac_loop_found)

lemma hex_byte: "hex_padded hex_digit 2 (unat (b :: byte)) = hex_fixed hex_digit 2 (unat b)"
  using unsigned_less [of b] by (intro hex_padded_fixed) simp_all

lemma no_colon: "n < 16 \<Longrightarrow> hex_digit n \<noteq> CHR '':''"
  by (auto simp: hex_digit_def char_of_eq_iff take_bit_nat_eq_self)

lemma hex_byte_plain:
  "filter (\<lambda>c. c \<noteq> CHR '':'') (hex_fixed hex_digit 2 (unat (b :: byte))) = hex_fixed hex_digit 2 (unat b)"
  by (simp add: numeral_2_eq_2 no_colon)

lemma colons_plain: "filter (\<lambda>c. c \<noteq> CHR '':'') (colons bs) = hex_bytes hex_digit bs"
  by (induction bs rule: colons.induct) (simp_all add: hex_byte hex_byte_plain)

lemma length_colons: "length (colons bs) = 3 * length bs - 1"
  by (induction bs rule: colons.induct) (simp_all add: hex_byte)

text \<open>The hardware address that goes into the agent's identifier is the one of the first
  Ethernet adapter, as twelve lower-case digits, or twelve zeros when there is none - but with a
  zero character behind it: the buffer of \<open>sprintf\<close> is one character longer than the address,
  and the text that is hashed keeps it.\<close>

theorem GetMac_keeps_terminator:
  "filter (\<lambda>c. c \<noteq> CHR '':'') (GetMac infos) =
     hex_bytes hex_digit (case infos of None \<Rightarrow> replicate 6 0
       | Some as \<Rightarrow> (case find ethernet as of None \<Rightarrow> replicate 6 0 | Some a \<Rightarrow> snd a)) @ [CHR 0x00]"
proof -
  let ?i = "case infos of None \<Rightarrow> replicate 6 0
    | Some as \<Rightarrow> (case find ethernet as of None \<Rightarrow> replicate 6 (0 :: byte) | Some a \<Rightarrow> snd a)"
  have "length ?i = 6"
    by (auto simp: find_Some_iff ethernet_def split: option.split) (metis snd_conv)
  moreover have "(case infos of None \<Rightarrow> replicate 6 0 | Some as \<Rightarrow> GetMac_loop as False (replicate 6 0)) = ?i"
    by (simp add: GetMac_loop_find split: option.split)
  ultimately have "GetMac infos = colons ?i @ [CHR 0x00]"
    by (simp add: GetMac_def memcpy_def length_colons Let_def)
  then show ?thesis by (simp add: colons_plain)
qed

text \<open>The text that the uuid parser of the agent gets is the whole digest, 40 digits.\<close>

lemma length_Generate:
  assumes "length (sha1 bytes) = 5"
  shows "length (Generate sha1 bytes) = 40"
proof -
  have "length (hex_bytes f bs) = 2 * length bs" for f bs by (induction bs) simp_all
  with assms show ?thesis
    by (simp add: Generate_def format_digest_bytes length_concat comp_def sum_list_triv)
qed

end
