(* ===== verification/NetBIOS.thy ===== *)
theory NetBIOS
  imports Hex_Text
begin

text \<open>
  The scan of the network neighbourhood (\<open>netbios_scanner/NetBIOSScanner.cpp\<close>): the servers that
  \<open>NetServerEnum\<close> returns are resolved to an IPv4 and a hardware address and printed. The calls
  of the system and of the resolver are parameters: \<open>enum\<close> is the status of the enumeration with
  the entries it returns, \<open>resolve\<close> and \<open>send_arp\<close> may fail, and may answer differently in each
  pass of the loop, which is their first argument.
\<close>

section \<open>Hardware addresses\<close>

text \<open>
  \<open>SendARP\<close> writes six bytes into two words that were zero; the machine is little endian, as
  every one that runs this code is. \<open>ntohl\<close> reverses the bytes of a word.
\<close>

definition le_word :: "byte list \<Rightarrow> u32" where
  "le_word bs = foldr (\<lambda>b x. push_bit 8 x OR ucast b) bs 0"

definition ntohl :: "u32 \<Rightarrow> u32" where
  "ntohl x = le_word (word_bytes x)"

definition to_lower :: "char \<Rightarrow> char" where
  "to_lower c = (if of_char c \<in> {65..90 :: nat} then char_of (of_char c + 32 :: nat) else c)"

definition NetBIOS_format :: "byte list \<Rightarrow> string" where
  "NetBIOS_format mac =
     (let mac_buffer0 = ntohl (le_word (take 4 mac));
          mac_buffer1 = drop_bit 16 (ntohl (le_word (drop 4 mac @ [0, 0])))
      in map to_lower (hex_padded hex_digit_upper 8 (unat mac_buffer0) @
           hex_padded hex_digit_upper 4 (unat mac_buffer1)))"

definition NetBIOS_Arp :: "(string \<Rightarrow> exn + byte list) \<Rightarrow> string \<Rightarrow> exn + string" where
  "NetBIOS_Arp send_arp ip = (case send_arp ip of Inl e \<Rightarrow> Inl e | Inr mac \<Rightarrow> Inr (NetBIOS_format mac))"

text \<open>The first of the resolved addresses; the resolver throws when there is none.\<close>

definition NetBIOS_Resolve :: "(string \<Rightarrow> exn + string list) \<Rightarrow> string \<Rightarrow> exn + string" where
  "NetBIOS_Resolve resolve hostname = (case resolve hostname of Inl e \<Rightarrow> Inl e | Inr as \<Rightarrow> Inr (hd as))"

lemma bit_byte: "bit (b :: byte) n \<Longrightarrow> n < 8"
  using bit_imp_le_length [of b n] by simp

lemma word_bytes_le: "word_bytes (le_word [a, b, c, d]) = [d, c, b, a]"
  unfolding word_bytes_def le_word_def list.map foldr.simps o_apply list.inject
  by (intro conjI refl; rule bit_word_eqI; auto simp: bit_simps dest: bit_byte)

lemma ntohl_le: "ntohl (le_word [a, b, c, d]) = le_word [d, c, b, a]"
  by (simp add: ntohl_def word_bytes_le)

lemma lower_digit: "n < 16 \<Longrightarrow> to_lower (hex_digit_upper n) = hex_digit n"
  by (auto simp: to_lower_def hex_digit_upper_def hex_digit_def take_bit_nat_eq_self)

lemma lower_fixed: "map to_lower (hex_fixed hex_digit_upper w n) = hex_fixed hex_digit w n"
  by (induction w arbitrary: n) (simp_all add: lower_digit)

lemma lower_bytes: "map to_lower (hex_bytes hex_digit_upper bs) = hex_bytes hex_digit bs"
  by (induction bs) (simp_all add: lower_fixed del: hex_fixed.simps)

text \<open>The upper half of a word has the first four of its digits.\<close>

lemma hex_upper_half:
  "hex_padded f 4 (unat (drop_bit 16 (x :: u32))) = take 4 (hex_bytes f (word_bytes x))"
proof -
  have x: "unat x < 2 ^ 32" using unsigned_less [of x] by simp
  have half: "unat (drop_bit 16 x) = unat x div 16 ^ 4"
    unfolding unat_drop_bit_eq by (simp add: drop_bit_eq_div)
  with x have "unat (drop_bit 16 x) < 16 ^ 4" by (simp add: div_less_iff_less_mult)
  then have "hex_padded f 4 (unat (drop_bit 16 x)) = hex_fixed f 4 (unat x div 16 ^ 4)"
    using half hex_padded_fixed [of 4 "unat (drop_bit 16 x)" f] by simp
  also have "\<dots> = take 4 (hex_fixed f (4 + 4) (unat x))"
    unfolding hex_fixed_append by simp
  also have "hex_fixed f (4 + 4) (unat x) = hex_bytes f (word_bytes x)"
    using x hex_word [of f x] hex_padded_fixed [of 8 "unat x" f] by simp
  finally show ?thesis .
qed

text \<open>A hardware address is printed as it is: whatever six bytes the ARP request returns, the
  text is their twelve hexadecimal digits in lower case, in the order of the address - through
  the two words in memory, the two byte swaps, the shift and the two fields of the format.\<close>

theorem NetBIOS_Arp_digits:
  assumes "send_arp ip = Inr mac" and "length mac = 6"
  shows "NetBIOS_Arp send_arp ip = Inr (hex_bytes hex_digit mac)"
proof -
  obtain a b c d e f where mac: "mac = [a, b, c, d, e, f]"
    using assms(2) by (auto simp: length_Suc_conv eval_nat_numeral)
  have four: "take 4 mac = [a, b, c, d]" "drop 4 mac @ [0, 0] = [e, f, 0, 0]" by (simp_all add: mac)
  have "take 4 (hex_bytes hex_digit_upper [e, f, 0, 0]) = hex_bytes hex_digit_upper [e, f]"
    by (simp add: take_Cons' del: hex_fixed.simps)
  then have "NetBIOS_format mac = map to_lower (hex_bytes hex_digit_upper ([a, b, c, d] @ [e, f]))"
    unfolding NetBIOS_format_def Let_def four ntohl_le hex_word hex_upper_half word_bytes_le
    by (simp del: hex_fixed.simps)
  then show ?thesis
    by (simp add: NetBIOS_Arp_def assms(1) lower_fixed mac del: hex_fixed.simps)
qed

lemma NetBIOS_Arp_digits_witness:
  "NetBIOS_Arp (\<lambda>_. Inr [0x00, 0x1A, 0xF0, 0x0C, 0x05, 0xFF]) ''10.0.0.1'' = Inr ''001af00c05ff''"
proof -
  let ?mac = "[0x00, 0x1A, 0xF0, 0x0C, 0x05, 0xFF] :: byte list"
  have hex: "hex_bytes hex_digit ?mac = ''001af00c05ff''" by code_simp
  have len: "length ?mac = 6" by simp
  show ?thesis
    using NetBIOS_Arp_digits [of "\<lambda>_. Inr ?mac" "''10.0.0.1''", OF refl len] unfolding hex .
qed

section \<open>The scan\<close>

record ServerInfo =
  sv_name :: string
  sv_comment :: string
  sv_type :: u32

definition NERR_Success :: nat where "NERR_Success = 0"
definition ERROR_MORE_DATA :: nat where "ERROR_MORE_DATA = 234"

abbreviation SV_TYPE_WORKSTATION :: u32 where "SV_TYPE_WORKSTATION \<equiv> 1"
abbreviation SV_TYPE_SERVER :: u32 where "SV_TYPE_SERVER \<equiv> 2"

definition server_type :: "u32 \<Rightarrow> string" where
  "server_type t =
     (if t AND SV_TYPE_WORKSTATION \<noteq> 0 \<or> t AND SV_TYPE_SERVER \<noteq> 0 then ''pc'' else ''unknown'')"

datatype nb_out =
    N_Start
  | N_Found nat
  | N_Host string string string string string
  | N_Error exn

text \<open>
  One pass of the loop. \<open>sInfo\<close> is null, or a pointer into the entries that were returned: the
  entry it stands at. It moves on only at the end of a pass that did not throw.
\<close>

definition Scan_pass ::
  "(nat \<Rightarrow> string \<Rightarrow> exn + string) \<Rightarrow> (nat \<Rightarrow> string \<Rightarrow> exn + string) \<Rightarrow> ServerInfo list option \<Rightarrow>
   nat \<Rightarrow> nat \<Rightarrow> nb_out \<times> nat" where
  "Scan_pass resolve arp entries index sInfo =
     (case entries of
        None \<Rightarrow> (N_Error (runtime_error ''NetServerEnum returned unexpected null server info.''), sInfo)
      | Some es \<Rightarrow> (let s = es ! sInfo in
          case resolve index (sv_name s) of
            Inl e \<Rightarrow> (N_Error e, sInfo)
          | Inr ip \<Rightarrow> (case arp index ip of
              Inl e \<Rightarrow> (N_Error e, sInfo)
            | Inr mac \<Rightarrow> (N_Host (sv_name s) (sv_comment s) ip mac (server_type (sv_type s)), Suc sInfo))))"

fun Scan_loop ::
  "(nat \<Rightarrow> string \<Rightarrow> exn + string) \<Rightarrow> (nat \<Rightarrow> string \<Rightarrow> exn + string) \<Rightarrow> ServerInfo list option \<Rightarrow>
   nat \<Rightarrow> nat \<Rightarrow> nat \<Rightarrow> nb_out list" where
  "Scan_loop resolve arp entries 0 index sInfo = []"
| "Scan_loop resolve arp entries (Suc n) index sInfo =
     (case Scan_pass resolve arp entries index sInfo of
        (out, sInfo') \<Rightarrow> out # Scan_loop resolve arp entries n (Suc index) sInfo')"

text \<open>\<open>enum\<close> is the status, the entries or null, the number of entries read and their total.\<close>

definition NetBIOS_Scan ::
  "nat \<times> ServerInfo list option \<times> nat \<times> nat \<Rightarrow> (nat \<Rightarrow> string \<Rightarrow> exn + string) \<Rightarrow>
   (nat \<Rightarrow> string \<Rightarrow> exn + string) \<Rightarrow> nb_out list \<times> exn option" where
  "NetBIOS_Scan enum resolve arp = (case enum of (status, entries, entriesRead, totalEntries) \<Rightarrow>
     if status \<noteq> NERR_Success \<and> status \<noteq> ERROR_MORE_DATA
     then ([N_Start], Some (runtime_error (''NetServerEnum failed with error code: '' @ to_string status)))
     else (N_Start # N_Found totalEntries # Scan_loop resolve arp entries entriesRead 0 0, None))"

definition nb_host ::
  "(nat \<Rightarrow> string \<Rightarrow> exn + string) \<Rightarrow> (nat \<Rightarrow> string \<Rightarrow> exn + string) \<Rightarrow> ServerInfo list \<Rightarrow> nat \<Rightarrow> nb_out" where
  "nb_host resolve arp es i = (let s = es ! i; ip = projr (resolve i (sv_name s)) in
     N_Host (sv_name s) (sv_comment s) ip (projr (arp i ip)) (server_type (sv_type s)))"

definition answers ::
  "(nat \<Rightarrow> string \<Rightarrow> exn + string) \<Rightarrow> (nat \<Rightarrow> string \<Rightarrow> exn + string) \<Rightarrow> ServerInfo list \<Rightarrow> nat \<Rightarrow> bool" where
  "answers resolve arp es i \<longleftrightarrow>
     (\<exists>ip mac. resolve i (sv_name (es ! i)) = Inr ip \<and> arp i ip = Inr mac)"

lemma Scan_loop_found:
  "(\<forall>i < n. answers resolve arp es (k + i)) \<Longrightarrow>
   Scan_loop resolve arp (Some es) (n + m) k k =
     map (nb_host resolve arp es) [k..<k + n] @ Scan_loop resolve arp (Some es) m (k + n) (k + n)"
proof (induction n arbitrary: k)
  case (Suc n)
  obtain ip mac where r: "resolve k (sv_name (es ! k)) = Inr ip" "arp k ip = Inr mac"
    using Suc.prems by (auto simp: answers_def)
  have "\<forall>i < n. answers resolve arp es (Suc k + i)" using Suc.prems by auto
  moreover have "[k..<k + Suc n] = k # [Suc k..<Suc k + n]"
    by (simp add: upt_conv_Cons del: upt_Suc)
  ultimately show ?case
    using Suc.IH [of "Suc k"] r by (simp add: Scan_pass_def nb_host_def Let_def del: upt_Suc)
qed simp

lemma Scan_loop_stuck:
  "(\<And>i. resolve i (sv_name (es ! k)) = Inl e) \<Longrightarrow>
   Scan_loop resolve arp (Some es) m j k = replicate m (N_Error e)"
  by (induction m arbitrary: j) (simp_all add: Scan_pass_def)

text \<open>One host that cannot be resolved ends the scan. The hosts in front of it are reported,
  in order; the pointer to the entries does not move past the one that fails, so it is tried
  again in each remaining pass, and no host behind it is ever looked up - all the other passes
  report the same error. Without such a host every entry is reported.\<close>

theorem NetBIOS_unresolved_blocks:
  assumes "status = NERR_Success \<or> status = ERROR_MORE_DATA" and "k \<le> length es"
    and "\<forall>i < k. answers resolve arp es i"
    and "\<And>i. k < length es \<Longrightarrow> resolve i (sv_name (es ! k)) = Inl e"
  shows "NetBIOS_Scan (status, Some es, length es, all) resolve arp =
    (N_Start # N_Found all # map (nb_host resolve arp es) [0..<k] @
       replicate (length es - k) (N_Error e), None)"
proof -
  have "Scan_loop resolve arp (Some es) (length es) 0 0 =
      map (nb_host resolve arp es) [0..<k] @ Scan_loop resolve arp (Some es) (length es - k) k k"
    using Scan_loop_found [of k resolve arp es 0 "length es - k"] assms(2,3) by simp
  also have "Scan_loop resolve arp (Some es) (length es - k) k k = replicate (length es - k) (N_Error e)"
    using Scan_loop_stuck [of resolve es k e arp "length es - k" k] assms(4) by (cases "k < length es") simp_all
  finally show ?thesis using assms(1) by (auto simp: NetBIOS_Scan_def)
qed

definition nb_example :: "ServerInfo list" where
  "nb_example = [\<lparr>sv_name = ''A'', sv_comment = [], sv_type = 1\<rparr>, \<lparr>sv_name = ''B'', sv_comment = [], sv_type = 2\<rparr>,
     \<lparr>sv_name = ''C'', sv_comment = [], sv_type = 0\<rparr>]"

definition nb_resolve :: "nat \<Rightarrow> string \<Rightarrow> exn + string" where
  "nb_resolve i h = (if h = ''B'' then Inl lib_error else Inr (h @ ''.ip''))"

lemma NetBIOS_unresolved_blocks_witness:
  "NetBIOS_Scan (0, Some nb_example, 3, 3) nb_resolve (\<lambda>_ ip. Inr ''mac'') =
     ([N_Start, N_Found 3, N_Host ''A'' [] ''A.ip'' ''mac'' ''pc'', N_Error lib_error, N_Error lib_error], None)"
proof -
  have "NetBIOS_Scan (0, Some nb_example, length nb_example, 3) nb_resolve (\<lambda>_ ip. Inr ''mac'') =
    (N_Start # N_Found 3 # map (nb_host nb_resolve (\<lambda>_ ip. Inr ''mac'') nb_example) [0..<1] @
       replicate (length nb_example - 1) (N_Error lib_error), None)"
    by (rule NetBIOS_unresolved_blocks)
       (simp_all add: NERR_Success_def nb_example_def nb_resolve_def answers_def)
  then show ?thesis
    by (simp add: nb_example_def nb_host_def nb_resolve_def server_type_def eval_nat_numeral Let_def)
qed

end
