(* ===== verification/Nat_End_To_End.thy ===== *)
theory Nat_End_To_End
  imports Nat_Server_Claims Nat_Client_Claims Nat_Test
begin


section \<open>A frame that arrives in pieces\<close>










text \<open>The pieces of a byte string: \<open>slices ns bs\<close> cuts off \<open>n + 1\<close> bytes for each \<open>n\<close>.\<close>

fun slices :: "nat list \<Rightarrow> byte list \<Rightarrow> byte list list" where
  "slices [] bs = (if bs = [] then [] else [bs])"
| "slices (n # ns) bs = (if bs = [] then [] else take (Suc n) bs # slices ns (drop (Suc n) bs))"

lemma concat_slices [simp]: "concat (slices ns bs) = bs"
  by (induction ns bs rule: slices.induct) auto

lemma slices_nonempty [simp]: "[] \<notin> set (slices ns bs)" "bs \<noteq> [] \<Longrightarrow> slices ns bs \<noteq> []"
  by (induction ns bs rule: slices.induct) auto



section \<open>Sending, forwarding and receiving\<close>













section \<open>From client to client\<close>









end
