(* ===== verification/Nat_Relay.thy ===== *)
theory Nat_Relay
  imports Nat_Server_Claims
begin

text \<open>
  The byte streams that the server relays: what has arrived on a session since it relays, against
  what has been written for it to the other side, over every run of the machine.
\<close>

section \<open>What a step reads and writes for the relay\<close>

text \<open>The session \<open>b\<close> relays: its read is posted or pending, or the relay write before it.\<close>

definition relaying :: "Server \<Rightarrow> addr \<Rightarrow> bool" where
  "relaying st b \<longleftrightarrow>
     b \<in> set (concat (map op_proxy (sv_pending st)) @ concat (map task_proxy (sv_posted st)))"

lemma relaying_iff: "relaying st b \<longleftrightarrow> b \<in># proxies st"
  by (auto simp: relaying_def proxies_def)

definition srv_read :: "srv_event \<Rightarrow> Server \<Rightarrow> addr \<Rightarrow> byte list" where
  "srv_read e st b = (case e of
     E_Read i ec bs \<Rightarrow>
       (if isRunning (sv_core st) \<and> i < length (sv_pending st) \<and> sv_pending st ! i = O_ReadProxy b \<and>
          \<not> failed ec \<and> s_open (sv_heap st b) then bs else [])
   | _ \<Rightarrow> [])"

definition srv_wrote :: "srv_event \<Rightarrow> Server \<Rightarrow> addr \<Rightarrow> (addr \<times> byte list) list" where
  "srv_wrote e st b = (case e of
     E_Write i ec \<Rightarrow>
       (if isRunning (sv_core st) \<and> i < length (sv_pending st) \<and> \<not> failed ec then
          (case sv_pending st ! i of
             O_WriteProxy c a m \<Rightarrow> if a = b \<and> s_open (sv_heap st c) then [(c, m)] else []
           | _ \<Rightarrow> [])
        else [])
   | _ \<Rightarrow> [])"

text \<open>What follows the command that a read of the session completes.\<close>

definition srv_behind :: "srv_event \<Rightarrow> Server \<Rightarrow> addr \<Rightarrow> byte list" where
  "srv_behind e st b = (case e of
     E_Read i ec bs \<Rightarrow>
       (case read_until delimiter (s_buffer (sv_heap st b) @ bs) of
          Some n \<Rightarrow> drop n (s_buffer (sv_heap st b) @ bs)
        | None \<Rightarrow> [])
   | _ \<Rightarrow> [])"

lemma relaying_pending:
  assumes "i < length (sv_pending st)"
  shows "sv_pending st ! i = O_ReadProxy b \<Longrightarrow> relaying st b"
    and "sv_pending st ! i = O_WriteProxy c b m \<Longrightarrow> relaying st b"
  using reads_drop_op(2) [OF assms] by (simp_all add: relaying_iff)

lemma not_relaying_idle:
  assumes "\<not> relaying st b"
  shows "srv_read e st b = []" and "srv_wrote e st b = []"
proof -
  have "srv_read e st b = [] \<and> srv_wrote e st b = []"
    using assms relaying_pending(1) [of _ st b] relaying_pending(2) [of _ st _ b] by (cases e) (auto simp: srv_read_def srv_wrote_def split: srv_op.splits)
  then show "srv_read e st b = []" "srv_wrote e st b = []" by simp_all
qed

text \<open>
  The bytes of a step that stay are in the buffer; a session begins to relay in a step that read a
  command of it; and a session that reads commands has not relayed before.
\<close>

definition srv_flow :: "srv_event \<Rightarrow> Server \<Rightarrow> Server \<Rightarrow> addr \<Rightarrow> bool" where
  "srv_flow e st t b \<longleftrightarrow>
     (relaying st b \<and> relaying t b \<longrightarrow>
        s_buffer (sv_heap st b) @ srv_read e st b = concat (map snd (srv_wrote e st b)) @ s_buffer (sv_heap t b)) \<and>
     (relaying t b \<and> \<not> relaying st b \<longrightarrow> b \<in># reads st \<and> s_buffer (sv_heap t b) = srv_behind e st b) \<and>
     (b \<in># reads t \<and> \<not> relaying t b \<longrightarrow> b \<in># reads st \<and> \<not> relaying st b \<or> b = sv_fresh st) \<and>
     sv_fresh st \<le> sv_fresh t"

lemma srv_flowI:
  assumes "proxies t = proxies st" and "set_mset (reads t) \<subseteq> insert (sv_fresh st) (set_mset (reads st))"
    and "sv_fresh st \<le> sv_fresh t" and "srv_read e st b = []" and "srv_wrote e st b = []"
    and "relaying st b \<Longrightarrow> s_buffer (sv_heap t b) = s_buffer (sv_heap st b)"
  shows "srv_flow e st t b"
  using assms by (auto simp: srv_flow_def relaying_iff)

lemma fresh_no_reads: "srv_inv st \<Longrightarrow> sv_fresh st \<le> b \<Longrightarrow> b \<notin># reads st"
  by (simp add: srv_inv_def one_reader_def not_in_iff) (metis le_zero_eq not_le)

lemma flow_run:
  assumes i: "i < length (sv_posted st)"
  shows "srv_flow (E_Run i) st (run_task (sv_posted st ! i) (st\<lparr>sv_posted := remove_at i (sv_posted st)\<rparr>)) b"
proof -
  let ?t = "run_task (sv_posted st ! i) (st\<lparr>sv_posted := remove_at i (sv_posted st)\<rparr>)"
  have "reads ?t = reads st" "proxies ?t = proxies st"
    by (cases "sv_posted st ! i";
        simp add: run_task_def Server_Receive_def Server_ReceiveProxy_def Server_DoSend_def
          reads_def proxies_def mset_concat_remove_at [OF i])+
  moreover have "sv_heap ?t = sv_heap st" "sv_fresh ?t = sv_fresh st"
    by (cases "sv_posted st ! i";
        simp add: run_task_def Server_Receive_def Server_ReceiveProxy_def Server_DoSend_def)+
  ultimately show ?thesis by (intro srv_flowI) (auto simp: srv_read_def srv_wrote_def)
qed

lemma flow_accept:
  assumes inv: "srv_inv st" and i: "i < length (sv_pending st)" and op: "sv_pending st ! i = O_Accept a"
  shows "srv_flow (E_Accept i ec remote raw) st (Server_HandleAccept a ec remote raw (drop_op i st)) b"
proof (rule srv_flowI)
  let ?t = "Server_HandleAccept a ec remote raw (drop_op i st)"
  note d = reads_drop_op [OF i]
  show "proxies ?t = proxies st" using d(2) op by (simp add: Server_HandleAccept_def Server_Accept_def)
  show "set_mset (reads ?t) \<subseteq> insert (sv_fresh st) (set_mset (reads st))"
    using d(1) op by (auto simp: Server_HandleAccept_def Server_Accept_def)
  show "s_buffer (sv_heap ?t b) = s_buffer (sv_heap st b)" if "relaying st b"
  proof -
    have "b \<in># reads st" using that proxies_reads by (simp add: relaying_iff)
    then have "b \<noteq> sv_fresh st" using fresh_no_reads [OF inv, of b] by auto
    then show ?thesis by (auto simp: Server_HandleAccept_def Server_Accept_def)
  qed
qed (simp_all add: Server_HandleAccept_def Server_Accept_def srv_read_def srv_wrote_def)

lemma flow_read_command:
  assumes inv: "srv_inv st" and i: "i < length (sv_pending st)" and op: "sv_pending st ! i = O_Read a"
    and ev: "read_event i a ec bs (\<lambda>ec n st. Done (Server_HandleReceive L a ec n st)) st = Done t"
  shows "srv_flow (E_Read i ec bs) st t b"
proof -
  let ?st1 = "on_session a (\<lambda>s. s\<lparr>s_buffer := s_buffer s @ bs\<rparr>) st"
  have no: "srv_read (E_Read i ec bs) st b = []" "srv_wrote (E_Read i ec bs) st b = []"
    using op by (auto simp: srv_read_def srv_wrote_def)
  have r: "reads st = add_mset a (reads (drop_op i st))" "proxies st = proxies (drop_op i st)"
    using reads_drop_op [OF i] op by simp_all
  have "a \<notin># reads (drop_op i st)" using one_reader_drop_op(1) [of st i a] inv i op by (simp add: srv_inv_def)
  then have idle: "\<not> relaying st a" using r(2) proxies_reads [of a "drop_op i st"] by (auto simp: relaying_iff)
  have handled: "srv_flow (E_Read i ec bs) st (Server_HandleReceive L a ec' n st') b"
    if st': "reads st' = reads (drop_op i st)" "proxies st' = proxies (drop_op i st)" "sv_fresh st' = sv_fresh st"
      "\<And>c. c \<noteq> a \<Longrightarrow> s_buffer (sv_heap st' c) = s_buffer (sv_heap st c)"
      and fin: "\<not> failed ec' \<Longrightarrow> drop n (s_buffer (sv_heap st' a)) = srv_behind (E_Read i ec bs) st a" for ec' n st'
  proof -
    let ?u = "Server_HandleReceive L a ec' n st'"
    have p: "proxies ?u = proxies st \<or> proxies ?u = add_mset a (proxies st) \<and>
        s_buffer (sv_heap ?u a) = srv_behind (E_Read i ec bs) st a"
    proof (cases "failed ec'")
      case True
      then have "?u = Server_ReceiveCatch L a st'" by (simp add: Server_HandleReceive_def)
      with st'(2) r(2) show ?thesis by simp
    next
      case False
      with st'(2) r(2) fin show ?thesis
        by (cases rule: Server_HandleReceive_cases [of L a ec' n st']) auto
    qed
    have q: "set_mset (reads ?u) \<subseteq> set_mset (reads st)"
      using reads_HandleReceive [of L a ec' n st'] st'(1) r(1) by (metis set_mset_mono)
    have buf: "s_buffer (sv_heap ?u b) = s_buffer (sv_heap st b)" if "relaying st b"
      using that idle st'(4) [of b] HandleReceive_frame(1) [of b a L ec' n st'] by auto
    show ?thesis
      using p q buf no idle r(1) st'(3) by (auto simp: srv_flow_def relaying_iff)
  qed
  show ?thesis
  proof (cases "failed ec \<or> \<not> s_open (sv_heap st a)")
    case True
    then consider "t = Server_HandleReceive L a ec 0 (drop_op i st)" | "t = st"
      using ev by (auto simp: read_event_def split: if_splits)
    then show ?thesis
    proof cases
      case 1
      then show ?thesis
      proof (cases "failed ec")
        case True
        with ev have "t = Server_HandleReceive L a ec 0 (drop_op i st)" by (simp add: read_event_def)
        with True show ?thesis using handled [of "drop_op i st" ec 0] by simp
      next
        case False
        with \<open>failed ec \<or> \<not> s_open (sv_heap st a)\<close> ev have "t = st" by (simp add: read_event_def)
        then show ?thesis using no by (simp add: srv_flow_def relaying_iff)
      qed
    next
      case 2
      then show ?thesis using no by (simp add: srv_flow_def relaying_iff)
    qed
  next
    case False
    show ?thesis
    proof (cases "read_until delimiter (s_buffer (sv_heap ?st1 a))")
      case None
      with False ev have "t = ?st1" by (simp add: read_event_def Let_def)
      with idle no show ?thesis by (auto simp: srv_flow_def relaying_iff)
    next
      case (Some n)
      with False ev have t: "t = Server_HandleReceive L a ec_ok n (drop_op i ?st1)" by (simp add: read_event_def Let_def)
      show ?thesis unfolding t by (rule handled) (use Some in \<open>simp_all add: reads_def proxies_def drop_op_def srv_behind_def\<close>)
    qed
  qed
qed

lemma flow_read_relay:
  assumes inv: "srv_inv st" and run: "isRunning (sv_core st)" and i: "i < length (sv_pending st)"
    and op: "sv_pending st ! i = O_ReadProxy a"
    and ev: "read_event i a ec bs (Server_HandleReceiveProxy a) st = Done t"
  shows "srv_flow (E_Read i ec bs) st t b"
proof -
  let ?st1 = "on_session a (\<lambda>s. s\<lparr>s_buffer := s_buffer s @ bs\<rparr>) st"
  have r: "reads st = add_mset a (reads (drop_op i st))" "proxies st = add_mset a (proxies (drop_op i st))"
    using reads_drop_op [OF i] op by simp_all
  have idle: "a \<notin># reads (drop_op i st)" using one_reader_drop_op(1) [of st i a] inv i op by (simp add: srv_inv_def)
  have no: "srv_wrote (E_Read i ec bs) st b = []" by (simp add: srv_wrote_def)
  show ?thesis
  proof (cases "failed ec")
    case True
    with ev have t: "t = Server_RemoveProxy (s_id (sv_heap st a)) (drop_op i st)"
      by (simp add: read_event_def Server_HandleReceiveProxy_def)
    show ?thesis
      using idle r True no by (auto simp: t srv_flow_def relaying_iff srv_read_def op)
  next
    case ok: False
    show ?thesis
    proof (cases "s_open (sv_heap st a)")
      case False
      with ev ok have "t = st" by (simp add: read_event_def)
      then show ?thesis using False no op by (auto simp: srv_flow_def srv_read_def)
    next
      case open': True
      have rd: "srv_read (E_Read i ec bs) st b = (if b = a then bs else [])"
        using ok open' run i op by (simp add: srv_read_def)
      show ?thesis
      proof (cases "read_until delimiter (s_buffer (sv_heap ?st1 a))")
        case None
        with ok open' ev have "t = ?st1" by (simp add: read_event_def Let_def)
        with rd no show ?thesis by (auto simp: srv_flow_def relaying_iff)
      next
        case (Some n)
        with ok open' ev have h: "Server_HandleReceiveProxy a ec_ok n (drop_op i ?st1) = Done t"
          by (simp add: read_event_def Let_def)
        have "a \<in># proxies st" using r(2) by simp
        with inv open' have "paired (drop_op i ?st1) a" by (simp add: srv_inv_def relay_ok_def)
        from Server_HandleReceiveProxy_paired [OF this, of ec_ok n] h obtain c where
          t: "t = srv_start (O_WriteProxy c a (take n (s_buffer (sv_heap (drop_op i ?st1) a))))
             (on_session a (Session_SetBytesTransferred n) (drop_op i ?st1))"
          by (auto split: option.splits)
        have "reads (drop_op i ?st1) = reads (drop_op i st)" "proxies (drop_op i ?st1) = proxies (drop_op i st)"
          by (simp_all add: reads_def proxies_def drop_op_def)
        with r rd no show ?thesis by (auto simp: t srv_flow_def relaying_iff)
      qed
    qed
  qed
qed

lemma flow_stuck: "srv_read e st b = [] \<Longrightarrow> srv_wrote e st b = [] \<Longrightarrow> srv_flow e st st b"
  by (rule srv_flowI) auto

lemma flow_write:
  assumes inv: "srv_inv st" and rb: "relay_buffer st" and run: "isRunning (sv_core st)" and i: "i < length (sv_pending st)"
    and ev: "write_event L i ec st = Done t"
  shows "srv_flow (E_Write i ec) st t b"
proof -
  have rd: "srv_read (E_Write i ec) st b = []" by (simp add: srv_read_def)
  have same: "srv_flow (E_Write i ec) st t b"
    if "op_reads (sv_pending st ! i) = []" "op_proxy (sv_pending st ! i) = []" "reads t = reads (drop_op i st)"
      "proxies t = proxies (drop_op i st)" "sv_heap t = sv_heap st" "sv_fresh t = sv_fresh st"
      "srv_wrote (E_Write i ec) st b = []"
    by (rule srv_flowI) (use that reads_drop_op [OF i] rd in auto)
  show ?thesis
  proof (cases "sv_pending st ! i")
    case (O_Write a m)
    then have w: "srv_wrote (E_Write i ec) st b = []" by (simp add: srv_wrote_def)
    show ?thesis
    proof (cases "write_ok a ec st")
      case True
      with O_Write ev have d: "Server_HandleDoSend ec (log_write a m ec (drop_op i st)) = Done t" by (simp add: write_event_def)
      from reads_HandleDoSend [OF d] HandleDoSend_frame [OF d] O_Write w show ?thesis by (intro same) simp_all
    qed (use O_Write ev w rd in \<open>auto simp: write_event_def intro: flow_stuck\<close>)
  next
    case (O_WriteP2P to fr m)
    then have w: "srv_wrote (E_Write i ec) st b = []" by (simp add: srv_wrote_def)
    show ?thesis
    proof (cases "write_ok to ec st")
      case True
      with O_WriteP2P ev have d: "Server_HandleSendP2P L to fr ec (log_write to m ec (drop_op i st)) = Done t"
        by (simp add: write_event_def)
      from reads_HandleSendP2P [OF d] HandleSendP2P_frame [OF d] O_WriteP2P w show ?thesis by (intro same) simp_all
    qed (use O_WriteP2P ev w rd in \<open>auto simp: write_event_def intro: flow_stuck\<close>)
  next
    case (O_WriteProxy to fr m)
    have r: "reads st = add_mset fr (reads (drop_op i st))" "proxies st = add_mset fr (proxies (drop_op i st))"
      using reads_drop_op [OF i] O_WriteProxy by simp_all
    have idle: "fr \<notin># reads (drop_op i st)"
      using one_reader_drop_op(1) [of st i fr] inv i O_WriteProxy by (simp add: srv_inv_def)
    have "O_WriteProxy to fr m \<in> set (sv_pending st)" using O_WriteProxy i by (metis nth_mem)
    with rb have m: "m @ drop (length m) (s_buffer (sv_heap st fr)) = s_buffer (sv_heap st fr)"
      unfolding relay_buffer_iff by (metis append_take_drop_id)
    show ?thesis
    proof (cases "write_ok to ec st")
      case True
      with O_WriteProxy ev have t: "t = Server_HandleSendProxy fr ec (length m) (log_write to m ec (drop_op i st))"
        by (simp add: write_event_def)
      show ?thesis
      proof (cases "failed ec")
        case True
        with idle r t show ?thesis
          by (auto simp: Server_HandleSendProxy_def srv_flow_def relaying_iff srv_wrote_def srv_read_def)
      next
        case ok: False
        with True have o: "s_open (sv_heap st to)" by (simp add: write_ok_def)
        have w: "srv_wrote (E_Write i ec) st b = (if b = fr then [(to, m)] else [])"
          using run i O_WriteProxy ok o by (simp add: srv_wrote_def)
        from ok r t m show ?thesis
          by (auto simp: Server_HandleSendProxy_def srv_flow_def relaying_iff rd w)
      qed
    next
      case False
      then have "\<not> failed ec" "\<not> s_open (sv_heap st to)" by (simp_all add: write_ok_def)
      then have "srv_wrote (E_Write i ec) st b = []" using O_WriteProxy by (simp add: srv_wrote_def)
      with False O_WriteProxy ev rd show ?thesis by (auto simp: write_event_def intro: flow_stuck)
    qed
  qed (use ev rd in \<open>auto simp: write_event_def srv_wrote_def intro!: flow_stuck\<close>)
qed

lemma srv_step_flow:
  assumes inv: "srv_inv st" and rb: "relay_buffer st" and step: "srv_step L e st = Done t"
  shows "srv_flow e st t b"
proof (cases e)
  case (E_Run i)
  with step show ?thesis
    by (cases "isRunning (sv_core st) \<and> i < length (sv_posted st)")
      (auto simp: flow_run intro!: flow_stuck simp: srv_read_def srv_wrote_def)
next
  case (E_Accept i ec remote raw)
  show ?thesis
  proof (cases "isRunning (sv_core st) \<and> i < length (sv_pending st) \<and> (\<exists>a. sv_pending st ! i = O_Accept a)")
    case True
    with step E_Accept flow_accept [OF inv, of i] show ?thesis by auto
  next
    case False
    with step E_Accept have "t = st" by (auto split: if_splits srv_op.splits)
    with E_Accept show ?thesis by (auto intro: flow_stuck simp: srv_read_def srv_wrote_def)
  qed
next
  case (E_Read i ec bs)
  show ?thesis
  proof (cases "isRunning (sv_core st) \<and> i < length (sv_pending st)")
    case True
    then show ?thesis
    proof (cases "sv_pending st ! i")
      case (O_Read a)
      with True step E_Read flow_read_command [OF inv _ O_Read] show ?thesis by simp
    next
      case (O_ReadProxy a)
      with True step E_Read flow_read_relay [OF inv _ _ O_ReadProxy] show ?thesis by simp
    qed (use True step E_Read in \<open>auto intro!: flow_stuck simp: srv_read_def srv_wrote_def\<close>)
  next
    case False
    with step E_Read have "t = st" by auto
    with False E_Read show ?thesis by (auto intro!: flow_stuck simp: srv_read_def srv_wrote_def)
  qed
next
  case (E_Write i ec)
  show ?thesis
  proof (cases "isRunning (sv_core st) \<and> i < length (sv_pending st)")
    case True
    with step E_Write flow_write [OF inv rb, of i] show ?thesis by simp
  next
    case False
    with step E_Write have "t = st" by auto
    with False E_Write show ?thesis by (auto intro!: flow_stuck simp: srv_read_def srv_wrote_def)
  qed
next
  case (E_Timer a j)
  with step show ?thesis
    by (auto simp: timer_event_def srv_read_def srv_wrote_def intro!: srv_flowI split: if_splits prod.splits)
next
  case (E_Tick n)
  with step show ?thesis by (auto simp: srv_read_def srv_wrote_def intro!: srv_flowI)
next
  case E_Stop
  have "s_buffer (fold (\<lambda>e h. h(snd e := Session_Stop (h (snd e)))) m h a) = s_buffer (h a)"
    for m :: "(uuid, addr) um" and h a
    by (simp add: stop_all_apply)
  with E_Stop step show ?thesis
    by (auto simp: Server_Stop_def Let_def SessionMgr_Stop_def srv_read_def srv_wrote_def intro!: srv_flowI)
qed

section \<open>Every byte once\<close>

text \<open>
  The history of the relay: when a session begins to relay, what has arrived behind its last
  command is its first data; then come the bytes that its relay reads take.
\<close>

inductive srv_history ::
  "lib \<Rightarrow> Server \<Rightarrow> (addr \<Rightarrow> byte list) \<Rightarrow> (addr \<Rightarrow> (addr \<times> byte list) list) \<Rightarrow> bool" for L where
  start: "srv_history L (Server_Start listening raw Server_Construct) (\<lambda>_. []) (\<lambda>_. [])"
| step: "srv_history L st inp out \<Longrightarrow> srv_step L e st = Done t \<Longrightarrow>
    srv_history L t
      (\<lambda>b. inp b @ (if relaying t b \<and> \<not> relaying st b then srv_behind e st b else srv_read e st b))
      (\<lambda>b. out b @ srv_wrote e st b)"

lemma srv_history_reachable: "srv_history L st inp out \<Longrightarrow> srv_reachable L st"
  by (induction rule: srv_history.induct) (auto intro: srv_reachable.intros simp del: srv_step.simps)

lemma srv_history_flow:
  assumes "srv_history L st inp out"
  shows "(relaying st b \<longrightarrow> inp b = concat (map snd (out b)) @ s_buffer (sv_heap st b)) \<and>
    (b \<in># reads st \<and> \<not> relaying st b \<or> sv_fresh st \<le> b \<longrightarrow> inp b = [] \<and> out b = [])"
  using assms
proof (induction rule: srv_history.induct)
  case (start listening raw)
  have "\<not> relaying (Server_Start listening raw Server_Construct) b"
    by (simp add: Server_Start_def relaying_iff proxies_def Server_Construct_def Server_Accept_def)
  then show ?case by simp
next
  case (step st inp out e t)
  have r: "srv_reachable L st" by (rule srv_history_reachable [OF step.hyps(1)])
  note flow = srv_step_flow [OF reachable_inv [OF r] reachable_relay_buffer [OF r] step.hyps(2), of b]
  note idle = not_relaying_idle [of st b e]
  have t_inv: "srv_inv t" by (rule srv_inv_step [OF reachable_inv [OF r] step.hyps(2)])
  show ?case
  proof (cases "relaying st b")
    case True
    then have "b \<in># reads st" using proxies_reads by (simp add: relaying_iff)
    then have "b < sv_fresh st" using fresh_no_reads [OF reachable_inv [OF r]] by (metis not_le)
    with True flow step.IH show ?thesis by (auto simp: srv_flow_def)
  next
    case False
    note w = idle [OF False]
    show ?thesis
    proof (cases "relaying t b")
      case True
      with False flow have "b \<in># reads st" "s_buffer (sv_heap t b) = srv_behind e st b" by (simp_all add: srv_flow_def)
      moreover from this False step.IH have "inp b = []" "out b = []" by auto
      moreover have "b < sv_fresh t"
        using fresh_no_reads [OF t_inv, of b] True proxies_reads by (force simp: relaying_iff)
      ultimately show ?thesis using True False w by simp
    next
      case no: False
      have "inp b = [] \<and> out b = []" if "b \<in># reads t \<or> sv_fresh t \<le> b"
        using that flow no False step.IH by (auto simp: srv_flow_def)
      with no False w show ?thesis by auto
    qed
  qed
qed

text \<open>C3: the relay between two clients loses, repeats and reorders nothing: in every run of the
  server the bytes that arrived on a relaying session behind its last command, those that came
  together with the command included, are the bytes written for it to the other side, in that order,
  followed by what is still in its buffer.\<close>

theorem Server_relay_exact:
  assumes "srv_history L st inp out" and "relaying st b"
  shows "inp b = concat (map snd (out b)) @ s_buffer (sv_heap st b)"
  using srv_history_flow [OF assms(1), of b] assms(2) by blast

text \<open>The history of a list of events.\<close>

fun srv_flow_by :: "lib \<Rightarrow> srv_event list \<Rightarrow> Server \<Rightarrow> addr \<Rightarrow> byte list \<times> (addr \<times> byte list) list" where
  "srv_flow_by L [] st b = ([], [])"
| "srv_flow_by L (e # es) st b = (case srv_step L e st of
     Done t \<Rightarrow> (case srv_flow_by L es t b of (i, ws) \<Rightarrow>
       ((if relaying t b \<and> \<not> relaying st b then srv_behind e st b else srv_read e st b) @ i, srv_wrote e st b @ ws))
   | _ \<Rightarrow> ([], []))"

lemma srv_history_steps:
  "srv_history L st inp out \<Longrightarrow> srv_steps L es st = Done t \<Longrightarrow>
   srv_history L t (\<lambda>b. inp b @ fst (srv_flow_by L es st b)) (\<lambda>b. out b @ snd (srv_flow_by L es st b))"
proof (induction es arbitrary: st inp out)
  case (Cons e es)
  from Cons.prems(2) obtain s where s: "srv_step L e st = Done s" "srv_steps L es s = Done t" by auto
  from Cons.IH [OF srv_history.step [OF Cons.prems(1) s(1)] s(2)] s(1) show ?case
    by (simp add: case_prod_beta del: srv_step.simps)
qed simp

text \<open>Two sides log in, the first with the beginning of a message in the same packet.\<close>

definition early_data :: "srv_event list" where
  "early_data =
     [E_Accept 0 ec_ok None 0, E_Run 0, E_Read 1 ec_ok (3 # delimiter @ [5]), E_Run 1,
      E_Accept 0 ec_ok None 0, E_Run 1, E_Read 2 ec_ok (4 # delimiter), E_Run 1,
      E_Read 0 ec_ok (delimiter @ [8]), E_Write 2 ec_ok]"

theorem Server_relay_exact_witness:
  "srv_flow_by script_lib early_data (Server_Start True 0 Server_Construct) 0 = (5 # delimiter @ [8], [(1, 5 # delimiter)]) \<and>
   s_buffer (sv_heap (reached_by early_data) 0) = [8]"
proof -
  let ?r = "srv_flow_by script_lib early_data (Server_Start True 0 Server_Construct) 0"
  have f: "?r = (5 # delimiter @ [8], [(1, 5 # delimiter)])" by code_simp
  have "srv_steps script_lib early_data (Server_Start True 0 Server_Construct) = Done (reached_by early_data)"
    by (rule reached_by_steps) code_simp
  from srv_history_steps [OF srv_history.start this] have
    h: "srv_history script_lib (reached_by early_data)
      (\<lambda>b. [] @ fst (srv_flow_by script_lib early_data (Server_Start True 0 Server_Construct) b))
      (\<lambda>b. [] @ snd (srv_flow_by script_lib early_data (Server_Start True 0 Server_Construct) b))" .
  have "relaying (reached_by early_data) 0" by code_simp
  from Server_relay_exact [OF h this] f show ?thesis by simp
qed

end
