(* ===== verification/Nat_UPNP_Router.thy ===== *)
theory Nat_UPNP_Router
  imports Nat_UPNP
begin

text \<open>
  The port mappings of a whole session with the router: \<open>UPNPClient\<close> from its start over any
  number of mapping requests to its stop, against a router that keeps a table of mappings.
\<close>

section \<open>The router\<close>






section \<open>A session\<close>








lemma sample_number [simp]: "lexical_u16 sample_igd (to_string (unat (x :: u16))) = Some x"
proof -
  have "unat x < 65536" using unsigned_less [of x] by simp
  with to_string_digits [of "unat x"] show ?thesis by (simp add: sample_igd_def)
qed



end
