(* ===== verification/Op_End_To_End.thy ===== *)
theory Op_End_To_End
  imports Op_Claims "HOL-Library.Sublist"
begin

text \<open>
  A stream from one client through the proxy to another: the histories of the sending client of
  \<open>Op_Client\<close> and of the proxy of \<open>Op_Proxy\<close>, and a receiving client. What the sender writes as data is
  what the proxy reads for its relay, and what the proxy writes on is what the receiver reads;
  of both only a beginning may have arrived, cut in any way.
\<close>

section \<open>Whose messages a session writes\<close>

fun op_addr :: "oc_op \<Rightarrow> addr" where
  "op_addr (CP_Resolve a) = a"
| "op_addr (CP_Connect a ep) = a"
| "op_addr (CP_Login a bs) = a"
| "op_addr (CP_SendReady a bs) = a"
| "op_addr (CP_ReceiveReady a) = a"
| "op_addr (CP_Receive a) = a"
| "op_addr (CP_Write a bs) = a"

fun task_addr :: "oc_task \<Rightarrow> addr" where
  "task_addr (CT_DoConnect a ep) = a"
| "task_addr (CT_DoSend a bs) = a"
| "task_addr (CT_Login a) = a"
| "task_addr (CT_SendReady a) = a"
| "task_addr (CT_ReceiveReady a) = a"
| "task_addr (CT_Receive a) = a"

text \<open>
  Registered sessions have the id under which they are registered, and the session to which a
  message of the queue is being written has the id of the queue's first entry.
\<close>

definition oc_link :: "OClient \<Rightarrow> bool" where
  "oc_link st \<longleftrightarrow>
     (\<forall>k a. map_of (oc_mgr st) k = Some a \<longrightarrow> o_id (oc_heap st a) = k \<and> a < oc_fresh st) \<and>
     (\<forall>x \<in> set (oc_pending st). op_addr x < oc_fresh st) \<and>
     (\<forall>x \<in> set (oc_posted st). task_addr x < oc_fresh st) \<and>
     (\<forall>b m. CP_Write b m \<in> set (oc_pending st) \<or> CT_DoSend b m \<in> set (oc_posted st) \<longrightarrow>
        o_id (oc_heap st b) = fst (hd (oc_sendQueue st)))"

lemma oc_fresh_frame [simp]:
  "oc_fresh (oc_drop i st) = oc_fresh st" "oc_fresh (oc_log a bs ec st) = oc_fresh st"
  "oc_fresh (OClient_HandleDoSend ec st) = oc_fresh st"
  by (simp_all add: oc_drop_def oc_log_def OClient_HandleDoSend_def split: list.splits prod.splits option.splits)






lemma oc_link_emit [simp]: "oc_link (oc_emit x st) = oc_link st"
  by (simp add: oc_link_def)


lemma RemoveSession_id: "o_id (fst (ClientMgr_RemoveSession i (h, m)) b) = o_id (h b)"
  by (simp add: ClientMgr_RemoveSession_def OSession_Stop_def split: option.splits)

lemma Stop_id: "o_id (fst (ClientMgr_Stop (h, m)) b) = o_id (h b)"
proof -
  have "o_id (fold (\<lambda>e h. h(snd e := OSession_Stop (h (snd e)))) m h b) = o_id (h b)" for h
    by (induction m arbitrary: h) (auto simp: OSession_Stop_def)
  then show ?thesis by (simp add: ClientMgr_Stop_def)
qed

lemma Stop_mgr [simp]: "snd (ClientMgr_Stop (h, m)) = []"
  by (simp add: ClientMgr_Stop_def)



lemma oc_fresh_remove [simp]: "oc_fresh (oc_remove i st) = oc_fresh st" "oc_fresh (oc_fail a st) = oc_fresh st"
  by (simp_all add: oc_remove_def oc_fail_def Let_def)













section \<open>The history of the sender\<close>



text \<open>The messages for the session \<open>k\<close> among the entries of a queue.\<close>

definition oc_queued :: "uuid \<Rightarrow> oc_entry list \<Rightarrow> byte list list" where
  "oc_queued k q = map snd (filter (\<lambda>e. fst e = k) q)"



lemma oc_queued_simps [simp]:
  "oc_queued k [] = []" "oc_queued k (e # q) = (if fst e = k then [snd e] else []) @ oc_queued k q"
  "oc_queued k (p @ q) = oc_queued k p @ oc_queued k q"
  by (simp_all add: oc_queued_def)

text \<open>Everything but \<open>Send\<close> and the completion of a data write leaves the queue.\<close>

lemma oc_queue_handlers [simp]:
  "oc_sendQueue (oc_remove j st) = oc_sendQueue st" "oc_sendQueue (oc_fail a st) = oc_sendQueue st"
  "oc_sendQueue (OClient_Connect raw j st) = oc_sendQueue st"
  "oc_sendQueue (OClient_HandleResolve a ec ep st) = oc_sendQueue st"
  "oc_sendQueue (OClient_DoConnect a ep st) = oc_sendQueue st"
  "oc_sendQueue (OClient_HandleConnect a ec st) = oc_sendQueue st"
  "oc_sendQueue (OClient_Disconnect st) = oc_sendQueue st"
  "oc_sendQueue (OClient_Login A a st) = oc_sendQueue st"
  "oc_sendQueue (OClient_HandleLogin a ec st) = oc_sendQueue st"
  "oc_sendQueue (OClient_SendReady A a st) = oc_sendQueue st"
  "oc_sendQueue (OClient_HandleSendReady a ec st) = oc_sendQueue st"
  "oc_sendQueue (OClient_ReceiveReady a st) = oc_sendQueue st"
  "oc_sendQueue (OClient_HandleReceiveReady A a ec n st) = oc_sendQueue st"
  "oc_sendQueue (OClient_Receive a st) = oc_sendQueue st"
  "oc_sendQueue (OClient_HandleReceive a ec n st) = oc_sendQueue st"
  "oc_sendQueue (OClient_DoSend a m st) = oc_sendQueue st"
  by (simp_all add: oc_remove_def oc_fail_def OClient_Connect_def OClient_HandleResolve_def OClient_DoConnect_def
      OClient_HandleConnect_def OClient_Disconnect_def OClient_Login_def OClient_HandleLogin_def OClient_SendReady_def
      OClient_HandleSendReady_def OClient_ReceiveReady_def OClient_HandleReceiveReady_def OClient_Receive_def
      OClient_HandleReceive_def OClient_DoSend_def Let_def split: sum.splits bool.splits)

lemma oc_queue_read [simp]:
  "oc_sendQueue (oc_read_ready A i a ec bs st) = oc_sendQueue st"
  "oc_sendQueue (oc_read_data i a ec bs st) = oc_sendQueue st"
  by (simp_all add: oc_read_ready_def oc_read_data_def Let_def split: option.splits)






text \<open>The id of a session stays.\<close>

definition oc_same_ids :: "OClient \<Rightarrow> OClient \<Rightarrow> bool" where
  "oc_same_ids st t \<longleftrightarrow> oc_fresh t = oc_fresh st \<and> (\<forall>b. o_id (oc_heap t b) = o_id (oc_heap st b))"

lemma oc_same_refl [simp]: "oc_same_ids st st"
  by (simp add: oc_same_ids_def)

lemma oc_same_frame [simp]:
  "oc_same_ids st (oc_emit x t) = oc_same_ids st t" "oc_same_ids st (oc_post y t) = oc_same_ids st t"
  "oc_same_ids st (oc_start z t) = oc_same_ids st t" "oc_same_ids st (oc_log a bs ec t) = oc_same_ids st t"
  "oc_same_ids st (oc_drop i t) = oc_same_ids st t" "oc_same_ids st (t\<lparr>oc_mgr := m\<rparr>) = oc_same_ids st t"
  "oc_same_ids st (t\<lparr>oc_posted := p\<rparr>) = oc_same_ids st t" "oc_same_ids st (oc_remove j t) = oc_same_ids st t"
  "oc_same_ids st (oc_fail a t) = oc_same_ids st t" "oc_same_ids st (OClient_HandleDoSend ec t) = oc_same_ids st t"
  by (simp_all add: oc_same_ids_def oc_remove_def oc_fail_def Let_def RemoveSession_id)

lemma oc_same_session [simp]: "(\<And>s. o_id (f s) = o_id s) \<Longrightarrow> oc_same_ids st (oc_session a f t) = oc_same_ids st t"
  by (auto simp: oc_same_ids_def split: if_splits)

lemma oc_same_handlers [simp]:
  "oc_same_ids st (OClient_HandleResolve a ec ep t) = oc_same_ids st t"
  "oc_same_ids st (OClient_DoConnect a ep t) = oc_same_ids st t"
  "oc_same_ids st (OClient_HandleConnect a ec t) = oc_same_ids st t"
  "oc_same_ids st (OClient_Disconnect t) = oc_same_ids st t"
  "oc_same_ids st (OClient_Login A a t) = oc_same_ids st t"
  "oc_same_ids st (OClient_HandleLogin a ec t) = oc_same_ids st t"
  "oc_same_ids st (OClient_SendReady A a t) = oc_same_ids st t"
  "oc_same_ids st (OClient_HandleSendReady a ec t) = oc_same_ids st t"
  "oc_same_ids st (OClient_ReceiveReady a t) = oc_same_ids st t"
  "oc_same_ids st (OClient_HandleReceiveReady A a ec n t) = oc_same_ids st t"
  "oc_same_ids st (OClient_Receive a t) = oc_same_ids st t"
  "oc_same_ids st (OClient_HandleReceive a ec n t) = oc_same_ids st t"
  "oc_same_ids st (OClient_DoSend a m t) = oc_same_ids st t"
  "oc_same_ids st (oc_enqueue x t) = oc_same_ids st t"
  by (simp_all add: OClient_HandleResolve_def OClient_DoConnect_def
      OClient_HandleConnect_def OClient_Disconnect_def OClient_Login_def OClient_HandleLogin_def OClient_SendReady_def
      OClient_HandleSendReady_def OClient_ReceiveReady_def OClient_HandleReceiveReady_def OClient_Receive_def
      OClient_HandleReceive_def OClient_DoSend_def oc_enqueue_def OSession_SetReady_def Let_def
      split: sum.splits bool.splits option.splits)
    (simp_all add: oc_same_ids_def Stop_id)






section \<open>From client to client\<close>











end
