(* ===== verification/Sample_Server.thy ===== *)
theory Sample_Server
  imports Asio
begin

text \<open>
  The asynchronous server of the samples (\<open>_asio/simple/async-server/src/main.cpp\<close>) with the
  accept chain of its TLS variant (\<open>async-server-ssl\<close>), whose read and write handlers are the
  same. One thread runs the handlers; all connections read into one global buffer; a write
  refers to a local array of the handler that starts it.

  An outstanding operation is a value; its completion is a step. A read completes in two steps,
  as it does in the system: the bytes are put into the buffer, and later the handler runs. A
  call of a handler has a frame, which is alive until the handler returns; the local array of
  the handler lives in it.
\<close>

section \<open>The state\<close>

datatype ts_op =
    T_Accept nat
  | T_Handshake nat
  | T_Read nat
  | T_Filled nat nat
  | T_Write nat nat

fun ts_socket :: "ts_op \<Rightarrow> nat" where
  "ts_socket (T_Accept s) = s"
| "ts_socket (T_Handshake s) = s"
| "ts_socket (T_Read s) = s"
| "ts_socket (T_Filled s n) = s"
| "ts_socket (T_Write s f) = s"

fun is_accept :: "ts_op \<Rightarrow> bool" where
  "is_accept (T_Accept s) = True"
| "is_accept _ = False"

datatype ts_print =
    O_Peer endpoint
  | O_Reset
  | O_Error error_code
  | O_BytesRead nat
  | O_Text "byte list"
  | O_BytesWritten nat

record TServer =
  ts_ops :: "ts_op list"
  ts_sockets :: nat
  ts_frames :: nat
  ts_alive :: "nat set"
  ts_buf :: "byte list"
  ts_out :: "ts_print list"

definition ts_start :: "ts_op \<Rightarrow> TServer \<Rightarrow> TServer" where
  "ts_start oper st = st\<lparr>ts_ops := ts_ops st @ [oper]\<rparr>"

definition ts_print :: "ts_print \<Rightarrow> TServer \<Rightarrow> TServer" where
  "ts_print p st = st\<lparr>ts_out := ts_out st @ [p]\<rparr>"

definition ts_enter :: "TServer \<Rightarrow> TServer" where
  "ts_enter st = st\<lparr>ts_frames := Suc (ts_frames st), ts_alive := insert (ts_frames st) (ts_alive st)\<rparr>"

definition ts_leave :: "nat \<Rightarrow> TServer \<Rightarrow> TServer" where
  "ts_leave f st = st\<lparr>ts_alive := ts_alive st - {f}\<rparr>"

text \<open>\<open>boost::asio::error::connection_reset\<close>\<close>

definition connection_reset :: error_code where
  "connection_reset = ec_other 10054"

definition ts_failed :: "error_code \<Rightarrow> TServer \<Rightarrow> TServer" where
  "ts_failed ec = ts_print (if ec = connection_reset then O_Reset else O_Error ec)"

section \<open>The handlers\<close>

definition TServer_Accept :: "TServer \<Rightarrow> TServer" where
  "TServer_Accept st =
     ts_start (T_Accept (ts_sockets st)) (st\<lparr>ts_sockets := Suc (ts_sockets st)\<rparr>)"

text \<open>The wait of one second before the write blocks the thread and changes nothing else.\<close>

definition TServer_HandleRead :: "nat \<Rightarrow> error_code \<Rightarrow> nat \<Rightarrow> TServer \<Rightarrow> TServer" where
  "TServer_HandleRead s ec bytesRead st =
     (if failed ec then ts_failed ec st
      else (let st = (if 0 < bytesRead
                      then ts_print (O_Text (take bytesRead (ts_buf st))) (ts_print (O_BytesRead bytesRead) st)
                      else st);
                f = ts_frames st;
                st = ts_enter st;
                st = ts_start (T_Write s f) st
            in ts_leave f st))"

definition TServer_HandleWrite :: "nat \<Rightarrow> error_code \<Rightarrow> nat \<Rightarrow> TServer \<Rightarrow> TServer" where
  "TServer_HandleWrite s ec bytesWrite st =
     (if failed ec then ts_failed ec st
      else ts_start (T_Read s) (ts_print (O_BytesWritten bytesWrite) st))"

text \<open>\<open>peer\<close> is what \<open>remote_endpoint\<close> answers.\<close>

definition TServer_HandleAccept :: "nat \<Rightarrow> error_code \<Rightarrow> endpoint option \<Rightarrow> TServer \<Rightarrow> TServer" where
  "TServer_HandleAccept s ec peer st =
     (if failed ec then ts_print (O_Error ec) st
      else (let st = (case peer of Some ep \<Rightarrow> ts_print (O_Peer ep) st | None \<Rightarrow> st)
            in TServer_Accept (TServer_HandleRead s ec_ok 0 st)))"

text \<open>
  The TLS variant: the handler of the accept is a lambda that always accepts again, starts the
  handshake after a success, and whose \<open>remote_endpoint\<close> throws; the exception leaves the
  service and ends the program.
\<close>

definition TlsServer_accepted :: "nat \<Rightarrow> error_code \<Rightarrow> endpoint option \<Rightarrow> TServer \<Rightarrow> TServer run" where
  "TlsServer_accepted s ec peer st =
     (if failed ec then Done (TServer_Accept (ts_print (O_Error ec) st))
      else (case peer of
          None \<Rightarrow> Crash
        | Some ep \<Rightarrow> Done (TServer_Accept (ts_start (T_Handshake s) (ts_print (O_Peer ep) st)))))"

definition TlsServer_handshaken :: "nat \<Rightarrow> error_code \<Rightarrow> TServer \<Rightarrow> TServer" where
  "TlsServer_handshaken s ec st =
     (if failed ec then ts_print (O_Error ec) st else TServer_HandleRead s ec_ok 0 st)"

section \<open>Completions\<close>

text \<open>The operation at an index ends. Bytes are put at the front of the global buffer.\<close>

datatype ts_event =
    C_Accept nat error_code "endpoint option"
  | C_Handshake nat error_code
  | C_Fill nat "byte list"
  | C_Read nat
  | C_ReadFail nat error_code
  | C_Write nat error_code nat

fun ts_index :: "ts_event \<Rightarrow> nat" where
  "ts_index (C_Accept i ec p) = i"
| "ts_index (C_Handshake i ec) = i"
| "ts_index (C_Fill i c) = i"
| "ts_index (C_Read i) = i"
| "ts_index (C_ReadFail i ec) = i"
| "ts_index (C_Write i ec n) = i"

definition ts_drop :: "nat \<Rightarrow> TServer \<Rightarrow> TServer" where
  "ts_drop i st = st\<lparr>ts_ops := remove_at i (ts_ops st)\<rparr>"

definition ts_fill :: "nat \<Rightarrow> nat \<Rightarrow> byte list \<Rightarrow> TServer \<Rightarrow> TServer" where
  "ts_fill i s c st = st\<lparr>ts_buf := c @ drop (length c) (ts_buf st),
     ts_ops := (ts_ops st)[i := T_Filled s (length c)]\<rparr>"

definition ts_complete :: "bool \<Rightarrow> ts_event \<Rightarrow> ts_op \<Rightarrow> TServer \<Rightarrow> TServer run option" where
  "ts_complete tls e oper st = (let st' = ts_drop (ts_index e) st in
     case (e, oper) of
       (C_Accept i ec peer, T_Accept s) \<Rightarrow> Some
         (if tls then TlsServer_accepted s ec peer st' else Done (TServer_HandleAccept s ec peer st'))
     | (C_Handshake i ec, T_Handshake s) \<Rightarrow> Some (Done (TlsServer_handshaken s ec st'))
     | (C_Fill i c, T_Read s) \<Rightarrow>
         if c \<noteq> [] \<and> length c \<le> length (ts_buf st) then Some (Done (ts_fill i s c st)) else None
     | (C_Read i, T_Filled s n) \<Rightarrow> Some (Done (TServer_HandleRead s ec_ok n st'))
     | (C_ReadFail i ec, T_Read s) \<Rightarrow>
         if failed ec then Some (Done (TServer_HandleRead s ec 0 st')) else None
     | (C_Write i ec n, T_Write s f) \<Rightarrow> Some (Done (TServer_HandleWrite s ec n st'))
     | _ \<Rightarrow> None)"

definition ts_step :: "bool \<Rightarrow> ts_event \<Rightarrow> TServer \<Rightarrow> TServer run option" where
  "ts_step tls e st = (if ts_index e < length (ts_ops st)
     then ts_complete tls e (ts_ops st ! ts_index e) st else None)"

text \<open>\<open>main\<close>: the buffer of 512 bytes and the first accept.\<close>

definition TServer_main :: TServer where
  "TServer_main = TServer_Accept \<lparr>ts_ops = [], ts_sockets = 0, ts_frames = 0, ts_alive = {},
     ts_buf = replicate 512 0, ts_out = []\<rparr>"

inductive ts_reachable :: "bool \<Rightarrow> TServer \<Rightarrow> bool" for tls where
  start: "ts_reachable tls TServer_main"
| step: "ts_reachable tls st \<Longrightarrow> ts_step tls e st = Some (Done st') \<Longrightarrow> ts_reachable tls st'"

fun ts_run :: "bool \<Rightarrow> ts_event list \<Rightarrow> TServer \<Rightarrow> TServer run option" where
  "ts_run tls [] st = Some (Done st)"
| "ts_run tls (e # es) st = (case ts_step tls e st of
       Some (Done st') \<Rightarrow> ts_run tls es st'
     | r \<Rightarrow> r)"

lemma ts_run_reachable:
  "ts_reachable tls st \<Longrightarrow> ts_run tls es st = Some (Done st') \<Longrightarrow> ts_reachable tls st'"
proof (induction es arbitrary: st)
  case (Cons e es)
  then show ?case
    by (auto split: option.splits run.splits intro: ts_reachable.step)
qed simp

section \<open>What always holds\<close>

text \<open>
  Each socket has one operation, no frame is alive between two steps, and the buffer keeps its
  size; the accepts outstanding are counted apart.
\<close>

definition ts_inv :: "TServer \<Rightarrow> bool" where
  "ts_inv st \<longleftrightarrow>
     distinct (map ts_socket (ts_ops st)) \<and>
     (\<forall>oper \<in> set (ts_ops st). ts_socket oper < ts_sockets st) \<and>
     ts_alive st = {} \<and> length (ts_buf st) = 512"

definition ts_accepts :: "TServer \<Rightarrow> nat" where
  "ts_accepts st = length (filter is_accept (ts_ops st))"

definition ts_free :: "nat \<Rightarrow> TServer \<Rightarrow> bool" where
  "ts_free s st \<longleftrightarrow> ts_inv st \<and> s < ts_sockets st \<and> s \<notin> ts_socket ` set (ts_ops st)"

lemma ts_free_inv: "ts_free s st \<Longrightarrow> ts_inv st"
  by (simp add: ts_free_def)

lemma ts_free_drop:
  assumes "ts_inv st" and "i < length (ts_ops st)"
  shows "ts_free (ts_socket (ts_ops st ! i)) (ts_drop i st)"
proof -
  let ?ops = "ts_ops st"
  have split: "map ts_socket ?ops =
      map ts_socket (take i ?ops) @ ts_socket (?ops ! i) # map ts_socket (drop (Suc i) ?ops)"
    using arg_cong [OF split_nth [OF assms(2)], of "map ts_socket"] by simp
  have "distinct (map ts_socket ?ops)" using assms(1) by (simp add: ts_inv_def)
  then have "ts_socket (?ops ! i) \<notin> set (map ts_socket (remove_at i ?ops))"
    "distinct (map ts_socket (remove_at i ?ops))"
    unfolding split remove_at_def by (auto simp: image_Un)
  with assms mset_remove_at [OF assms(2)] show ?thesis
    by (auto simp: ts_free_def ts_inv_def ts_drop_def)
qed

lemma ts_accepts_drop:
  "i < length (ts_ops st) \<Longrightarrow>
   ts_accepts (ts_drop i st) = ts_accepts st - (if is_accept (ts_ops st ! i) then 1 else 0)"
  by (simp add: ts_accepts_def ts_drop_def filter_remove_at)

lemma ts_print_simps [simp]:
  "ts_free s (ts_print p st) = ts_free s st" "ts_inv (ts_print p st) = ts_inv st"
  "ts_accepts (ts_print p st) = ts_accepts st"
  "ts_free s (ts_failed ec st) = ts_free s st" "ts_inv (ts_failed ec st) = ts_inv st"
  "ts_accepts (ts_failed ec st) = ts_accepts st"
  by (simp_all add: ts_print_def ts_free_def ts_inv_def ts_accepts_def ts_failed_def)

lemma ts_accepts_start [simp]:
  "ts_accepts (ts_start oper st) = ts_accepts st + (if is_accept oper then 1 else 0)"
  by (simp add: ts_accepts_def ts_start_def)

lemma ts_inv_start: "ts_free s st \<Longrightarrow> ts_socket oper = s \<Longrightarrow> ts_inv (ts_start oper st)"
  by (auto simp: ts_free_def ts_inv_def ts_start_def)

lemma TServer_Accept_inv: "ts_inv st \<Longrightarrow> ts_inv (TServer_Accept st)"
  by (auto simp: ts_inv_def TServer_Accept_def ts_start_def)

lemma TServer_Accept_accepts [simp]: "ts_accepts (TServer_Accept st) = Suc (ts_accepts st)"
  by (simp add: TServer_Accept_def) (simp add: ts_accepts_def)

lemma TServer_HandleRead_inv: "ts_free s st \<Longrightarrow> ts_inv (TServer_HandleRead s ec n st)"
proof -
  assume free: "ts_free s st"
  have "ts_inv (ts_leave f (ts_start (T_Write s f) (ts_enter st')))"
    if "ts_free s st'" "f = ts_frames st'" for f st'
    using that by (auto simp: ts_free_def ts_inv_def ts_leave_def ts_start_def ts_enter_def)
  with free show ?thesis by (simp add: TServer_HandleRead_def ts_free_inv Let_def)
qed

lemma TServer_HandleRead_accepts [simp]:
  "ts_accepts (TServer_HandleRead s ec n st) = ts_accepts st"
proof -
  have "ts_accepts (ts_leave f st) = ts_accepts st" "ts_accepts (ts_enter st) = ts_accepts st" for f st
    by (simp_all add: ts_accepts_def ts_leave_def ts_enter_def)
  then show ?thesis by (simp add: TServer_HandleRead_def Let_def)
qed

lemma TServer_HandleWrite_inv: "ts_free s st \<Longrightarrow> ts_inv (TServer_HandleWrite s ec n st)"
  by (auto simp: TServer_HandleWrite_def ts_free_inv intro: ts_inv_start)

lemma TServer_HandleWrite_accepts [simp]:
  "ts_accepts (TServer_HandleWrite s ec n st) = ts_accepts st"
  by (simp add: TServer_HandleWrite_def)

lemma ts_fill_inv:
  assumes "ts_inv st" "i < length (ts_ops st)" "ts_ops st ! i = T_Read s" "length c \<le> length (ts_buf st)"
  shows "ts_inv (ts_fill i s c st)" "ts_accepts (ts_fill i s c st) = ts_accepts st"
proof -
  have same: "map ts_socket ((ts_ops st)[i := T_Filled s n]) = map ts_socket (ts_ops st)"
    "map is_accept ((ts_ops st)[i := T_Filled s n]) = map is_accept (ts_ops st)" for n
    using assms(2,3) by (simp_all add: map_update list_update_same_conv)
  have in_all: "(\<forall>oper \<in> set ops. ts_socket oper < m) \<longleftrightarrow> (\<forall>x \<in> set (map ts_socket ops). x < m)" for ops m
    by simp
  show "ts_inv (ts_fill i s c st)"
    using assms(1,4) unfolding ts_inv_def ts_fill_def in_all by (simp add: same del: set_map)
  have len: "length (filter is_accept ops) = length (filter id (map is_accept ops))" for ops
    by (simp add: filter_map comp_def)
  have "ts_ops (ts_fill i s c st) = (ts_ops st)[i := T_Filled s (length c)]"
    by (simp add: ts_fill_def)
  then show "ts_accepts (ts_fill i s c st) = ts_accepts st"
    unfolding ts_accepts_def len by (simp only: same)
qed

text \<open>
  A step keeps the invariant; the number of accepts changes only in the plain server, by an
  accept that fails.
\<close>

definition accept_failed :: "ts_event \<Rightarrow> bool" where
  "accept_failed e = (case e of C_Accept i ec p \<Rightarrow> failed ec | _ \<Rightarrow> False)"

lemma ts_step_inv:
  assumes inv: "ts_inv st" and step: "ts_step tls e st = Some (Done st')"
  shows "ts_inv st' \<and> ts_accepts st' \<le> ts_accepts st \<and>
    (tls \<or> \<not> accept_failed e \<longrightarrow> ts_accepts st' = ts_accepts st) \<and>
    (\<not> tls \<and> accept_failed e \<longrightarrow> ts_accepts st' = ts_accepts st - 1)"
proof -
  let ?i = "ts_index e"
  have i: "?i < length (ts_ops st)" using step by (simp add: ts_step_def split: if_splits)
  note free = ts_free_drop [OF inv i] and acc = ts_accepts_drop [OF i]
  from step i have c: "ts_complete tls e (ts_ops st ! ?i) st = Some (Done st')" by (simp add: ts_step_def)
  have one: "is_accept (ts_ops st ! ?i) \<Longrightarrow> 0 < ts_accepts st"
    using i unfolding ts_accepts_def by (auto simp: filter_empty_conv)
  show ?thesis
  proof (cases e)
    case (C_Accept j ec p)
    with c obtain s where s: "ts_ops st ! ?i = T_Accept s"
      by (cases "ts_ops st ! ?i") (simp_all add: ts_complete_def)
    with free have f: "ts_free s (ts_drop j st)" using C_Accept by simp
    from acc s C_Accept one have n: "Suc (ts_accepts (ts_drop j st)) = ts_accepts st" by simp
    show ?thesis
    proof (cases tls)
      case True
      with c C_Accept s have "TlsServer_accepted s ec p (ts_drop j st) = Done st'"
        by (simp add: ts_complete_def)
      with f n True show ?thesis
        by (auto simp: TlsServer_accepted_def ts_free_inv split: if_splits option.splits
            intro!: TServer_Accept_inv ts_inv_start)
    next
      case False
      with c C_Accept s have "st' = TServer_HandleAccept s ec p (ts_drop j st)"
        by (simp add: ts_complete_def)
      with f n False C_Accept show ?thesis
        by (auto simp: TServer_HandleAccept_def ts_free_inv accept_failed_def split: option.splits
            intro!: TServer_Accept_inv TServer_HandleRead_inv)
    qed
  next
    case (C_Handshake j ec)
    with c acc free show ?thesis
      by (cases "ts_ops st ! ?i")
         (auto simp: ts_complete_def TlsServer_handshaken_def accept_failed_def ts_free_inv intro: TServer_HandleRead_inv)
  next
    case (C_Fill j b)
    with c obtain s where "ts_ops st ! ?i = T_Read s" "length b \<le> length (ts_buf st)" "st' = ts_fill j s b st"
      by (cases "ts_ops st ! ?i") (auto simp: ts_complete_def split: if_splits)
    with C_Fill i ts_fill_inv [OF inv, of j s b] show ?thesis by (simp add: accept_failed_def)
  next
    case (C_Read j)
    with c acc free show ?thesis
      by (cases "ts_ops st ! ?i") (auto simp: ts_complete_def accept_failed_def intro: TServer_HandleRead_inv)
  next
    case (C_ReadFail j ec)
    with c acc free show ?thesis
      by (cases "ts_ops st ! ?i")
         (auto simp: ts_complete_def accept_failed_def intro: TServer_HandleRead_inv split: if_splits)
  next
    case (C_Write j ec n)
    with c acc free show ?thesis
      by (cases "ts_ops st ! ?i") (auto simp: ts_complete_def accept_failed_def intro: TServer_HandleWrite_inv)
  qed
qed

lemma ts_main_inv: "ts_inv TServer_main" "ts_accepts TServer_main = 1"
proof -
  show "ts_inv TServer_main"
    unfolding TServer_main_def by (rule TServer_Accept_inv) (simp add: ts_inv_def)
  show "ts_accepts TServer_main = 1"
    unfolding TServer_main_def TServer_Accept_accepts by (simp add: ts_accepts_def)
qed

lemma ts_reachable_inv: "ts_reachable tls st \<Longrightarrow> ts_inv st \<and> ts_accepts st \<le> 1 \<and> (tls \<longrightarrow> ts_accepts st = 1)"
proof (induction rule: ts_reachable.induct)
  case (step st e st')
  then show ?case using ts_step_inv [of st tls e st'] by auto
qed (simp add: ts_main_inv)

text \<open>In every reachable state of the two sample servers each connection has exactly one
  outstanding operation, so its reads and writes alternate; and every outstanding write refers
  to an array of a handler that has returned: the buffer given to the socket is dead for as
  long as the write is outstanding.\<close>

theorem TServer_writes_dead_buffer:
  assumes "ts_reachable tls st"
  shows "distinct (map ts_socket (ts_ops st)) \<and> (\<forall>s f. T_Write s f \<in> set (ts_ops st) \<longrightarrow> f \<notin> ts_alive st)"
  using ts_reachable_inv [OF assms] by (simp add: ts_inv_def)

lemma TServer_writes_dead_buffer_witness:
  "\<exists>st. ts_reachable False st \<and> T_Write 0 0 \<in> set (ts_ops st) \<and> 0 \<notin> ts_alive st"
proof -
  have "case ts_run False [C_Accept 0 ec_ok None] TServer_main of
      Some (Done st) \<Rightarrow> T_Write 0 0 \<in> set (ts_ops st) | _ \<Rightarrow> False"
    by code_simp
  then obtain st where "ts_run False [C_Accept 0 ec_ok None] TServer_main = Some (Done st)"
    and w: "T_Write 0 0 \<in> set (ts_ops st)"
    by (auto split: option.splits run.splits simp del: ts_run.simps)
  then have "ts_reachable False st" using ts_run_reachable [OF ts_reachable.start] by blast
  with w TServer_writes_dead_buffer [of False st] show ?thesis by blast
qed

text \<open>One failed accept ends the service of the plain server, and not that of the TLS server.
  After an accept that ends with an error no accept is outstanding in any later state of the
  plain server, so nobody can connect any more; the TLS server has exactly one in every
  reachable state.\<close>

theorem TServer_failed_accept_is_last:
  assumes "ts_reachable tls st" and "ts_step tls e st = Some (Done st1)" and "accept_failed e"
    and "ts_run tls es st1 = Some (Done st2)"
  shows "ts_accepts st2 = (if tls then 1 else 0)"
proof -
  have r1: "ts_reachable tls st1" by (rule ts_reachable.step [OF assms(1,2)])
  show ?thesis
  proof (cases tls)
    case True
    with ts_reachable_inv [OF ts_run_reachable [OF r1 assms(4)]] show ?thesis by simp
  next
    case False
    have "ts_inv s \<Longrightarrow> ts_accepts s = 0 \<Longrightarrow> ts_run tls es s = Some (Done s') \<Longrightarrow> ts_accepts s' = 0" for es s s'
    proof (induction es arbitrary: s)
      case (Cons e es)
      then obtain s1 where s1: "ts_step tls e s = Some (Done s1)" "ts_run tls es s1 = Some (Done s')"
        by (auto split: option.splits run.splits)
      with ts_step_inv [OF Cons.prems(1) s1(1)] Cons.prems(2) have "ts_inv s1" "ts_accepts s1 = 0"
        by simp_all
      then show ?case using Cons.IH s1(2) by blast
    qed simp
    moreover have "ts_inv st1" "ts_accepts st1 = 0"
      using ts_step_inv [of st tls e st1] ts_reachable_inv [OF assms(1)] assms(2,3) False by auto
    ultimately have "ts_accepts st2 = 0" using assms(4) by blast
    with False show ?thesis by simp
  qed
qed

lemma TServer_failed_accept_is_last_witness:
  "\<exists>st. ts_run False [C_Accept 0 (ec_other 24) None] TServer_main = Some (Done st) \<and> ts_accepts st = 0"
proof -
  have "case ts_step False (C_Accept 0 (ec_other 24) None) TServer_main of Some (Done st) \<Rightarrow> True | _ \<Rightarrow> False"
    by code_simp
  then obtain st where st: "ts_step False (C_Accept 0 (ec_other 24) None) TServer_main = Some (Done st)"
    by (auto split: option.splits run.splits)
  have "ts_run False [] st = Some (Done st)" by simp
  from TServer_failed_accept_is_last [OF ts_reachable.start st _ this] st show ?thesis
    by (simp add: accept_failed_def)
qed

text \<open>The connections overwrite each other's data. When the bytes of a second client arrive
  before the handler of the first one's read has run, the server prints the second client's
  bytes for both, and the first client's never: for any two texts of the same length.\<close>

theorem TServer_mixes_connections:
  assumes "a \<noteq> []" and "length b = length a" and "length a \<le> 512"
  shows "\<exists>st. ts_run False
      [C_Accept 0 ec_ok None, C_Accept 1 ec_ok None, C_Write 0 ec_ok 8, C_Write 0 ec_ok 8,
       C_Fill 1 a, C_Fill 2 b, C_Read 1, C_Read 1] TServer_main = Some (Done st) \<and>
    filter (\<lambda>p. case p of O_Text c \<Rightarrow> True | _ \<Rightarrow> False) (ts_out st) = [O_Text b, O_Text b]"
proof -
  obtain x a' where a: "a = x # a'" using assms(1) by (cases a) auto
  then obtain y b' where b: "b = y # b'" using assms(2) by (cases b) auto
  show ?thesis
    using assms a b
    by (simp add: TServer_main_def TServer_Accept_def ts_start_def ts_step_def ts_complete_def ts_drop_def
      remove_at_def TServer_HandleAccept_def TServer_HandleRead_def TServer_HandleWrite_def ts_enter_def
      ts_leave_def ts_print_def ts_fill_def Let_def)
qed

lemma TServer_mixes_connections_witness:
  "\<exists>st. ts_run False
      [C_Accept 0 ec_ok None, C_Accept 1 ec_ok None, C_Write 0 ec_ok 8, C_Write 0 ec_ok 8,
       C_Fill 1 [1, 2], C_Fill 2 [3, 4], C_Read 1, C_Read 1] TServer_main = Some (Done st) \<and>
    filter (\<lambda>p. case p of O_Text c \<Rightarrow> True | _ \<Rightarrow> False) (ts_out st) = [O_Text [3, 4], O_Text [3, 4]]"
proof -
  have "[1, 2 :: byte] \<noteq> []" "length [3, 4 :: byte] = length [1, 2 :: byte]" "length [1, 2 :: byte] \<le> 512"
    by simp_all
  from TServer_mixes_connections [OF this] show ?thesis by blast
qed

end
