(* ===== verification/Sample_Client.thy ===== *)
theory Sample_Client
  imports Sample_Server
begin

text \<open>
  The clients of the samples: the asynchronous one (\<open>_asio/simple/async-client/src/main.cpp\<close>) and its
  TLS variant (\<open>async-client-ssl\<close>), whose read and write handlers are the same, and the blocking
  client and server (\<open>sync-client\<close>, \<open>sync-server\<close>) with the exchange between them.

  The asynchronous client has one operation outstanding. As in \<open>Sample_Server\<close>, a write refers to the
  local array of the handler that starts it, which lives in the frame of that call.
\<close>

section \<open>The asynchronous client\<close>

datatype ac_op =
    A_Resolve
  | A_Connect "endpoint list" "endpoint list"
  | A_Handshake
  | A_Read
  | A_Write nat

datatype ac_print =
    P_Unresolved
  | P_Unable error_code
  | P_Trying endpoint
  | P_NotEstablished error_code
  | P_Connected endpoint
  | P_ConnectError error_code
  | P_HandshakeError error_code
  | P_Up
  | P_Reset
  | P_Failed error_code
  | P_BytesRead nat
  | P_Text "byte list"
  | P_BytesWritten nat

record AClient =
  ac_op :: "ac_op option"
  ac_frames :: nat
  ac_alive :: "nat set"
  ac_buf :: "byte list"
  ac_out :: "ac_print list"

definition ac_print :: "ac_print \<Rightarrow> AClient \<Rightarrow> AClient" where
  "ac_print p st = st\<lparr>ac_out := ac_out st @ [p]\<rparr>"

definition ac_start :: "ac_op \<Rightarrow> AClient \<Rightarrow> AClient" where
  "ac_start x st = st\<lparr>ac_op := Some x\<rparr>"

definition ac_failed :: "error_code \<Rightarrow> AClient \<Rightarrow> AClient" where
  "ac_failed ec = ac_print (if ec = connection_reset then P_Reset else P_Failed ec)"

definition AClient_HandleRead :: "error_code \<Rightarrow> nat \<Rightarrow> AClient \<Rightarrow> AClient" where
  "AClient_HandleRead ec bytesRead st =
     (if failed ec then ac_failed ec st
      else
        (let st1 = (if 0 < bytesRead
                    then ac_print (P_Text (take bytesRead (ac_buf st))) (ac_print (P_BytesRead bytesRead) st)
                    else st);
             f = ac_frames st1;
             st2 = st1\<lparr>ac_frames := Suc f, ac_alive := insert f (ac_alive st1)\<rparr>;
             st3 = ac_start (A_Write f) st2
         in st3\<lparr>ac_alive := ac_alive st3 - {f}\<rparr>))"

definition AClient_HandleWrite :: "error_code \<Rightarrow> nat \<Rightarrow> AClient \<Rightarrow> AClient" where
  "AClient_HandleWrite ec bytesWrite st =
     (if failed ec then ac_failed ec st
      else ac_start A_Read (ac_print (P_BytesWritten bytesWrite) st))"

text \<open>
  \<open>async_connect\<close> goes through the endpoints: before each attempt it calls the first lambda with
  the result of the attempt before and the endpoint that is next, and it ends with the first
  success, or with the last error; \<open>A_Connect tried eps\<close> is the attempt at the first of \<open>eps\<close>. An
  empty list ends with \<open>not_found\<close>.
\<close>

definition not_found :: error_code where
  "not_found = ec_other 3"

definition AClient_condition :: "error_code \<Rightarrow> endpoint \<Rightarrow> AClient \<Rightarrow> AClient" where
  "AClient_condition ec ep st = ac_print (P_Trying ep) (if failed ec then ac_print (P_Unable ec) st else st)"

definition AClient_connected :: "error_code \<Rightarrow> endpoint option \<Rightarrow> AClient \<Rightarrow> AClient" where
  "AClient_connected ec ep st =
     (if failed ec then ac_print (P_NotEstablished ec) st
      else AClient_HandleRead ec_ok 0 (case ep of None \<Rightarrow> st | Some e \<Rightarrow> ac_print (P_Connected e) st))"

definition ac_attempt :: "error_code \<Rightarrow> endpoint list \<Rightarrow> endpoint list \<Rightarrow> AClient \<Rightarrow> AClient" where
  "ac_attempt ec tried eps st =
     (case eps of
        [] \<Rightarrow> AClient_connected (if tried = [] then not_found else ec) None st
      | ep # _ \<Rightarrow> ac_start (A_Connect tried eps) (AClient_condition ec ep st))"

definition AClient_HandleResolve :: "error_code \<Rightarrow> endpoint list \<Rightarrow> AClient \<Rightarrow> AClient" where
  "AClient_HandleResolve ec eps st =
     (if failed ec then ac_print P_Unresolved st else ac_attempt ec_ok [] eps st)"

definition AClient_main :: AClient where
  "AClient_main = \<lparr>ac_op = Some A_Resolve, ac_frames = 0, ac_alive = {}, ac_buf = replicate 512 0, ac_out = []\<rparr>"

text \<open>The TLS client connects to the one endpoint and then shakes hands.\<close>

definition TlsClient_connected :: "error_code \<Rightarrow> AClient \<Rightarrow> AClient" where
  "TlsClient_connected ec st =
     (if failed ec then ac_print (P_ConnectError ec) st else ac_start A_Handshake st)"

definition TlsClient_handshaken :: "error_code \<Rightarrow> AClient \<Rightarrow> AClient" where
  "TlsClient_handshaken ec st =
     (if failed ec then ac_print (P_HandshakeError ec) st
      else ac_print P_Up (AClient_HandleRead ec_ok 0 st))"

definition TlsClient_main :: "endpoint \<Rightarrow> AClient" where
  "TlsClient_main ep = AClient_main\<lparr>ac_op := Some (A_Connect [] [ep])\<rparr>"

text \<open>The one operation completes.\<close>

datatype ac_event =
    AE_Resolved error_code "endpoint list"
  | AE_Connected error_code
  | AE_Handshake error_code
  | AE_Read error_code "byte list"
  | AE_Write error_code nat

definition ac_step :: "bool \<Rightarrow> ac_event \<Rightarrow> AClient \<Rightarrow> AClient option" where
  "ac_step tls e st =
     (let idle = st\<lparr>ac_op := None\<rparr> in
      case (e, ac_op st) of
        (AE_Resolved ec eps, Some A_Resolve) \<Rightarrow> Some (AClient_HandleResolve ec eps idle)
      | (AE_Connected ec, Some (A_Connect tried (ep # eps))) \<Rightarrow>
          Some (if tls then TlsClient_connected ec idle
                else if failed ec then ac_attempt ec (tried @ [ep]) eps idle
                else AClient_connected ec_ok (Some ep) idle)
      | (AE_Handshake ec, Some A_Handshake) \<Rightarrow> Some (TlsClient_handshaken ec idle)
      | (AE_Read ec bs, Some A_Read) \<Rightarrow>
          (if failed ec then Some (AClient_HandleRead ec 0 idle)
           else if bs \<noteq> [] \<and> length bs \<le> length (ac_buf st)
           then Some (AClient_HandleRead ec_ok (length bs) (idle\<lparr>ac_buf := bs @ drop (length bs) (ac_buf st)\<rparr>))
           else None)
      | (AE_Write ec n, Some (A_Write f)) \<Rightarrow> Some (AClient_HandleWrite ec n idle)
      | _ \<Rightarrow> None)"

fun ac_run :: "bool \<Rightarrow> ac_event list \<Rightarrow> AClient \<Rightarrow> AClient option" where
  "ac_run tls [] st = Some st"
| "ac_run tls (e # es) st = Option.bind (ac_step tls e st) (ac_run tls es)"

lemma ac_print_sel [simp]:
  "ac_op (ac_print p st) = ac_op st" "ac_frames (ac_print p st) = ac_frames st"
  "ac_alive (ac_print p st) = ac_alive st" "ac_buf (ac_print p st) = ac_buf st"
  "ac_out (ac_print p st) = ac_out st @ [p]"
  by (simp_all add: ac_print_def)

lemma ac_start_sel [simp]:
  "ac_op (ac_start x st) = Some x" "ac_frames (ac_start x st) = ac_frames st"
  "ac_alive (ac_start x st) = ac_alive st" "ac_buf (ac_start x st) = ac_buf st"
  "ac_out (ac_start x st) = ac_out st"
  by (simp_all add: ac_start_def)

text \<open>The prints of a sequence of failing attempts.\<close>

fun ac_trail :: "error_code \<Rightarrow> (endpoint \<times> error_code) list \<Rightarrow> ac_print list" where
  "ac_trail ec [] = []"
| "ac_trail ec ((ep, ec') # rs) = (if failed ec then [P_Unable ec] else []) @ [P_Trying ep] @ ac_trail ec' rs"

lemma ac_attempts:
  assumes "\<forall>r \<in> set rs. failed (snd r)" and "ac_op st = None"
  shows "ac_run False (map (\<lambda>r. AE_Connected (snd r)) rs @ es) (ac_attempt ec tried (map fst rs @ eps) st) =
    ac_run False es (ac_attempt (last (ec # map snd rs)) (tried @ map fst rs) eps
      (st\<lparr>ac_out := ac_out st @ ac_trail ec rs\<rparr>))"
  using assms
proof (induction rs arbitrary: st ec tried)
  case (Cons r rs)
  obtain ep ec' where r: "r = (ep, ec')" by (cases r)
  let ?st = "ac_start (A_Connect tried (ep # map fst rs @ eps)) (AClient_condition ec ep st)"
  let ?idle = "st\<lparr>ac_out := ac_out st @ (if failed ec then [P_Unable ec] else []) @ [P_Trying ep]\<rparr>"
  have "(?st\<lparr>ac_op := None\<rparr>) = ?idle"
    using Cons.prems(2) by (simp add: AClient_condition_def ac_start_def ac_print_def)
  then have "ac_step False (AE_Connected ec') ?st = Some (ac_attempt ec' (tried @ [ep]) (map fst rs @ eps) ?idle)"
    using Cons.prems(1) r by (simp add: ac_step_def Let_def)
  moreover have "ac_attempt ec tried (map fst (r # rs) @ eps) st = ?st"
    by (simp add: ac_attempt_def r)
  ultimately show ?case
    using Cons.IH [of ?idle ec' "tried @ [ep]"] Cons.prems r by simp
qed simp

lemma ac_success:
  assumes "ac_op st = None"
  shows "\<exists>t. ac_run False [AE_Connected ec_ok] (ac_attempt ec tried (ep # eps) st) = Some t \<and>
    ac_out t = ac_out st @ ac_trail ec [(ep, ec_ok)] @ [P_Connected ep] \<and>
    ac_op t = Some (A_Write (ac_frames st)) \<and> ac_frames st \<notin> ac_alive t"
  using assms
  by (simp add: ac_attempt_def ac_step_def AClient_condition_def AClient_connected_def AClient_HandleRead_def Let_def)

lemma ac_trail_append: "ac_trail ec (rs @ qs) = ac_trail ec rs @ ac_trail (last (ec # map snd rs)) qs"
  by (induction rs arbitrary: ec) auto

lemma ac_resolved:
  "ac_run False (AE_Resolved ec_ok xs # es) AClient_main = ac_run False es (ac_attempt ec_ok [] xs (AClient_main\<lparr>ac_op := None\<rparr>))"
  by (simp add: ac_step_def AClient_main_def AClient_HandleResolve_def Let_def)

text \<open>The client tries the endpoints in order, stops at the first that accepts, says of each failure
  why, and then writes; when every endpoint refuses it reports the last error and does nothing
  more. The array of the write it starts is dead when the handler has returned.\<close>

theorem AClient_connects:
  assumes "\<forall>r \<in> set rs. failed (snd r)"
  shows "\<exists>st. ac_run False (AE_Resolved ec_ok (map fst rs @ ep # eps) # map (\<lambda>r. AE_Connected (snd r)) rs @ [AE_Connected ec_ok])
      AClient_main = Some st \<and>
    ac_out st = ac_trail ec_ok (rs @ [(ep, ec_ok)]) @ [P_Connected ep] \<and> ac_op st = Some (A_Write 0) \<and> 0 \<notin> ac_alive st"
    and "rs \<noteq> [] \<Longrightarrow> \<exists>st. ac_run False (AE_Resolved ec_ok (map fst rs) # map (\<lambda>r. AE_Connected (snd r)) rs) AClient_main = Some st \<and>
    ac_out st = ac_trail ec_ok rs @ [P_NotEstablished (snd (last rs))] \<and> ac_op st = None"
proof -
  let ?m = "AClient_main\<lparr>ac_op := None\<rparr>"
  let ?s = "?m\<lparr>ac_out := ac_out ?m @ ac_trail ec_ok rs\<rparr>"
  have m: "ac_op ?s = None" "ac_frames ?s = 0" "ac_out ?s = ac_trail ec_ok rs" "ac_op ?m = None"
    by (simp_all add: AClient_main_def)
  show "\<exists>st. ac_run False (AE_Resolved ec_ok (map fst rs @ ep # eps) # map (\<lambda>r. AE_Connected (snd r)) rs @ [AE_Connected ec_ok])
      AClient_main = Some st \<and>
    ac_out st = ac_trail ec_ok (rs @ [(ep, ec_ok)]) @ [P_Connected ep] \<and> ac_op st = Some (A_Write 0) \<and> 0 \<notin> ac_alive st"
    using ac_success [OF m(1), of "last (ec_ok # map snd rs)" "map fst rs" ep eps]
    unfolding ac_resolved ac_attempts [OF assms m(4)] ac_trail_append append_Nil m(2,3) append_assoc .
  show "\<exists>st. ac_run False (AE_Resolved ec_ok (map fst rs) # map (\<lambda>r. AE_Connected (snd r)) rs) AClient_main = Some st \<and>
    ac_out st = ac_trail ec_ok rs @ [P_NotEstablished (snd (last rs))] \<and> ac_op st = None" if "rs \<noteq> []"
  proof -
    have "failed (snd (last rs))" using assms that by simp
    with ac_attempts [OF assms m(4), of "[]" ec_ok "[]" "[]"] that m show ?thesis
      unfolding ac_resolved by (simp add: ac_attempt_def AClient_connected_def last_map)
  qed
qed

section \<open>The blocking client and server\<close>

text \<open>
  The results of the calls are arguments: the error code of each call, with the bytes that a read
  puts into the buffer and the number of bytes that a write takes. \<open>char\<close>s are bytes.
\<close>

definition ascii :: "string \<Rightarrow> byte list" where
  "ascii s = map of_char s"

datatype sync_print = S_Message error_code | S_Accepted endpoint | S_Text "byte list"

text \<open>The exit code of the client and what it prints; \<open>EXIT_FAILURE\<close> is 1.\<close>

definition SyncClient_main ::
  "error_code \<Rightarrow> error_code \<times> nat \<Rightarrow> error_code \<times> byte list \<Rightarrow> nat \<times> sync_print list" where
  "SyncClient_main conn wr rd =
     (if failed conn then (1, [S_Message conn])
      else if failed (fst wr) then (1, [S_Message (fst wr)])
      else if failed (fst rd) then (1, [S_Message (fst rd)])
      else (0, [S_Text (snd rd)]))"

text \<open>
  The inner loop of the server, over the results of its rounds: a read and, if it succeeds, a
  write. The second result says whether the loop has ended; otherwise it waits in its next read.
\<close>

fun SyncServer_session :: "((error_code \<times> byte list) \<times> error_code \<times> nat) list \<Rightarrow> sync_print list \<times> bool" where
  "SyncServer_session [] = ([], False)"
| "SyncServer_session ((rd, wr) # rs) =
     (if failed (fst rd) then ([S_Message (fst rd)], True)
      else if failed (fst wr) then ([S_Text (snd rd), S_Message (fst wr)], True)
      else (S_Text (snd rd) # fst (SyncServer_session rs), snd (SyncServer_session rs)))"

text \<open>The outer loop: one client after another. An accept that fails throws, which ends the program.\<close>

fun SyncServer_main ::
  "((error_code \<times> endpoint) \<times> ((error_code \<times> byte list) \<times> error_code \<times> nat) list) list \<Rightarrow> sync_print list run" where
  "SyncServer_main [] = Done []"
| "SyncServer_main ((acc, rs) # cs) =
     (if failed (fst acc) then Crash
      else
        (let r = SyncServer_session rs
         in if snd r
            then bind_run (SyncServer_main cs) (\<lambda>ps. Done (S_Accepted (snd acc) # fst r @ ps))
            else Done (S_Accepted (snd acc) # fst r)))"

text \<open>
  The two together. The client's \<open>write_some\<close> takes the first \<open>w\<close> bytes of its text, the server reads
  them in the pieces \<open>cs\<close> and answers each; the client reads a first piece of the first answer
  and is gone, so the server's next read fails with \<open>eof\<close>.
\<close>

definition sync_exchange ::
  "nat \<Rightarrow> byte list list \<Rightarrow> nat \<Rightarrow> nat \<Rightarrow> error_code \<Rightarrow> (nat \<times> sync_print list) \<times> (sync_print list \<times> bool)" where
  "sync_exchange w cs v r eof =
     (SyncClient_main ec_ok (ec_ok, w) (ec_ok, take r (take v (ascii ''WELCOME''))),
      SyncServer_session (map (\<lambda>c. ((ec_ok, c), (ec_ok, v))) cs @ [((eof, []), (ec_ok, 0))]))"

text \<open>A write may take only a part of the text, which both programs ignore: the client ends with
  success although the server has been sent, and prints, only the beginning of the text, over one
  line for each piece; the client likewise prints only a beginning of the answer. Then the server
  is ready for the next client.\<close>

theorem Sync_exchange_partial:
  assumes "concat cs = take w (ascii ''HELLO'')" and "failed eof"
  shows "\<exists>out. sync_exchange w cs v r eof = ((0, [S_Text (take (min r v) (ascii ''WELCOME''))]), (out, True)) \<and>
    concat (map (\<lambda>p. case p of S_Text t \<Rightarrow> t | _ \<Rightarrow> []) out) = take w (ascii ''HELLO'') \<and>
    length (filter (\<lambda>p. case p of S_Text t \<Rightarrow> True | _ \<Rightarrow> False) out) = length cs"
proof -
  let ?rs = "map (\<lambda>c. ((ec_ok, c), (ec_ok, v))) cs @ [((eof, []), (ec_ok, 0))]"
  have "SyncServer_session ?rs = (map S_Text cs @ [S_Message eof], True)"
    using assms(2) by (induction cs) auto
  with assms(1) show ?thesis
    by (simp add: sync_exchange_def SyncClient_main_def min_def comp_def)
qed

lemma Sync_exchange_partial_witness:
  "snd (sync_exchange 3 [ascii ''H'', ascii ''EL''] 7 7 (ec_other 2)) =
     ([S_Text (ascii ''H''), S_Text (ascii ''EL''), S_Message (ec_other 2)], True) \<and>
   fst (sync_exchange 3 [ascii ''H'', ascii ''EL''] 7 7 (ec_other 2)) = (0, [S_Text (ascii ''WELCOME'')])"
proof -
  have "concat [ascii ''H'', ascii ''EL''] = take 3 (ascii ''HELLO'')" by (simp add: ascii_def)
  moreover have "failed (ec_other 2)" by simp
  ultimately have "fst (sync_exchange 3 [ascii ''H'', ascii ''EL''] 7 7 (ec_other 2)) =
      (0, [S_Text (take (min 7 7) (ascii ''WELCOME''))])"
    using Sync_exchange_partial [of "[ascii ''H'', ascii ''EL'']" 3 "ec_other 2" 7 7] by auto
  then show ?thesis by (simp add: sync_exchange_def ascii_def)
qed

section \<open>The network of an address, and directory listings\<close>

text \<open>
  \<open>_asio/iptonetwok/src/main.cpp\<close>: the address of the host and its network; \<open>netmask\<close> is the library's
  \<open>address_v4::netmask\<close>, the mask of the address class.
\<close>

definition network_main :: "(32 word \<Rightarrow> 32 word) \<Rightarrow> 32 word \<Rightarrow> 32 word \<times> 32 word \<times> 32 word" where
  "network_main netmask addr = (addr, netmask addr, and addr (netmask addr))"

text \<open>
  \<open>_filesystem\<close>: the entries of a directory with their type and name. \<open>ext\<close> is
  \<open>path::extension\<close>, \<open>iequals\<close> and \<open>icontains\<close> are those of Boost.
\<close>

datatype file_type = regular_file | other_file

record dir_entry =
  de_type :: file_type
  de_name :: string

text \<open>\<open>list_by_extention\<close>: the names that go to the file; \<open>None\<close> is the file that does not open.\<close>

definition list_main :: "(string \<Rightarrow> string) \<Rightarrow> (string \<Rightarrow> string \<Rightarrow> bool) \<Rightarrow> bool \<Rightarrow> dir_entry list \<Rightarrow> string list option" where
  "list_main ext iequals opens es =
     (if \<not> opens then None
      else Some (map de_name (filter (\<lambda>e. de_type e = regular_file \<and> iequals (ext (de_name e)) ''.lib'') es)))"

text \<open>
  \<open>TestRemoveDirFiles\<close>: what is left of the directory; an entry whose removal fails stays. A
  directory that cannot be read is left alone.
\<close>

definition log_file :: "(string \<Rightarrow> string) \<Rightarrow> (string \<Rightarrow> string \<Rightarrow> bool) \<Rightarrow> (string \<Rightarrow> string \<Rightarrow> bool) \<Rightarrow> dir_entry \<Rightarrow> bool" where
  "log_file ext iequals icontains e \<longleftrightarrow>
     \<not> (de_type e \<noteq> regular_file \<or> de_name e = [] \<or> ext (de_name e) = [] \<or>
        \<not> icontains (de_name e) ''TrayAgent'' \<or> \<not> iequals (ext (de_name e)) ''.log'')"

fun TestRemoveDirFiles_loop ::
  "(dir_entry \<Rightarrow> bool) \<Rightarrow> (dir_entry \<Rightarrow> bool) \<Rightarrow> dir_entry list \<Rightarrow> dir_entry list" where
  "TestRemoveDirFiles_loop wanted removable [] = []"
| "TestRemoveDirFiles_loop wanted removable (e # es) =
     (if \<not> wanted e then e # TestRemoveDirFiles_loop wanted removable es
      else if removable e then TestRemoveDirFiles_loop wanted removable es
      else e # TestRemoveDirFiles_loop wanted removable es)"

definition TestRemoveDirFiles ::
  "(string \<Rightarrow> string) \<Rightarrow> (string \<Rightarrow> string \<Rightarrow> bool) \<Rightarrow> (string \<Rightarrow> string \<Rightarrow> bool) \<Rightarrow> (dir_entry \<Rightarrow> bool) \<Rightarrow>
   error_code \<Rightarrow> dir_entry list \<Rightarrow> dir_entry list" where
  "TestRemoveDirFiles ext iequals icontains removable ec es =
     (if failed ec then es else TestRemoveDirFiles_loop (log_file ext iequals icontains) removable es)"

text \<open>Exactly the log files of the agent that can be removed go; everything else stays, in order.\<close>

theorem TestRemoveDirFiles_removes:
  "TestRemoveDirFiles ext iequals icontains removable ec es =
     filter (\<lambda>e. failed ec \<or> \<not> (log_file ext iequals icontains e \<and> removable e)) es"
proof -
  have "TestRemoveDirFiles_loop wanted removable es = filter (\<lambda>e. \<not> (wanted e \<and> removable e)) es" for wanted
    by (induction es) auto
  then show ?thesis by (simp add: TestRemoveDirFiles_def)
qed

end
