(* ===== verification/Sample_Echo.thy ===== *)
theory Sample_Echo
  imports Asio
begin

text \<open>
  The echo client of the samples (\<open>_asio/simple/async-echo-client\<close>): it connects, writes its
  message and reads until a zero byte. One operation is outstanding at a time; its completion is
  a step. The composed read asks \<open>OnCompletion\<close> how much to read next, a byte or nothing.
\<close>

section \<open>The client\<close>

datatype echo_op = H_None | H_Connect endpoint | H_Write | H_ReadSome

datatype echo_print =
    Q_Stopped
  | Q_Stopping
  | Q_ConnectFailed endpoint
  | Q_Connected endpoint
  | Q_Completion error_code
  | Q_ReadFailed error_code
  | Q_WriteFailed error_code
  | Q_Echoed "byte list"

definition MaxSize :: nat where "MaxSize = 1024"

record EchoClient =
  ec_started :: bool
  ec_msg :: "byte list"
  ec_wrt :: "byte list"
  ec_read :: "byte list"
  ec_total :: nat
  ec_open :: bool
  ec_pending :: echo_op
  ec_sent :: "byte list"
  ec_out :: "echo_print list"

definition ec_print :: "echo_print \<Rightarrow> EchoClient \<Rightarrow> EchoClient" where
  "ec_print p st = st\<lparr>ec_out := ec_out st @ [p]\<rparr>"

definition EchoClient_IsStarted :: "EchoClient \<Rightarrow> bool" where
  "EchoClient_IsStarted st = ec_started st"

definition EchoClient_Stop :: "EchoClient \<Rightarrow> EchoClient" where
  "EchoClient_Stop st =
     (if \<not> EchoClient_IsStarted st then ec_print Q_Stopped st
      else (ec_print Q_Stopping st)\<lparr>ec_started := False, ec_open := False\<rparr>)"

text \<open>The buffers are not initialised: \<open>raw\<close> is what is in them.\<close>

definition EchoClient_Construct :: "byte list \<Rightarrow> byte list \<times> byte list \<Rightarrow> EchoClient" where
  "EchoClient_Construct msg raw = \<lparr>ec_started = True, ec_msg = msg, ec_wrt = fst raw, ec_read = snd raw,
     ec_total = 0, ec_open = False, ec_pending = H_None, ec_sent = [], ec_out = []\<rparr>"

definition EchoClient_Connect :: "endpoint \<Rightarrow> EchoClient \<Rightarrow> EchoClient" where
  "EchoClient_Connect ep st = st\<lparr>ec_open := True, ec_pending := H_Connect ep\<rparr>"

definition EchoClient_Start :: "endpoint \<Rightarrow> byte list \<Rightarrow> byte list \<times> byte list \<Rightarrow> EchoClient" where
  "EchoClient_Start ep msg raw = EchoClient_Connect ep (EchoClient_Construct msg raw)"

text \<open>\<open>std::copy\<close> of a message longer than the buffer writes behind it.\<close>

definition EchoClient_OnConnect :: "endpoint \<Rightarrow> error_code \<Rightarrow> EchoClient \<Rightarrow> EchoClient run" where
  "EchoClient_OnConnect ep ec st =
     (if failed ec then Done (EchoClient_Stop (ec_print (Q_ConnectFailed ep) st))
      else if length (ec_wrt st) < length (ec_msg st) then Crash
      else Done ((ec_print (Q_Connected ep) st)
        \<lparr>ec_wrt := ec_msg st @ drop (length (ec_msg st)) (ec_wrt st), ec_pending := H_Write\<rparr>))"

definition EchoClient_OnCompletion :: "error_code \<Rightarrow> nat \<Rightarrow> EchoClient \<Rightarrow> nat \<times> EchoClient" where
  "EchoClient_OnCompletion ec bytes st =
     (if failed ec then (0, ec_print (Q_Completion ec) st)
      else (if 0 \<in> set (take bytes (ec_read st)) then 0 else 1, st))"

definition EchoClient_OnRead :: "error_code \<Rightarrow> nat \<Rightarrow> EchoClient \<Rightarrow> EchoClient" where
  "EchoClient_OnRead ec bytes st =
     (if failed ec then ec_print (Q_ReadFailed ec) st
      else ec_print (Q_Echoed (take bytes (ec_read st))) st)"

text \<open>
  \<open>async_read\<close>: what its composed operation does at its start and after each byte. It ends when
  the buffer is full, when the completion condition asks for nothing, and on an error.
\<close>

definition ec_read_next :: "error_code \<Rightarrow> EchoClient \<Rightarrow> EchoClient" where
  "ec_read_next ec st = (case EchoClient_OnCompletion ec (ec_total st) st of (n, st') \<Rightarrow>
     if n = 0 then EchoClient_OnRead ec (ec_total st) (st'\<lparr>ec_pending := H_None\<rparr>)
     else st'\<lparr>ec_pending := H_ReadSome\<rparr>)"

definition ec_read_done :: "byte \<Rightarrow> EchoClient \<Rightarrow> EchoClient" where
  "ec_read_done b st = (let st = st\<lparr>ec_read := (ec_read st)[ec_total st := b], ec_total := Suc (ec_total st)\<rparr> in
     if ec_total st = MaxSize then EchoClient_OnRead ec_ok (ec_total st) (st\<lparr>ec_pending := H_None\<rparr>)
     else ec_read_next ec_ok st)"

definition EchoClient_OnWrite :: "error_code \<Rightarrow> EchoClient \<Rightarrow> EchoClient" where
  "EchoClient_OnWrite ec st =
     (if failed ec then ec_print (Q_WriteFailed ec) st
      else ec_read_next ec_ok (st\<lparr>ec_total := 0\<rparr>))"

section \<open>Completions\<close>

datatype echo_event = Z_Connect error_code | Z_Write error_code | Z_Byte byte | Z_Fail error_code

definition ec_idle :: "EchoClient \<Rightarrow> EchoClient" where
  "ec_idle st = st\<lparr>ec_pending := H_None\<rparr>"

text \<open>A write that succeeds has sent the first \<open>msg_.size()\<close> bytes of the write buffer.\<close>

fun echo_step :: "echo_event \<Rightarrow> EchoClient \<Rightarrow> EchoClient run option" where
  "echo_step (Z_Connect ec) st = (case ec_pending st of
       H_Connect ep \<Rightarrow> Some (EchoClient_OnConnect ep ec (ec_idle st)) | _ \<Rightarrow> None)"
| "echo_step (Z_Write ec) st = (case ec_pending st of
       H_Write \<Rightarrow> Some (Done (EchoClient_OnWrite ec (if failed ec then ec_idle st
         else (ec_idle st)\<lparr>ec_sent := ec_sent st @ take (length (ec_msg st)) (ec_wrt st)\<rparr>)))
     | _ \<Rightarrow> None)"
| "echo_step (Z_Byte b) st = (case ec_pending st of
       H_ReadSome \<Rightarrow> Some (Done (ec_read_done b (ec_idle st))) | _ \<Rightarrow> None)"
| "echo_step (Z_Fail ec) st = (case ec_pending st of
       H_ReadSome \<Rightarrow> if failed ec then Some (Done (ec_read_next ec (ec_idle st))) else None | _ \<Rightarrow> None)"

text \<open>Bytes that arrive are read as long as a read is outstanding; the rest stays in the socket.\<close>

fun echo_feed :: "byte list \<Rightarrow> EchoClient \<Rightarrow> EchoClient \<times> byte list" where
  "echo_feed [] st = (st, [])"
| "echo_feed (b # bs) st = (case echo_step (Z_Byte b) st of
       Some (Done st') \<Rightarrow> echo_feed bs st'
     | _ \<Rightarrow> (st, b # bs))"

section \<open>Reading up to the zero\<close>

text \<open>What the client wants of a stream: up to and including the first zero, at most a buffer.\<close>

definition echo_wanted :: "byte list \<Rightarrow> nat" where
  "echo_wanted s = (if 0 \<in> set (take MaxSize s) then Suc (length (takeWhile (\<lambda>b. b \<noteq> 0) s)) else MaxSize)"

text \<open>The client is reading and has \<open>s\<close>, which holds no zero yet and does not fill the buffer.\<close>

definition reading :: "byte list \<Rightarrow> EchoClient \<Rightarrow> bool" where
  "reading s st \<longleftrightarrow> ec_pending st = H_ReadSome \<and> length (ec_read st) = MaxSize \<and> ec_total st = length s \<and>
     length s < MaxSize \<and> take (length s) (ec_read st) = s \<and> 0 \<notin> set s"

definition echo_finished :: "byte list \<Rightarrow> EchoClient \<Rightarrow> EchoClient \<Rightarrow> bool" where
  "echo_finished s st st' \<longleftrightarrow> ec_pending st' = H_None \<and> ec_out st' = ec_out st @ [Q_Echoed s]"

lemma take_update: "n < length xs \<Longrightarrow> take (Suc n) (xs[n := b]) = take n xs @ [b]"
  by (simp add: take_Suc_conv_app_nth)

lemma read_byte:
  assumes "reading s st"
  shows "\<exists>st'. echo_step (Z_Byte b) st = Some (Done st') \<and> ec_out st' = ec_out st @
      (if b = 0 \<or> Suc (length s) = MaxSize then [Q_Echoed (s @ [b])] else []) \<and>
    (if b = 0 \<or> Suc (length s) = MaxSize then ec_pending st' = H_None else reading (s @ [b]) st')"
proof -
  have "length s < length (ec_read st)" "take (length s) (ec_read st) = s"
    using assms by (auto simp: reading_def)
  with take_update [of "length s" "ec_read st" b]
  have t: "take (Suc (length s)) ((ec_read st)[length s := b]) = s @ [b]" by simp
  have z: "0 \<notin> set s" "ec_total st = length s" "ec_pending st = H_ReadSome" "length (ec_read st) = MaxSize"
    using assms by (simp_all add: reading_def)
  show ?thesis
    using z t assms
    by (auto simp: ec_read_done_def ec_read_next_def EchoClient_OnCompletion_def EchoClient_OnRead_def
        ec_print_def ec_idle_def reading_def Let_def)
qed

lemma echo_feed_reading:
  assumes "reading s st" and "0 \<notin> set s"
  shows "let w = echo_wanted (s @ bs); r = echo_feed bs st in
    if w \<le> length (s @ bs)
    then ec_pending (fst r) = H_None \<and> ec_out (fst r) = ec_out st @ [Q_Echoed (take w (s @ bs))] \<and>
      take w (s @ bs) @ snd r = s @ bs
    else reading (s @ bs) (fst r) \<and> ec_out (fst r) = ec_out st \<and> snd r = []"
  using assms
proof (induction bs arbitrary: s st)
  case Nil
  have "length s < MaxSize" using Nil.prems(1) by (simp add: reading_def)
  with Nil show ?case
    by (auto simp: echo_wanted_def Let_def dest: in_set_takeD)
next
  case (Cons b bs)
  obtain st' where st': "echo_step (Z_Byte b) st = Some (Done st')"
    "ec_out st' = ec_out st @ (if b = 0 \<or> Suc (length s) = MaxSize then [Q_Echoed (s @ [b])] else [])"
    "if b = 0 \<or> Suc (length s) = MaxSize then ec_pending st' = H_None else reading (s @ [b]) st'"
    using read_byte [OF Cons.prems(1), of b] by blast
  have len: "length s < MaxSize" using Cons.prems(1) by (simp add: reading_def)
  show ?case
  proof (cases "b = 0 \<or> Suc (length s) = MaxSize")
    case True
    have "echo_wanted (s @ b # bs) = Suc (length s)"
    proof (cases "b = 0")
      case True
      then have "0 \<in> set (take MaxSize (s @ b # bs))"
        using len by (simp add: take_Cons')
      moreover have "takeWhile (\<lambda>b. b \<noteq> 0) (s @ b # bs) = s"
        using True Cons.prems(2) by (induction s) auto
      ultimately show ?thesis by (simp add: echo_wanted_def)
    next
      case False
      then have "Suc (length s) = MaxSize" using \<open>b = 0 \<or> _\<close> by blast
      then have "take MaxSize (s @ b # bs) = s @ [b]" by (metis append.assoc append_Cons append_Nil append_eq_conv_conj length_append_singleton)
      with False Cons.prems(2) \<open>Suc (length s) = MaxSize\<close> show ?thesis by (simp add: echo_wanted_def)
    qed
    moreover have "echo_feed bs st' = (st', bs)"
      using st'(3) True by (cases bs) auto
    ultimately show ?thesis using st' True by (simp add: Let_def)
  next
    case False
    with st' have r: "reading (s @ [b]) st'" and o: "ec_out st' = ec_out st" by simp_all
    have "0 \<notin> set (s @ [b])" using Cons.prems(2) False by auto
    note IH = Cons.IH [OF r this, unfolded append.assoc append_Cons append_Nil o]
    have "echo_feed (b # bs) st = echo_feed bs st'" using st'(1) by simp
    then show ?thesis using IH by simp
  qed
qed

text \<open>After the write the client reads, with an empty buffer.\<close>

lemma OnWrite_reading:
  assumes "length (ec_read st) = MaxSize"
  shows "reading [] (EchoClient_OnWrite ec_ok st)" "ec_out (EchoClient_OnWrite ec_ok st) = ec_out st"
  using assms
  by (simp_all add: EchoClient_OnWrite_def ec_read_next_def EchoClient_OnCompletion_def reading_def MaxSize_def)

text \<open>A client whose connection and whose write have succeeded.\<close>

definition echo_ready :: "endpoint \<Rightarrow> byte list \<Rightarrow> byte list \<times> byte list \<Rightarrow> EchoClient" where
  "echo_ready ep msg raw = (case echo_step (Z_Connect ec_ok) (EchoClient_Start ep msg raw) of
       Some (Done st) \<Rightarrow> (case echo_step (Z_Write ec_ok) st of Some (Done st') \<Rightarrow> st' | _ \<Rightarrow> st)
     | _ \<Rightarrow> EchoClient_Start ep msg raw)"

lemma echo_ready:
  assumes "length msg \<le> MaxSize" and "length (fst raw) = MaxSize" and "length (snd raw) = MaxSize"
  shows "reading [] (echo_ready ep msg raw)" "ec_out (echo_ready ep msg raw) = [Q_Connected ep]"
    "ec_sent (echo_ready ep msg raw) = msg"
proof -
  define st where "st = (ec_idle ((ec_print (Q_Connected ep) (EchoClient_Start ep msg raw))
    \<lparr>ec_wrt := msg @ drop (length msg) (fst raw), ec_pending := H_Write\<rparr>))\<lparr>ec_sent := msg\<rparr>"
  have "echo_ready ep msg raw = EchoClient_OnWrite ec_ok st"
    using assms by (simp add: echo_ready_def EchoClient_Start_def EchoClient_Connect_def EchoClient_Construct_def
      EchoClient_OnConnect_def ec_idle_def ec_print_def st_def not_less)
  moreover have "length (ec_read st) = MaxSize" "ec_out st = [Q_Connected ep]" "ec_sent st = msg"
    using assms by (simp_all add: st_def ec_idle_def ec_print_def EchoClient_Start_def EchoClient_Connect_def
      EchoClient_Construct_def)
  moreover have "ec_sent (EchoClient_OnWrite ec_ok st) = ec_sent st"
    by (simp add: EchoClient_OnWrite_def ec_read_next_def EchoClient_OnCompletion_def)
  ultimately show "reading [] (echo_ready ep msg raw)" "ec_out (echo_ready ep msg raw) = [Q_Connected ep]"
    "ec_sent (echo_ready ep msg raw) = msg"
    using OnWrite_reading [of st] by simp_all
qed

lemma echo_feed_ready:
  assumes "length msg \<le> MaxSize" and "length (fst raw) = MaxSize" and "length (snd raw) = MaxSize"
  shows "let w = echo_wanted s; r = echo_feed s (echo_ready ep msg raw) in
    if w \<le> length s
    then ec_pending (fst r) = H_None \<and> ec_out (fst r) = [Q_Connected ep, Q_Echoed (take w s)] \<and>
      take w s @ snd r = s
    else ec_pending (fst r) = H_ReadSome \<and> ec_out (fst r) = [Q_Connected ep] \<and> snd r = []"
  using echo_feed_reading [OF echo_ready(1) [OF assms, of ep], of s] echo_ready(2) [OF assms, of ep]
  by (simp add: Let_def reading_def split: if_splits)

text \<open>The client and a server that echoes what it gets: a message without a zero that is shorter
  than the buffer does not end the read.\<close>

lemma echo_of_message:
  assumes "length msg < MaxSize" and "0 \<notin> set msg"
    and "length (fst raw) = MaxSize" and "length (snd raw) = MaxSize"
  shows "let st = echo_ready ep msg raw; r = echo_feed (ec_sent st) st in
    ec_pending (fst r) = H_ReadSome \<and> ec_out (fst r) = [Q_Connected ep] \<and> snd r = []"
proof -
  have w: "echo_wanted msg = MaxSize" using assms(2) by (auto simp: echo_wanted_def dest: in_set_takeD)
  have len: "length msg \<le> MaxSize" using assms(1) by simp
  show ?thesis
    using echo_feed_ready [OF len assms(3,4), of msg ep] w assms(1) echo_ready(3) [OF len assms(3,4)]
    by (simp add: Let_def)
qed

text \<open>C38: The echo client reads exactly up to the first zero byte, and so waits for ever for its
  own echo. Of any bytes that the server sends it takes those up to and including the first zero,
  or as many as its buffer holds when there is none among them, prints exactly these and leaves
  the rest in the socket; as long as neither has come it prints nothing and goes on reading. But
  it sends its message without a terminating zero: when the server sends back exactly what the
  client has sent, a message without a zero that is shorter than the buffer, the client has read
  all of it, still reads, and has printed nothing.\<close>

theorem EchoClient_reads_to_zero:
  assumes "length msg \<le> MaxSize" and "length (fst raw) = MaxSize" and "length (snd raw) = MaxSize"
  shows "(let w = echo_wanted s; r = echo_feed s (echo_ready ep msg raw) in
      if w \<le> length s
      then ec_pending (fst r) = H_None \<and> ec_out (fst r) = [Q_Connected ep, Q_Echoed (take w s)] \<and>
        take w s @ snd r = s
      else ec_pending (fst r) = H_ReadSome \<and> ec_out (fst r) = [Q_Connected ep] \<and> snd r = []) \<and>
    (length msg < MaxSize \<and> 0 \<notin> set msg \<longrightarrow>
      (let st = echo_ready ep msg raw; r = echo_feed (ec_sent st) st in
        ec_pending (fst r) = H_ReadSome \<and> ec_out (fst r) = [Q_Connected ep] \<and> snd r = []))"
  using echo_feed_ready [OF assms] echo_of_message [OF _ _ assms(2,3)] by blast

lemma EchoClient_reads_to_zero_witness:
  "let st = echo_ready default_endpoint [72, 105] (replicate 1024 0, replicate 1024 0);
       r = echo_feed [72, 105, 0, 33] st in
     ec_out (fst r) = [Q_Connected default_endpoint, Q_Echoed [72, 105, 0]] \<and> snd r = [33] \<and>
     ec_pending (fst (echo_feed (ec_sent st) st)) = H_ReadSome"
proof -
  have "echo_wanted [72, 105, 0, 33] = 3" by (simp add: echo_wanted_def MaxSize_def)
  then show ?thesis
    using EchoClient_reads_to_zero [of "[72, 105]" "(replicate 1024 0, replicate 1024 0)" "[72, 105, 0, 33]"
      default_endpoint]
    by (simp add: MaxSize_def Let_def)
qed

end
