(* ===== verification/Sample_Work.thy ===== *)
theory Sample_Work
  imports Asio "HOL-Library.Multiset"
begin

text \<open>
  The samples of Boost.Asio that run handlers: posting to a pool of threads, dispatching from
  inside a handler and a strand (\<open>_asio/async-work\<close>), the repeated timer (\<open>_asio/timer\<close>), the
  resolver (\<open>_asio/resolver\<close>), and the message loop with which the main functions of the
  Windows programs end. Handlers that are ready are a queue; a thread takes the first one.
\<close>

section \<open>Posting to two threads\<close>

text \<open>
  A worker is in \<open>io_service::run\<close>: it waits, is at the lock of \<open>Func\<close>, prints, or has
  returned. \<open>run\<close> returns when the queue is empty and no thread runs a handler.
\<close>

datatype worker_pc = Wk_Run | Wk_Lock nat | Wk_Print nat | Wk_Unlock nat | Wk_Return

record Post =
  po_queue :: "nat list"
  po_mutex :: "bool option"
  po_thread :: "bool \<Rightarrow> worker_pc"
  po_out :: "nat list"

definition Post_main :: Post where
  "Post_main = \<lparr>po_queue = [0..<10], po_mutex = None, po_thread = (\<lambda>_. Wk_Run), po_out = []\<rparr>"

definition po_goto :: "bool \<Rightarrow> worker_pc \<Rightarrow> Post \<Rightarrow> Post" where
  "po_goto t p st = st\<lparr>po_thread := (po_thread st)(t := p)\<rparr>"

definition po_idle :: "worker_pc \<Rightarrow> bool" where
  "po_idle p \<longleftrightarrow> p = Wk_Run \<or> p = Wk_Return"

definition Post_step :: "bool \<Rightarrow> Post \<Rightarrow> Post option" where
  "Post_step t st = (case po_thread st t of
       Wk_Run \<Rightarrow> (case po_queue st of
           i # q \<Rightarrow> Some (po_goto t (Wk_Lock i) (st\<lparr>po_queue := q\<rparr>))
         | [] \<Rightarrow> if po_idle (po_thread st (\<not> t)) then Some (po_goto t Wk_Return st) else None)
     | Wk_Lock i \<Rightarrow> if po_mutex st = None then Some (po_goto t (Wk_Print i) (st\<lparr>po_mutex := Some t\<rparr>)) else None
     | Wk_Print i \<Rightarrow> Some (po_goto t (Wk_Unlock i) (st\<lparr>po_out := po_out st @ [i]\<rparr>))
     | Wk_Unlock i \<Rightarrow> Some (po_goto t Wk_Run (st\<lparr>po_mutex := None\<rparr>))
     | Wk_Return \<Rightarrow> None)"

fun Post_steps :: "bool list \<Rightarrow> Post \<Rightarrow> Post option" where
  "Post_steps [] st = Some st"
| "Post_steps (t # ts) st = Option.bind (Post_step t st) (Post_steps ts)"

text \<open>What a thread still has to print, and what a step of it is worth.\<close>

definition po_due :: "worker_pc \<Rightarrow> nat multiset" where
  "po_due p = (case p of Wk_Lock i \<Rightarrow> {#i#} | Wk_Print i \<Rightarrow> {#i#} | _ \<Rightarrow> {#})"

definition po_work :: "worker_pc \<Rightarrow> nat" where
  "po_work p = (case p of Wk_Run \<Rightarrow> 1 | Wk_Lock i \<Rightarrow> 4 | Wk_Print i \<Rightarrow> 3 | Wk_Unlock i \<Rightarrow> 2 | Wk_Return \<Rightarrow> 0)"

definition po_left :: "Post \<Rightarrow> nat" where
  "po_left st = 4 * length (po_queue st) + po_work (po_thread st False) + po_work (po_thread st True)"

definition po_inv :: "Post \<Rightarrow> bool" where
  "po_inv st \<longleftrightarrow>
     mset (po_queue st) + po_due (po_thread st False) + po_due (po_thread st True) + mset (po_out st) = mset [0..<10] \<and>
     (\<forall>t. po_mutex st = Some t \<longleftrightarrow> (\<exists>i. po_thread st t = Wk_Print i \<or> po_thread st t = Wk_Unlock i)) \<and>
     (\<forall>t. po_thread st t = Wk_Return \<longrightarrow> po_queue st = [] \<and> po_idle (po_thread st (\<not> t)))"

lemma po_main: "po_inv Post_main" "po_left Post_main = 42"
  by (simp_all add: po_inv_def Post_main_def po_due_def po_left_def po_work_def po_idle_def)

lemma po_inv_step:
  assumes "po_inv st" and "Post_step t st = Some st'"
  shows "po_inv st' \<and> po_left st' < po_left st"
proof (cases st)
  case (fields q m p out)
  define a b where "a = p t" and "b = p (\<not> t)"
  have p: "p = (\<lambda>x. if x = t then a else b)" by (auto simp: a_def b_def fun_eq_iff)
  show ?thesis
    using assms unfolding fields p
    by (cases t; cases a; cases b; cases q; cases m)
       (auto simp: Post_step_def po_goto_def po_inv_def po_due_def po_left_def po_work_def po_idle_def
          all_bool_eq add_mset_commute split: if_splits)
qed

lemma po_steps:
  "po_inv st \<Longrightarrow> Post_steps ts st = Some st' \<Longrightarrow> po_inv st' \<and> length ts + po_left st' \<le> po_left st"
proof (induction ts arbitrary: st)
  case (Cons t ts)
  then obtain s where s: "Post_step t st = Some s" "Post_steps ts s = Some st'"
    by (cases "Post_step t st") simp_all
  with po_inv_step [OF Cons.prems(1) s(1)] Cons.IH [of s] show ?case by simp
qed simp

lemma po_stuck:
  assumes inv: "po_inv st" and stuck: "\<And>t. Post_step t st = None"
  shows "po_thread st t = Wk_Return"
proof (rule ccontr)
  assume t: "po_thread st t \<noteq> Wk_Return"
  have free: "po_mutex st = None"
  proof (rule ccontr)
    assume "po_mutex st \<noteq> None"
    then obtain o' where "po_mutex st = Some o'" by blast
    then obtain i where "po_thread st o' = Wk_Print i \<or> po_thread st o' = Wk_Unlock i"
      using inv unfolding po_inv_def by blast
    with stuck [of o'] show False by (auto simp: Post_step_def)
  qed
  have idle: "po_idle (po_thread st x)" for x
    using stuck [of x] free by (cases "po_thread st x") (auto simp: Post_step_def po_idle_def)
  with t have "po_thread st t = Wk_Run" by (auto simp: po_idle_def)
  with stuck [of t] idle [of "\<not> t"] show False
    by (auto simp: Post_step_def split: list.splits)
qed

text \<open>C39: The ten handlers that are posted to two threads are each run exactly once. Under every
  schedule the sample takes at most 42 steps; what is printed at any time are different numbers
  below ten; and when neither thread can go on both have left the service and every number was
  printed - though not always in order.\<close>

theorem Post_runs_each_once:
  assumes "Post_steps ts Post_main = Some st"
  shows "length ts \<le> 42 \<and> mset (po_out st) \<subseteq># mset [0..<10] \<and>
    ((\<forall>t. Post_step t st = None) \<longrightarrow>
       po_thread st False = Wk_Return \<and> po_thread st True = Wk_Return \<and> mset (po_out st) = mset [0..<10])"
proof -
  have inv: "po_inv st" and len: "length ts \<le> 42"
    using po_steps [OF po_main(1) assms] po_main(2) by simp_all
  have sum: "mset (po_queue st) + po_due (po_thread st False) + po_due (po_thread st True) + mset (po_out st) =
      mset [0..<10]"
    using inv by (simp add: po_inv_def)
  then have "mset (po_out st) \<subseteq># mset [0..<10]" by (metis mset_subset_eq_add_right)
  moreover have "mset (po_out st) = mset [0..<10]"
    if r: "po_thread st False = Wk_Return" "po_thread st True = Wk_Return"
  proof -
    have "po_queue st = []" using inv r unfolding po_inv_def by blast
    with sum r show ?thesis by (simp add: po_due_def)
  qed
  ultimately show ?thesis using len po_stuck [OF inv] by blast
qed

text \<open>The second thread takes the second number and prints it first.\<close>

definition post_schedule :: "bool list" where
  "post_schedule = [False, True, True, True, True] @ replicate 3 False @ concat (replicate 8 (replicate 4 False)) @
     [False, True]"

lemma Post_runs_each_once_witness:
  "\<exists>st. Post_steps post_schedule Post_main = Some st \<and> po_out st = [1, 0, 2, 3, 4, 5, 6, 7, 8, 9] \<and>
     mset (po_out st) = mset [0..<10]"
proof -
  have "case Post_steps post_schedule Post_main of None \<Rightarrow> False
    | Some st \<Rightarrow> po_out st = [1, 0, 2, 3, 4, 5, 6, 7, 8, 9] \<and> Post_step False st = None \<and> Post_step True st = None"
    by code_simp
  then obtain st where st: "Post_steps post_schedule Post_main = Some st"
    "po_out st = [1, 0, 2, 3, 4, 5, 6, 7, 8, 9]" "Post_step False st = None" "Post_step True st = None"
    by (auto split: option.splits simp del: Post_steps.simps)
  have "\<forall>t. Post_step t st = None" using st(3,4) by (metis (full_types))
  with Post_runs_each_once [OF st(1)] st show ?thesis by blast
qed

section \<open>Dispatching from inside a handler\<close>

datatype io_handler = Io_Run | Io_Func int

text \<open>
  \<open>dispatch\<close> inside a thread of the service runs the handler at once, \<open>post\<close> queues it. The
  result is what was printed and the queue.
\<close>

fun RunPostAndDispatch :: "int \<Rightarrow> nat \<Rightarrow> io_handler list \<times> int list \<Rightarrow> io_handler list \<times> int list" where
  "RunPostAndDispatch i 0 io = io"
| "RunPostAndDispatch i (Suc n) (q, out) =
     RunPostAndDispatch (i + 1) n (q @ [Io_Func i], out @ [i * 10])"

text \<open>One worker runs the handlers until there are none; \<open>n\<close> bounds their number.\<close>

fun io_run :: "nat \<Rightarrow> io_handler list \<times> int list \<Rightarrow> int list option" where
  "io_run n ([], out) = Some out"
| "io_run 0 (h # q, out) = None"
| "io_run (Suc n) (Io_Run # q, out) = io_run n (RunPostAndDispatch 0 10 (q, out))"
| "io_run (Suc n) (Io_Func i # q, out) = io_run n (q, out @ [i])"

text \<open>The dispatched handlers run first, and in order, then the posted ones.\<close>

lemma dispatch_order:
  "io_run 11 ([Io_Run], []) = Some (map (\<lambda>i. i * 10) [0..9] @ [0..9])"
  by code_simp

section \<open>A strand\<close>

text \<open>
  Twenty handlers are posted through a strand: any of the ten threads takes the next one, but
  only when none of the strand is running.
\<close>

record Strand =
  sd_queue :: "nat list"
  sd_running :: "(nat \<times> nat) option"
  sd_out :: "nat list"

definition Strand_main :: Strand where
  "Strand_main = \<lparr>sd_queue = [0..<20], sd_running = None, sd_out = []\<rparr>"

definition Strand_step :: "nat \<Rightarrow> Strand \<Rightarrow> Strand option" where
  "Strand_step t st =
     (if 10 \<le> t then None
      else (case sd_running st of
          Some (t', i) \<Rightarrow> if t = t' then Some (st\<lparr>sd_running := None, sd_out := sd_out st @ [i]\<rparr>) else None
        | None \<Rightarrow> (case sd_queue st of
            i # q \<Rightarrow> Some (st\<lparr>sd_queue := q, sd_running := Some (t, i)\<rparr>)
          | [] \<Rightarrow> None)))"

inductive strand_reachable :: "Strand \<Rightarrow> bool" where
  start: "strand_reachable Strand_main"
| step: "strand_reachable st \<Longrightarrow> Strand_step t st = Some st' \<Longrightarrow> strand_reachable st'"

lemma Strand_keeps_order:
  "strand_reachable st \<Longrightarrow>
   sd_out st @ (case sd_running st of None \<Rightarrow> [] | Some (t, i) \<Rightarrow> [i]) @ sd_queue st = [0..<20]"
proof (induction rule: strand_reachable.induct)
  case (step st t st')
  then show ?case
    by (auto simp: Strand_step_def split: if_splits option.splits list.splits)
qed (simp add: Strand_main_def)

section \<open>The repeated timer\<close>

datatype timer_print = Tm_Aborted | Tm_Expired nat | Tm_Again | Tm_Exit

record MyTimer =
  tm_timer :: "unit timer"
  tm_count :: nat
  tm_clock :: nat
  tm_out :: "timer_print list"

definition MyTimer_Run :: "MyTimer \<Rightarrow> MyTimer" where
  "MyTimer_Run st = st\<lparr>tm_timer := timer_wait () (timer_set (At (tm_clock st + 1)) (tm_timer st))\<rparr>"

definition tm_print :: "timer_print \<Rightarrow> MyTimer \<Rightarrow> MyTimer" where
  "tm_print p st = st\<lparr>tm_out := tm_out st @ [p]\<rparr>"

definition MyTimer_TimeoutHandler :: "error_code \<Rightarrow> MyTimer \<Rightarrow> MyTimer" where
  "MyTimer_TimeoutHandler ec st =
     (if ec = operation_aborted then tm_print Tm_Aborted st
      else (let st = (case expires_at (tm_timer st) of
                At e \<Rightarrow> if e < tm_clock st then tm_print (Tm_Expired (tm_count st)) st else st
              | _ \<Rightarrow> st)
            in if tm_count st < 5
               then (MyTimer_Run (tm_print Tm_Again st))\<lparr>tm_count := Suc (tm_count st)\<rparr>
               else tm_print Tm_Exit st))"

definition MyTimer_main :: MyTimer where
  "MyTimer_main = MyTimer_Run \<lparr>tm_timer = timer_new, tm_count = 0, tm_clock = 0, tm_out = []\<rparr>"

text \<open>Time passes, the wait completes, or somebody cancels the timer.\<close>

datatype my_timer_event = Tm_Tick | Tm_Fire | Tm_Cancel

fun timer_step :: "my_timer_event \<Rightarrow> MyTimer \<Rightarrow> MyTimer option" where
  "timer_step Tm_Tick st = Some (st\<lparr>tm_clock := Suc (tm_clock st)\<rparr>)"
| "timer_step Tm_Fire st =
     (if timer_ready (tm_clock st) 0 (tm_timer st)
      then (case timer_take 0 (tm_timer st) of (_, ec, t) \<Rightarrow> Some (MyTimer_TimeoutHandler ec (st\<lparr>tm_timer := t\<rparr>)))
      else None)"
| "timer_step Tm_Cancel st = Some (st\<lparr>tm_timer := timer_cancel (tm_timer st)\<rparr>)"

fun timer_steps :: "my_timer_event list \<Rightarrow> MyTimer \<Rightarrow> MyTimer option" where
  "timer_steps [] st = Some st"
| "timer_steps (e # es) st = Option.bind (timer_step e st) (timer_steps es)"

text \<open>One wait is outstanding until the last; each handler that runs uses one of six.\<close>

definition timer_inv :: "nat \<Rightarrow> MyTimer \<Rightarrow> bool" where
  "timer_inv fired st \<longleftrightarrow> length (waits (tm_timer st)) \<le> 1 \<and> tm_count st \<le> 5 \<and>
     fired + length (waits (tm_timer st)) \<le> Suc (tm_count st) \<and>
     (waits (tm_timer st) = [] \<longleftrightarrow> Tm_Exit \<in> set (tm_out st) \<or> Tm_Aborted \<in> set (tm_out st))"

lemma timer_inv_step:
  assumes "timer_inv n st" and "timer_step e st = Some st'"
  shows "timer_inv (if e = Tm_Fire then Suc n else n) st'"
proof (cases e)
  case Tm_Fire
  then obtain w where w: "waits (tm_timer st) = [w]"
    using assms by (cases "waits (tm_timer st)") (auto simp: timer_ready_def timer_inv_def split: if_splits)
  then show ?thesis
    using assms Tm_Fire
    by (auto simp: timer_ready_def timer_take_def remove_at_def timer_inv_def MyTimer_TimeoutHandler_def
        MyTimer_Run_def tm_print_def Let_def split: if_splits time_point.splits)
qed (use assms in \<open>auto simp: timer_inv_def\<close>)

lemma timer_inv_steps:
  "timer_inv n st \<Longrightarrow> timer_steps es st = Some st' \<Longrightarrow> timer_inv (n + count_list es Tm_Fire) st'"
proof (induction es arbitrary: n st)
  case (Cons e es)
  then obtain s where s: "timer_step e st = Some s" "timer_steps es s = Some st'"
    by (cases "timer_step e st") simp_all
  from Cons.IH [OF timer_inv_step [OF Cons.prems(1) s(1)] s(2)] show ?case by (simp split: if_splits)
qed simp

lemma timer_main_inv: "timer_inv 0 MyTimer_main"
  by (simp add: timer_inv_def MyTimer_main_def MyTimer_Run_def timer_new_def timer_set_def timer_cancel_def timer_wait_def)

text \<open>The repeated timer stops by itself: whatever time passes between and whenever it is
  cancelled, its handler runs at most six times, at most one wait is outstanding, and none is
  exactly when the handler has reported its last expiry or that it was aborted.\<close>

theorem MyTimer_stops:
  assumes "timer_steps es MyTimer_main = Some st"
  shows "count_list es Tm_Fire \<le> 6 \<and> length (waits (tm_timer st)) \<le> 1 \<and>
    (waits (tm_timer st) = [] \<longleftrightarrow> Tm_Exit \<in> set (tm_out st) \<or> Tm_Aborted \<in> set (tm_out st))"
  using timer_inv_steps [OF timer_main_inv assms] by (auto simp: timer_inv_def)

lemma MyTimer_stops_witness:
  "\<exists>st. timer_steps (concat (replicate 6 [Tm_Tick, Tm_Fire])) MyTimer_main = Some st \<and>
     tm_out st = replicate 5 Tm_Again @ [Tm_Exit] \<and> waits (tm_timer st) = []"
proof -
  have "case timer_steps (concat (replicate 6 [Tm_Tick, Tm_Fire])) MyTimer_main of None \<Rightarrow> False
    | Some st \<Rightarrow> tm_out st = replicate 5 Tm_Again @ [Tm_Exit]"
    by code_simp
  then obtain st where st: "timer_steps (concat (replicate 6 [Tm_Tick, Tm_Fire])) MyTimer_main = Some st"
    "tm_out st = replicate 5 Tm_Again @ [Tm_Exit]"
    by (auto split: option.splits simp del: timer_steps.simps)
  with MyTimer_stops [OF st(1)] show ?thesis by auto
qed

end
