(* ===== verification/Sample_Resolver.thy ===== *)
theory Sample_Resolver
  imports Asio
begin

text \<open>
  The resolver sample (\<open>_asio/resolver\<close>): \<open>Runnable\<close> keeps a service running on a thread of its
  own, \<open>Resolver\<close> looks up the name of an address or the addresses of a name. The parser of
  addresses is the parameter \<open>from_string\<close>; the results of a lookup are events. The second
  section is the message loop with which \<open>main\<close> and the other Windows programs wait.
\<close>

section \<open>Runnable and Resolver\<close>

datatype rv_query = Q_Address u32 | Q_Name string

datatype rv_print =
    V_AddressError error_code
  | V_NameError error_code
  | V_Address ip_address string
  | V_Name string ip_address
  | V_Error exn

text \<open>An entry of a result: its endpoint's address and its host name.\<close>

type_synonym rv_entry = "ip_address \<times> string"

record Resolver =
  rv_running :: bool
  rv_work :: bool
  rv_stopped :: bool
  rv_thread :: bool
  rv_pending :: "rv_query list"
  rv_out :: "rv_print list"

definition RvRunnable_Construct :: Resolver where
  "RvRunnable_Construct = \<lparr>rv_running = False, rv_work = False, rv_stopped = False, rv_thread = False,
     rv_pending = [], rv_out = []\<rparr>"

definition RvRunnable_IsRunning :: "Resolver \<Rightarrow> bool" where
  "RvRunnable_IsRunning st = rv_running st"

definition RvRunnable_Run :: "Resolver \<Rightarrow> Resolver" where
  "RvRunnable_Run st = (if rv_running st then st
     else st\<lparr>rv_work := True, rv_thread := True, rv_running := True\<rparr>)"

text \<open>The service is stopped and its thread joined: no handler runs any more.\<close>

definition RvRunnable_Stop :: "Resolver \<Rightarrow> Resolver" where
  "RvRunnable_Stop st = (if \<not> RvRunnable_IsRunning st then st
     else st\<lparr>rv_running := False, rv_work := False, rv_stopped := True, rv_thread := False\<rparr>)"

definition Resolver_Construct :: Resolver where
  "Resolver_Construct = RvRunnable_Run RvRunnable_Construct"

definition rv_resolve :: "rv_query \<Rightarrow> Resolver \<Rightarrow> Resolver" where
  "rv_resolve q st = st\<lparr>rv_pending := rv_pending st @ [q]\<rparr>"

definition rv_print :: "rv_print \<Rightarrow> Resolver \<Rightarrow> Resolver" where
  "rv_print p st = st\<lparr>rv_out := rv_out st @ [p]\<rparr>"

text \<open>\<open>to_v4\<close> of an IPv6 address throws.\<close>

definition Resolver_HostByAddress :: "ip_address \<Rightarrow> Resolver \<Rightarrow> exn + Resolver" where
  "Resolver_HostByAddress a st = (case a of
       V4 ip \<Rightarrow> Inr (rv_resolve (Q_Address ip) st)
     | V6 _ \<Rightarrow> Inl lib_error)"

definition Resolver_HostByName :: "string \<Rightarrow> Resolver \<Rightarrow> exn + Resolver" where
  "Resolver_HostByName h st = Inr (rv_resolve (Q_Name h) st)"

definition Resolver_HandleResolveByAddress :: "error_code \<Rightarrow> rv_entry list \<Rightarrow> Resolver \<Rightarrow> Resolver" where
  "Resolver_HandleResolveByAddress err es st =
     (if failed err then rv_print (V_AddressError err) st
      else foldl (\<lambda>st (a, h). rv_print (V_Address a h) st) st es)"

definition Resolver_HandleResolveByName :: "error_code \<Rightarrow> rv_entry list \<Rightarrow> Resolver \<Rightarrow> Resolver" where
  "Resolver_HandleResolveByName err es st =
     (if failed err then rv_print (V_NameError err) st
      else foldl (\<lambda>st (a, h). rv_print (V_Name h a) st) st es)"

definition Resolver_Resolve :: "(string \<Rightarrow> exn + ip_address) \<Rightarrow> string \<Rightarrow> Resolver \<Rightarrow> Resolver" where
  "Resolver_Resolve from_string text st =
     (case (case from_string text of Inl e \<Rightarrow> Inl e | Inr a \<Rightarrow> Resolver_HostByAddress a st) of
        Inr st' \<Rightarrow> st'
      | Inl _ \<Rightarrow> (case Resolver_HostByName text st of
            Inr st' \<Rightarrow> st'
          | Inl e \<Rightarrow> rv_print (V_Error e) st))"

text \<open>The service completes the first lookup that is pending.\<close>

definition rv_complete :: "error_code \<Rightarrow> rv_entry list \<Rightarrow> Resolver \<Rightarrow> Resolver option" where
  "rv_complete err es st =
     (if \<not> rv_thread st then None
      else (case rv_pending st of
          [] \<Rightarrow> None
        | Q_Address _ # q \<Rightarrow> Some (Resolver_HandleResolveByAddress err es (st\<lparr>rv_pending := q\<rparr>))
        | Q_Name _ # q \<Rightarrow> Some (Resolver_HandleResolveByName err es (st\<lparr>rv_pending := q\<rparr>))))"

lemma rv_prints:
  "foldl (\<lambda>st (a, h). rv_print (f a h) st) st es = st\<lparr>rv_out := rv_out st @ map (\<lambda>(a, h). f a h) es\<rparr>"
  by (induction es arbitrary: st) (auto simp: rv_print_def)

text \<open>What a text is looked up as. A dotted IPv4 address starts one reverse lookup of that
  address, whose every result is printed; any other text is looked up as a host name - an IPv6
  address among them, whose conversion to IPv4 throws into the same catch block.\<close>

theorem Resolver_lookup:
  assumes "st = Resolver_Construct"
  shows "(\<forall>ip. from_string t = Inr (V4 ip) \<longrightarrow>
      (\<exists>st'. rv_complete ec_ok es (Resolver_Resolve from_string t st) = Some st' \<and>
         rv_pending (Resolver_Resolve from_string t st) = [Q_Address ip] \<and>
         rv_out st' = map (\<lambda>(a, h). V_Address a h) es \<and> rv_pending st' = [])) \<and>
    ((\<forall>ip. from_string t \<noteq> Inr (V4 ip)) \<longrightarrow>
      (\<exists>st'. rv_complete ec_ok es (Resolver_Resolve from_string t st) = Some st' \<and>
         rv_pending (Resolver_Resolve from_string t st) = [Q_Name t] \<and>
         rv_out st' = map (\<lambda>(a, h). V_Name h a) es \<and> rv_pending st' = []))"
proof -
  have "from_string t = Inr (V6 x) \<or> (\<exists>e. from_string t = Inl e)"
    if "\<And>ip. from_string t \<noteq> Inr (V4 ip)" "from_string t \<noteq> Inl e" "from_string t = Inr (V6 x)" for x e
    using that by blast
  then show ?thesis
    using assms
    by (cases "from_string t")
       (auto simp: Resolver_Resolve_def Resolver_HostByAddress_def Resolver_HostByName_def rv_resolve_def
         rv_complete_def Resolver_Construct_def RvRunnable_Run_def RvRunnable_Construct_def
         Resolver_HandleResolveByAddress_def Resolver_HandleResolveByName_def rv_prints split: ip_address.splits)
qed

lemma Resolver_lookup_witness:
  "rv_pending (Resolver_Resolve (\<lambda>t. if t = ''10.0.0.1'' then Inr (V4 0x0A000001) else Inr (V6 1)) ''::1''
     Resolver_Construct) = [Q_Name ''::1'']"
  using Resolver_lookup [OF refl, of "\<lambda>t. if t = ''10.0.0.1'' then Inr (V4 0x0A000001) else Inr (V6 1)" "''::1''"]
  by auto

section \<open>The message loop\<close>

text \<open>
  \<open>GetMessage\<close> returns 0 for \<open>WM_QUIT\<close>, -1 on an error and another number for every other
  message. The loop runs over the results in order; when they are used up it waits.
\<close>

datatype loop_end = Left nat | Waiting nat

fun message_loop :: "int list \<Rightarrow> nat \<Rightarrow> loop_end" where
  "message_loop [] dispatched = Waiting dispatched"
| "message_loop (r # rs) dispatched =
     (if \<not> (r \<noteq> 0) then message_loop rs (Suc dispatched) else Left dispatched)"

text \<open>The condition of the message loop is inverted: it leaves at the first message that is not
  \<open>WM_QUIT\<close>, without dispatching it, and goes on waiting when told to quit.\<close>

theorem message_loop_inverted:
  shows "(\<forall>r. r \<noteq> 0 \<longrightarrow> message_loop (replicate n 0 @ r # rs) 0 = Left n) \<and>
    message_loop (replicate n 0) 0 = Waiting n"
proof -
  have "message_loop (replicate n 0 @ rs) k = message_loop rs (k + n)" for rs k
    by (induction n arbitrary: k) simp_all
  from this [of _ 0] this [of "[]" 0] show ?thesis by simp
qed

lemma message_loop_inverted_witness:
  "message_loop [1, 0, 0] 0 = Left 0 \<and> message_loop [0, 0] 0 = Waiting 2"
  using message_loop_inverted [of 0 "[0, 0]"] message_loop_inverted [of 2 "[]"] by (simp add: numeral_2_eq_2)

end
