(* ===== verification/Sample_Data.thy ===== *)
theory Sample_Data
  imports Prelude
begin

text \<open>
  The samples about data: the archives of \<open>_serialization/serialization\<close>, the container with
  three indices of \<open>_containers/multi-index\<close>, and the two processes that share a memory segment
  (\<open>_interprocess/named_memory_server\<close>, \<open>named_memory_client\<close>).
\<close>

section \<open>Archives\<close>

text \<open>
  An archive is the sequence of the primitive values that went into it; Boost.Serialization
  writes a class version before the first object of a class that has one, the length before the
  elements of a vector, and the exported name of the dynamic class before an object that is
  saved through a pointer to its base. Reading a value of another kind, past the end, or a class
  that is not exported, throws.
\<close>

datatype prim = A_UInt u32 | A_Bool bool | A_String string | A_Version nat | A_Count nat | A_Class string

type_synonym archive = "prim list"

fun get_uint :: "archive \<Rightarrow> exn + u32 \<times> archive" where
  "get_uint (A_UInt x # ar) = Inr (x, ar)"
| "get_uint _ = Inl lib_error"

fun get_bool :: "archive \<Rightarrow> exn + bool \<times> archive" where
  "get_bool (A_Bool x # ar) = Inr (x, ar)"
| "get_bool _ = Inl lib_error"


text \<open>The class with a version of its own: it saves both fields and loads the second since version 1.\<close>

record Test =
  ts_data :: u32
  ts_extra :: bool

definition Test_Construct :: Test where
  "Test_Construct = \<lparr>ts_data = 0, ts_extra = False\<rparr>"

definition Test_version :: nat where "Test_version = 1"

definition Test_save :: "Test \<Rightarrow> archive" where
  "Test_save t = [A_UInt (ts_data t), A_Bool (ts_extra t)]"

definition Test_load :: "nat \<Rightarrow> archive \<Rightarrow> Test \<Rightarrow> exn + Test \<times> archive" where
  "Test_load version ar t = (case get_uint ar of
       Inl e \<Rightarrow> Inl e
     | Inr (d, ar) \<Rightarrow>
         if 0 < version
         then (case get_bool ar of Inl e \<Rightarrow> Inl e | Inr (x, ar) \<Rightarrow> Inr (t\<lparr>ts_data := d, ts_extra := x\<rparr>, ar))
         else Inr (t\<lparr>ts_data := d\<rparr>, ar))"

definition SerializeTest :: "Test \<Rightarrow> archive" where
  "SerializeTest t = A_Version Test_version # Test_save t"

fun DeserializeTest :: "archive \<Rightarrow> Test \<Rightarrow> exn + Test \<times> archive" where
  "DeserializeTest (A_Version v # ar) t = (if Test_version < v then Inl lib_error else Test_load v ar t)"
| "DeserializeTest _ t = Inl lib_error"

text \<open>The class hierarchy: an abstract base with the power, two classes with a name.\<close>

datatype Character = LukeSkywalker u32 string | DarthVader u32 string

fun Character_GetPower :: "Character \<Rightarrow> u32" where
  "Character_GetPower (LukeSkywalker p n) = p"
| "Character_GetPower (DarthVader p n) = p"


fun LukeSkywalker_GetName :: "Character \<Rightarrow> string" where
  "LukeSkywalker_GetName (LukeSkywalker p n) = n"
| "LukeSkywalker_GetName (DarthVader p n) = n"















text \<open>A saved \<open>Test\<close> is loaded with both its fields; an archive of the class before it had a
  version is still read, and leaves the field that the version added as it was.\<close>

theorem Test_versions:
  "DeserializeTest (SerializeTest t @ ar) t0 = Inr (t, ar) \<and>
   DeserializeTest (A_Version 0 # A_UInt d # ar) t0 = Inr (t0\<lparr>ts_data := d\<rparr>, ar)"
  by (simp add: SerializeTest_def Test_save_def Test_load_def Test_version_def)

section \<open>A container with three indices\<close>

record Employee =
  em_id :: int
  em_name :: string
  em_ssnumber :: int

text \<open>
  The first index compares ids. The ids and the social security numbers are unique: an element that repeats one is not inserted. The elements are kept
  in the order of insertion, and the two unique indices are views in the order of their keys; the
  index by name, which nothing uses, is not modelled.
\<close>

record employee_set =
  es_inserted :: "Employee list"

definition es_by_id :: "employee_set \<Rightarrow> Employee list" where
  "es_by_id s = sort_key em_id (es_inserted s)"

definition es_by_ssnumber :: "employee_set \<Rightarrow> Employee list" where
  "es_by_ssnumber s = sort_key em_ssnumber (es_inserted s)"

definition es_emplace :: "Employee \<Rightarrow> employee_set \<Rightarrow> employee_set \<times> bool" where
  "es_emplace e s =
     (if (\<exists>x \<in> set (es_inserted s). em_id x = em_id e \<or> em_ssnumber x = em_ssnumber e) then (s, False)
      else (s\<lparr>es_inserted := es_inserted s @ [e]\<rparr>, True))"

definition es_ok :: "employee_set \<Rightarrow> bool" where
  "es_ok s \<longleftrightarrow> distinct (map em_id (es_inserted s)) \<and> distinct (map em_ssnumber (es_inserted s))"

lemma es_emplace_ok: "es_ok s \<Longrightarrow> es_ok (fst (es_emplace e s))"
  by (auto simp: es_ok_def es_emplace_def)

definition multi_index_main :: "employee_set \<times> nat list" where
  "multi_index_main =
     foldl (\<lambda>(s, bad) (k, e). case es_emplace e s of (s', True) \<Rightarrow> (s', bad) | (s', False) \<Rightarrow> (s', bad @ [k]))
       (\<lparr>es_inserted = []\<rparr>, [])
       [(1, \<lparr>em_id = 1, em_name = ''Oleg'', em_ssnumber = 123\<rparr>),
        (2, \<lparr>em_id = 2, em_name = ''Vasya'', em_ssnumber = 321\<rparr>),
        (3, \<lparr>em_id = 2, em_name = ''Vasya'', em_ssnumber = 321\<rparr>)]"

lemma multi_index_main_reports: "snd multi_index_main = [3] \<and> es_ok (fst multi_index_main)"
  by code_simp

lemma es_views_sorted:
  assumes "es_ok s"
  shows "sorted_wrt (<) (map em_id (es_by_id s)) \<and> sorted_wrt (<) (map em_ssnumber (es_by_ssnumber s))"
  using assms by (simp add: es_ok_def es_by_id_def es_by_ssnumber_def strict_sorted_iff distinct_map)

section \<open>A shared segment\<close>

text \<open>
  A segment holds named arrays of pairs; \<open>find\<close> answers the number of elements of an array, or 0.
  The system holds at most one segment under the name.
\<close>

type_synonym segment = "(string, (int \<times> int) list) um"

definition sg_find :: "string \<Rightarrow> segment \<Rightarrow> nat" where
  "sg_find n s = (case map_of s n of None \<Rightarrow> 0 | Some a \<Rightarrow> length a)"

definition server_objects :: segment where
  "server_objects = [(''MyType instance'', [(0, 0)]), (''MyType array'', replicate 10 (0, 0)),
     (''MyType array from it'', [(0, 0), (1, 1), (2, 2)])]"

text \<open>
  The server: what is under the name is removed, the objects are made, and at once it is checked
  that another process has destroyed them; the segment is removed at the end. \<open>between\<close> is what
  the other processes do to the segment before the check.
\<close>

definition memory_server_main :: "(segment \<Rightarrow> segment) \<Rightarrow> nat \<times> segment option" where
  "memory_server_main between = (let s = between server_objects in
     (if sg_find ''MyType array'' s \<noteq> 0 \<or> sg_find ''MyType instance'' s \<noteq> 0 \<or>
         sg_find ''MyType array from it'' s \<noteq> 0 then 1 else 0, None))"

text \<open>The client: its exit code and the segment; with no segment the exception is reported and the exit code is 0.\<close>

definition memory_client_main :: "segment option \<Rightarrow> nat \<times> segment option" where
  "memory_client_main seg = (case seg of
       None \<Rightarrow> (0, None)
     | Some s \<Rightarrow>
         if sg_find ''MyType array'' s \<noteq> 10 then (1, Some s)
         else if sg_find ''MyType instance'' s \<noteq> 1 then (1, Some s)
         else if sg_find ''MyType array from it'' s \<noteq> 3 then (1, Some s)
         else (0, Some (um_erase ''MyType array from it''
           (um_erase ''MyType instance'' (um_erase ''MyType array'' s)))))"

text \<open>The two processes of the shared memory sample fit together: the client finds the arrays
  that the server makes, with ten, one and three elements, and destroys them, after which the
  server's check succeeds. But the server does not wait for it: run as it is written it always
  fails its own check, and it leaves no segment behind for the client.\<close>

theorem Shared_memory_pair:
  "memory_server_main (\<lambda>s. case snd (memory_client_main (Some s)) of Some s' \<Rightarrow> s' | None \<Rightarrow> s) = (0, None) \<and>
   fst (memory_client_main (Some server_objects)) = 0 \<and>
   memory_server_main (\<lambda>s. s) = (1, None) \<and>
   memory_client_main (snd (memory_server_main (\<lambda>s. s))) = (0, None)"
  by code_simp

end
