(* ===== verification/Spec2Isabelle.thy ===== *)
theory Spec2Isabelle
  imports Nat_Base_Claims Nat_Server_Claims Nat_UPNP Nat_Client_Claims Op_Claims Icmp_Claims Sched_Claims Printer_Claims Printer_Server
    Nat_Test Downloader Thread_Condition Thread_App Thread_Loops Ipc_Client Uuid_Digest NetBIOS
    Nat_End_To_End Nat_Relay Nat_UPNP_Router Op_End_To_End
    Sample_Server Sample_Client Sample_Echo Sample_Work Sample_Resolver Sample_Data
begin

text \<open>
  Verification library for the network programs of this repository: the NAT traversal library
  \<open>opennat\<close>, the relay \<open>openproxy\<close>, the printer proxies, the ICMP scanner, the task
  scheduler, and the smaller programs that have a state or an algorithm of their own, all under
  \<open>src/modules\<close>. This theory only collects the others; each theory opens with what it holds.

  \<^bold>\<open>The programs.\<close>

  \<open>_asio/opennat\<close>: a server keeps the sessions of clients that log in (\<open>Server.cpp\<close>), answers
  and sends heartbeats, tells subscribers who comes and goes, forwards messages between
  clients, and relays pairs of proxy sessions. A client (\<open>Client.cpp\<close>) logs in, offers and
  accepts direct connections to other clients, opening ports with UPnP (\<open>UPNPClient.cpp\<close>),
  and falls back to a relayed session through the server. Both share \<open>Session.cpp\<close>, the
  managers, \<open>Core.cpp\<close>, \<open>Utils.cpp\<close> and the messages of \<open>Command.proto\<close>.

  \<open>_asio/openproxy\<close>: a proxy pairs a downstream and an upstream session that log in with the
  same session id, exchanges their greetings and then relays delimited messages
  (\<open>Proxy.cpp\<close>); \<open>Client.cpp\<close> is its client.

  \<open>_proxy_printer\<close>: a proxy client and a proxy server in a row between a printing client and a
  print server, each with one accepted and one connected session (\<open>ProxyClient.cpp\<close>,
  \<open>ProxyServer.cpp\<close>).

  \<open>icmp_scanner\<close>: sends echo requests to a range of addresses and reports who answers.

  \<open>_scheduling/taks-scheduler\<close>: runs tasks after a delay, repeatedly if asked, on their own
  threads, under a watcher thread.

  Smaller programs: the download of a file over HTTP (\<open>property_tree\<close>, \<open>Downloader.cpp\<close>); clients
  that talk through a named message queue (\<open>_interprocess/ipc_client\<close>); the scan of the network
  neighbourhood (\<open>netbios_scanner\<close>); identifiers from a digest (\<open>_uuid/uuid_sha1\<close>,
  \<open>agent_uuid\<close>); the test of \<open>opennat\<close> with two clients (\<open>_asio/opennattest\<close>); a resolver, the
  asynchronous servers and clients, a blocking client and server, an echo client, a timer and
  posted work (\<open>_asio\<close>); the listing and the removal of directories; a condition variable, a
  monitor, an interruption, a promise and the application object that waits for its termination
  (\<open>_multi-threading\<close>); archives, a container with several indices and shared memory
  (\<open>_serialization\<close>, \<open>_containers\<close>, \<open>_interprocess\<close>).

  \<^bold>\<open>Theories.\<close>

  \<^item> \<open>Prelude\<close>, \<open>Asio\<close>: words, exceptions as values, the outcome of a handler (\<open>run\<close>), the
    containers as association lists (\<open>um_simps\<close>), error codes, deadline timers, and the locale
    \<open>framing\<close> for messages that are cut from a stream at a delimiter.
  \<^item> \<open>Registries\<close>, \<open>Send_Queue\<close>: the interfaces between components as locales: a registry of
    sessions by id, a registry of pairs, a queue of outgoing messages with one write in flight
    (\<open>guarded_queue\<close>, \<open>send_queue\<close>), each with its abstract specification and the refinement
    proved once. They are interpreted on the managers and queues of both programs.
  \<^item> \<open>Nat_Types\<close>, \<open>Nat_Utils\<close>, \<open>Nat_Session\<close>, \<open>Nat_Core\<close>: messages, the session header, stream
    helpers, sessions and managers, the threads of the core. \<open>Nat_Base_Claims\<close>: round trips,
    delivery of framed messages, refinement of the managers.
  \<^item> \<open>Nat_Server\<close>: the server as a machine, one definition per handler. \<open>Nat_Server_Props\<close>,
    \<open>Nat_Server_Inv\<close>: the invariants of its reachable states (one write of the queue, one read
    per session, stable relay buffers). \<open>Nat_Server_Claims\<close>: its properties. \<open>Nat_Relay\<close>: the
    histories of its relay, in which every byte is passed on once.
  \<^item> \<open>Nat_UPNP\<close>: the UPnP client against an arbitrary router; \<open>Nat_UPNP_Router\<close>: a whole session
    against a router that keeps a table of mappings. \<open>Nat_Client\<close>, \<open>Nat_Client_Props\<close>,
    \<open>Nat_Client_Claims\<close>: the client likewise.
  \<^item> \<open>Nat_End_To_End\<close>: a client, the server and another client put together: the way of a message
    through all three, with the locale \<open>chunk_reader\<close> for a read that is fed piece by piece.
  \<^item> \<open>Op_Types\<close>, \<open>Op_Session\<close>: events and their serialisation, sessions and managers.
    \<open>Op_Proxy\<close>, \<open>Op_Proxy_Inv\<close>, \<open>Op_Proxy_Claims\<close>: the proxy machine, its invariant, and the
    exactness of the relay over its histories. \<open>Op_Client\<close>, \<open>Op_Client_Props\<close>, \<open>Op_Claims\<close>:
    the client, and the making of a session. \<open>Op_End_To_End\<close>: the histories of the sending client
    and of the proxy and a receiving client put together.
  \<^item> \<open>Printer_Client\<close>, \<open>Printer_Claims\<close>: the printer proxy's client, its invariant and its
    properties. \<open>Printer_Server\<close>: its server, on the same sessions extended, and its properties.
  \<^item> \<open>Icmp_Header\<close>: the packet headers and the checksum against RFC 1071. \<open>Icmp_Scanner\<close>,
    \<open>Icmp_Claims\<close>: the scanner machine and its properties.
  \<^item> \<open>Sched_Model\<close>, \<open>Sched_Claims\<close>: the threads of the scheduler as an interleaving machine,
    its invariant and its properties.
  \<^item> \<open>Nat_Test\<close>: the two clients of the test program, each on the machine of \<open>Nat_Client\<close>, and the
    connection between them, composed; their heartbeats alternate for ever.
  \<^item> \<open>Downloader\<close>: the handlers of the download over the response as an input stream; what is saved
    is the body, however the response is cut.
  \<^item> \<open>Ipc_Client\<close>: any number of clients over the named queues of the system, first in, first out.
  \<^item> \<open>Thread_Condition\<close>, \<open>Thread_App\<close>, \<open>Thread_Loops\<close>: threads that wait for each other, as
    step functions on their shared state with a program counter per thread, under every schedule;
    the locale \<open>stoppable\<close> is the interface of a loop that is asked to stop.
  \<^item> \<open>Hex_Text\<close>, \<open>Uuid_Digest\<close>, \<open>NetBIOS\<close>: texts of digits, the identifiers and the addresses that
    are made of them, and the loop of the scan.
  \<^item> \<open>Sample_Server\<close>, \<open>Sample_Echo\<close>, \<open>Sample_Work\<close>, \<open>Sample_Resolver\<close>: the samples of Boost.Asio.
    \<open>Sample_Client\<close>: the asynchronous clients, the blocking client with the blocking server, and
    the programs that list and remove directories. \<open>Sample_Data\<close>: archives, indices and shared
    memory.

  \<^bold>\<open>How the code is modelled.\<close> Objects that the code shares by pointer live in a heap from
  addresses to records; the managers map ids to addresses, so that the effect of one handler on
  a session is seen by the others. A socket is whether it is open and what its queries answer.
  A program that runs on an \<open>io_service\<close> is a state with the handlers that are posted, the
  operations that are pending and the timers that wait, and a step runs one of them with the
  result that the environment chooses: an error code, the bytes that arrive, the time that
  passes. Handlers of one strand do not interleave; the model runs every handler of these
  programs as one step. In \<open>openproxy\<close> the handlers of the log-in phase are not wrapped by the
  strand: interleavings inside two of them are not modelled. In the scheduler and in the threading
  samples, where threads share atomics or a mutex, the steps are single accesses.

  The exceptions that the code throws are values of \<open>exn + 'a\<close>, and a handler's catch block is
  a branch of the model. A null dereference and an exception that leaves the \<open>io_service\<close> are
  \<open>Crash\<close>; the one loop that may not end, over the server's send queue, is a
  \<open>partial_function\<close> whose divergence is \<open>Hang\<close>. The one bound is that of \<open>io_run\<close> on the number of
  handlers, for which \<open>dispatch_order\<close> shows that 11 is enough; all other recursion is structural
  or has a termination proof. Integers keep their width where it shows: the
  time-outs, the counts of workers, ports, addresses and the checksum are words; the
  checksum's sum does not lose a carry for bodies of up to 131068 bytes, more than an IP
  datagram holds. Sizes of buffers and times are natural numbers.

  \<^bold>\<open>Parameters.\<close> What is not under \<open>src/\<close> is an argument of the definitions: the protobuf
  serialisation and the conversions of uuids and endpoints (\<open>lib\<close>), the archives of
  Boost.Serialization (\<open>archive\<close>), the router behind miniupnpc (\<open>igd\<close>), the uuid text of the
  scanner (\<open>uuid_text\<close>), the heartbeats of the test program (\<open>hb_lib\<close>), the digest function and
  the parsing of a uuid, the resolver and the ARP request of the scan, the results of system calls (\<open>env\<close> and the events). What the code
  relies on is a hypothesis of the theorem or named (\<open>uuid_text\<close>, \<open>endpoint_text\<close>,
  \<open>archive_ok\<close>, \<open>uuid_word\<close>, \<open>router_ok\<close>, \<open>p2p_coded\<close>),
  and each has a concrete instance that the witnesses use. Values the code reads before it
  sets them (\<open>bytes_\<close>, \<open>isConnect_\<close>, the counters of a proxy session) are arguments named
  \<open>raw\<close>.

  \<^bold>\<open>What the lemmas show.\<close> Type and well-formedness invariants of the managers; one write in
  flight and first-in first-out delivery of the send queues; at most one read per session and
  unchanging bytes under a relay write; exact relaying between the two sides of a pair; the
  delivery of messages from program to program, through the server and through the proxy; that a
  client's port mappings are all removed again; the handshakes on every branch; heartbeats that drop a silent client after three pings; framing,
  header and uuid round trips; the checksum's equivalence with its reference; the range, the
  termination and the time-outs of a scan; what the printer proxies pass on and what they lose;
  mutual exclusion, quiescence of stopped tasks, a
  deadlock and a lost wake-up of the scheduler; that the waiting threads of the samples are woken
  and end, with a bound on their steps; that downloads, archives and identifiers come out as they
  went in. Theorems about failures state what the code
  does on a branch where it does not do what it means to.

  \<^bold>\<open>Not modelled.\<close> Logging, command lines and the main functions that only construct the parts
  above; the grammars of Boost.Spirit, whose engine is the library's; the signal set,
  a server with an empty body and the other samples that show one library call each and have no
  state of their own; vendored headers. Memory that is freed while an operation still uses it is not represented,
  except in \<open>Sample_Server\<close> and \<open>Sample_Client\<close>, where a write refers to the frame of its handler: elsewhere such an
  operation takes its bytes when it starts. A buffer that lives on and changes under a write is
  represented: the writes of the printer proxies take their bytes when they complete, and for the
  other relays an invariant shows that the bytes do not change.
\<close>

end
